(* ===== verification/Prelude.thy ===== *)
theory Prelude
  imports Main "HOL-Library.Word" "HOL-Library.Monad_Syntax"
begin

text \<open>
  Shared vocabulary of the firmware model: machine words, the error codes of the ESP-IDF
  that the sources name, bounded reads from byte buffers, writes into fixed arrays, and the
  C library functions on characters and strings that several components use.

  Conventions. A byte buffer is a list of 8-bit words; a read outside of it is
  the value \<open>None\<close>, so that "never out of bounds" is a theorem and not a convention.
  A C string is a list of characters without the terminating NUL. A function of the source
  that reports its error through \<open>esp_err_t\<close> and writes an output parameter returns
  either a sum (\<open>Inl\<close> the error code, \<open>Inr\<close> the output) or a pair of the code
  and the new state.
\<close>

unbundle bit_operations_syntax

section \<open>Types\<close>

type_synonym u8 = "8 word"
type_synonym u16 = "16 word"
type_synonym u32 = "32 word"
type_synonym bytes = "u8 list"

text \<open>
  The error codes the sources compare against or return. Any other code that a library
  call may return is \<open>ESP_ERR_OTHER n\<close>.
\<close>

datatype esp_err =
    ESP_OK
  | ESP_FAIL
  | ESP_ERR_NO_MEM
  | ESP_ERR_INVALID_ARG
  | ESP_ERR_INVALID_STATE
  | ESP_ERR_INVALID_SIZE
  | ESP_ERR_NOT_FOUND
  | ESP_ERR_NOT_SUPPORTED
  | ESP_ERR_TIMEOUT
  | ESP_ERR_NVS_NOT_FOUND
  | ESP_ERR_NVS_NO_FREE_PAGES
  | ESP_ERR_NVS_NEW_VERSION_FOUND
  | ESP_ERR_WIFI_NOT_CONNECT
  | ESP_ERR_OTHER nat

section \<open>Collections of facts\<close>

named_theorems buf_simps \<open>reads from and writes into byte buffers\<close>
named_theorems frame \<open>fields an operation does not change\<close>

section \<open>Results in sums and options\<close>

text \<open>Which branch a case distinction on a result took, read off the value it returned.\<close>

lemma case_sum_eq_Inr: "(case r of Inl x \<Rightarrow> Inl (f x) | Inr y \<Rightarrow> g y) = Inr z \<longleftrightarrow> (\<exists>y. r = Inr y \<and> g y = Inr z)"
  by (cases r) auto

lemma case_option_eq_Inr: "(case r of None \<Rightarrow> Inl u | Some y \<Rightarrow> g y) = Inr z \<longleftrightarrow> (\<exists>y. r = Some y \<and> g y = Inr z)"
  by (cases r) auto

lemma bind_Some_eq_None: "(m \<bind> (\<lambda>x. Some (g x)) = None) \<longleftrightarrow> m = None"
  by (cases m) auto

lemma option_eqI: "(\<And>z. x = Some z \<longleftrightarrow> y = Some z) \<Longrightarrow> x = y"
  by (cases x; cases y) auto

lemmas result_convs = bind_eq_Some_conv case_sum_eq_Inr case_option_eq_Inr

section \<open>Calls in sequence\<close>

text \<open>
  The code chains its calls with \<open>if (err == ESP_OK)\<close>, or returns at the first error: a call is
  made only if no error happened before it. The result is the error and the state.
\<close>

definition if_ok :: "('s \<Rightarrow> esp_err \<times> 's) \<Rightarrow> esp_err \<times> 's \<Rightarrow> esp_err \<times> 's" where
  "if_ok call r = (case r of (err, s) \<Rightarrow> if err = ESP_OK then call s else (err, s))"

lemma fold_if_ok_error: "err \<noteq> ESP_OK \<Longrightarrow> fold if_ok cs (err, s) = (err, s)"
  by (induction cs) (simp_all add: if_ok_def)

lemma fold_if_ok_Cons: "fold if_ok (c # cs) (ESP_OK, s) = fold if_ok cs (c s)"
  by (simp add: if_ok_def)

lemma fold_if_ok_OK:
  assumes "fold if_ok (c # cs) (ESP_OK, s) = (ESP_OK, t)"
  obtains u where "c s = (ESP_OK, u)" "fold if_ok cs (ESP_OK, u) = (ESP_OK, t)"
proof (cases "c s")
  case (Pair err u)
  then show ?thesis using that assms fold_if_ok_error [of err cs u] by (cases "err = ESP_OK") (simp_all add: if_ok_def)
qed

lemma if_ok_keeps: "(\<And>s. P s \<Longrightarrow> P (snd (c s))) \<Longrightarrow> P (snd r) \<Longrightarrow> P (snd (if_ok c r))"
  by (cases r) (simp add: if_ok_def)

lemma fold_if_ok_keeps:
  assumes "\<And>f s. f \<in> set cs \<Longrightarrow> P s \<Longrightarrow> P (snd (f s))" "P s"
  shows "P (snd (fold if_ok cs (err, s)))"
  using assms
proof (induction cs arbitrary: err s)
  case (Cons c cs)
  have "P (snd (if_ok c (err, s)))" using Cons.prems by (simp add: if_ok_def)
  then show ?case using Cons.IH [of "snd (if_ok c (err, s))" "fst (if_ok c (err, s))"] Cons.prems(1) by simp
qed simp

section \<open>Reading and writing byte buffers\<close>

definition byte_at :: "bytes \<Rightarrow> nat \<Rightarrow> u8 option" where
  "byte_at bs i = (if i < length bs then Some (bs ! i) else None)"

definition be16 :: "u8 \<Rightarrow> u8 \<Rightarrow> u16" where
  "be16 hi lo = (push_bit 8 (ucast hi) OR ucast lo)"

definition u16_at :: "bytes \<Rightarrow> nat \<Rightarrow> u16 option" where
  "u16_at bs i = do { hi \<leftarrow> byte_at bs i; lo \<leftarrow> byte_at bs (Suc i); Some (be16 hi lo) }"

definition write_at :: "'a list \<Rightarrow> nat \<Rightarrow> 'a list \<Rightarrow> 'a list" where
  "write_at buf off xs = take off buf @ xs @ drop (off + length xs) buf"

lemma byte_at_Some [buf_simps]: "i < length bs \<Longrightarrow> byte_at bs i = Some (bs ! i)"
  by (simp add: byte_at_def)

lemma byte_at_eq_Some: "byte_at bs i = Some b \<longleftrightarrow> i < length bs \<and> bs ! i = b"
  by (simp add: byte_at_def)

lemma u16_at_Some [buf_simps]:
  "Suc i < length bs \<Longrightarrow> u16_at bs i = Some (be16 (bs ! i) (bs ! Suc i))"
  by (simp add: u16_at_def byte_at_def)

lemma unat_be16: "unat (be16 hi lo) = 256 * unat hi + unat lo"
proof -
  have "be16 hi lo = push_bit 8 (ucast hi) + ucast lo"
    unfolding be16_def
    by (rule disjunctive_add [symmetric]) (auto simp: bit_simps dest: bit_imp_le_length)
  also have "unat \<dots> = (256 * unat hi + unat lo) mod 2 ^ 16"
    by (simp add: unat_word_ariths push_bit_eq_mult unsigned_ucast_eq take_bit_eq_mod mod_simps mult.commute)
  also have "\<dots> = 256 * unat hi + unat lo"
    using unsigned_less [of hi, where ?'a = nat] unsigned_less [of lo, where ?'a = nat] by simp
  finally show ?thesis .
qed

lemma unat_u8_lt [simp]: "unat (b :: u8) < 256"
  using unsigned_less [of b, where ?'a = nat] by simp

lemma unat_u16_lt [simp]: "unat (w :: u16) < 65536"
  using unsigned_less [of w, where ?'a = nat] by simp

lemma unat_ucast_u16_u32 [simp]: "unat (ucast (w :: u16) :: u32) = unat w"
  by (simp add: unsigned_ucast_eq take_bit_nat_eq_self less_trans [OF unat_u16_lt])

lemma sint_delta_u32:
  assumes "a < 2 ^ 31" "b < 2 ^ 31"
  shows "sint (of_nat a - of_nat b :: u32) = int a - int b"
proof -
  have e: "(of_nat a - of_nat b :: u32) = of_int (int a - int b)" by simp
  show ?thesis
    unfolding e using assms by (simp add: signed_of_int signed_take_bit_int_eq_self del: of_int_diff)
qed

lemma length_write_at [simp]:
  "off + length xs \<le> length buf \<Longrightarrow> length (write_at buf off xs) = length buf"
  by (simp add: write_at_def)

lemma write_at_Nil [simp]: "write_at buf off [] = buf"
  by (simp add: write_at_def)

lemma nth_write_at:
  assumes "off + length xs \<le> length buf" "i < length buf"
  shows "write_at buf off xs ! i =
    (if i < off then buf ! i else if i < off + length xs then xs ! (i - off) else buf ! i)"
  using assms by (auto simp: write_at_def nth_append min_def)

lemma take_write_at:
  assumes "off \<le> length buf"
  shows "take (off + length xs) (write_at buf off xs) = take off buf @ xs"
  using assms by (simp add: write_at_def)

lemma write_at_write_at:
  assumes "off + length xs + length ys \<le> length buf"
  shows "write_at (write_at buf off xs) (off + length xs) ys = write_at buf off (xs @ ys)"
  using assms by (cases xs) (auto simp: write_at_def min_def add.commute add.left_commute)

section \<open>Characters and C strings\<close>

definition byte_char :: "u8 \<Rightarrow> char" where
  "byte_char b = char_of (unat b)"

definition char_code :: "char \<Rightarrow> nat" where
  "char_code c = of_char c"

text \<open>\<open>tolower\<close> of the C locale, on the code of a character.\<close>

definition c_tolower :: "nat \<Rightarrow> nat" where
  "c_tolower n = (if 65 \<le> n \<and> n \<le> 90 then n + 32 else n)"

definition char_lower :: "char \<Rightarrow> char" where
  "char_lower c = char_of (c_tolower (char_code c))"

definition NUL :: char where
  "NUL = char_of (0 :: nat)"

text \<open>The C string at the start of an array: everything before the first NUL.\<close>

definition c_str :: "string \<Rightarrow> string" where
  "c_str s = takeWhile (\<lambda>c. c \<noteq> NUL) s"

definition c_strnlen :: "string \<Rightarrow> nat \<Rightarrow> nat" where
  "c_strnlen s n = length (takeWhile (\<lambda>c. c \<noteq> NUL) (take n s))"

lemma NUL_char: "NUL = CHR 0x00"
  by (simp add: NUL_def char_of_def)

lemma char_code_lt [simp]: "char_code c < 256"
  by (simp add: char_code_def)

lemma char_code_of [simp]: "char_code (char_of (n :: nat)) = n mod 256"
  by (simp add: char_code_def)

lemma char_of_code [simp]: "char_of (char_code c) = c"
  by (simp add: char_code_def)

lemma char_code_inject [simp]: "char_code a = char_code b \<longleftrightarrow> a = b"
  by (simp add: char_code_def)

lemma char_code_byte_char [simp]: "char_code (byte_char b) = unat b"
  by (simp add: byte_char_def)

lemma c_tolower_lt: "n < 256 \<Longrightarrow> c_tolower n < 256"
  by (simp add: c_tolower_def)

lemma c_tolower_idem [simp]: "c_tolower (c_tolower n) = c_tolower n"
  by (simp add: c_tolower_def)

lemma char_code_lower: "char_code (char_lower c) = c_tolower (char_code c)"
  by (simp add: char_lower_def c_tolower_lt)

lemma char_lower_idem [simp]: "char_lower (char_lower c) = char_lower c"
  by (simp add: char_lower_def c_tolower_lt)

lemma c_strnlen_le: "c_strnlen s n \<le> n"
  unfolding c_strnlen_def using length_takeWhile_le [of _ "take n s"] by (rule le_trans) simp

lemma c_str_noNUL: "NUL \<notin> set s \<Longrightarrow> c_str s = s"
  by (auto simp: c_str_def takeWhile_eq_all_conv)

lemma NUL_notin_c_str: "NUL \<notin> set (c_str s)"
  by (auto simp: c_str_def dest: set_takeWhileD)

lemma c_strnlen_less: "c_strnlen s n < n \<Longrightarrow> c_strnlen s n = length (c_str s)"
proof (induction s arbitrary: n)
  case Nil
  then show ?case by (simp add: c_strnlen_def c_str_def)
next
  case (Cons c s)
  show ?case
  proof (cases n)
    case (Suc m)
    with Cons.IH [of m] Cons.prems show ?thesis
      by (simp add: c_strnlen_def c_str_def split: if_splits)
  qed (use Cons.prems in simp)
qed

section \<open>The first element of a table\<close>

text \<open>The linear search that every table of the firmware uses.\<close>

primrec find_idx :: "('a \<Rightarrow> bool) \<Rightarrow> 'a list \<Rightarrow> nat option" where
  "find_idx P [] = None"
| "find_idx P (x # xs) = (if P x then Some 0 else map_option Suc (find_idx P xs))"

lemma find_idx_None: "find_idx P xs = None \<longleftrightarrow> (\<forall>x \<in> set xs. \<not> P x)"
  by (induction xs) auto

lemma find_idx_Some:
  "find_idx P xs = Some i \<longleftrightarrow> i < length xs \<and> P (xs ! i) \<and> (\<forall>j < i. \<not> P (xs ! j))"
proof (induction xs arbitrary: i)
  case (Cons x xs)
  then show ?case
    by (cases i) (auto simp: All_less_Suc2)
qed simp

lemma find_idx_SomeD: "find_idx P xs = Some i \<Longrightarrow> i < length xs \<and> P (xs ! i)"
  by (simp add: find_idx_Some)

lemma find_idx_find: "find P xs = map_option (nth xs) (find_idx P xs)"
  by (induction xs) (auto simp: option.map_comp o_def)

lemma find_idx_cong: "(\<And>x. x \<in> set xs \<Longrightarrow> P x = Q x) \<Longrightarrow> find_idx P xs = find_idx Q xs"
  by (induction xs) auto

lemma find_idx_update: "P y = P (xs ! i) \<Longrightarrow> find_idx P (xs[i := y]) = find_idx P xs"
  by (induction xs arbitrary: i) (auto split: nat.split)

lemma find_idx_map: "find_idx P (map f xs) = find_idx (P \<circ> f) xs"
  by (induction xs) auto

end
