(* ===== verification/Client_Access.thy ===== *)
theory Client_Access
  imports Prelude
begin

text \<open>
  The table of the clients of the SoftAP, components/client\_access/client\_access.c.

  The table has one entry for each of the \<open>ESP_WIFI_MAX_CONN_NUM\<close> stations the chip can serve; the
  constant is not in the repository and is the length of the list \<open>s_clients\<close> here. Every access to
  the table is one critical section of the code and one function here, so that a run of the
  system is a sequence of these functions. The tick counter is a 32-bit word that wraps; the fields that the code
  declares as \<open>int64_t\<close> are integers (they hold tick counts and session numbers and are never
  computed with beyond a comparison or a truncation to 32 bits). An IPv4 address is the 32-bit
  word the code compares. A pointer that the code checks for NULL is an option.

  Parameters of the model, for code that is not in the repository: the tick counter
  (\<open>now\<close>), \<open>pdMS_TO_TICKS\<close>, the list of stations and the DHCP leases that the Wi-Fi
  driver reports, the ARP lookup, and the results of the event-loop registrations.
\<close>

section \<open>State\<close>

datatype client_access_state =
    CLIENT_ACCESS_STATE_UNKNOWN
  | CLIENT_ACCESS_STATE_UNAUTHORIZED
  | CLIENT_ACCESS_STATE_AUTHORIZED
  | CLIENT_ACCESS_STATE_BLOCKED

fun client_access_state_to_string :: "client_access_state \<Rightarrow> string" where
  "client_access_state_to_string CLIENT_ACCESS_STATE_UNAUTHORIZED = ''UNAUTHORIZED''"
| "client_access_state_to_string CLIENT_ACCESS_STATE_AUTHORIZED = ''AUTHORIZED''"
| "client_access_state_to_string CLIENT_ACCESS_STATE_BLOCKED = ''BLOCKED''"
| "client_access_state_to_string CLIENT_ACCESS_STATE_UNKNOWN = ''UNKNOWN''"

record client_access_entry =
  in_use :: bool
  e_mac :: bytes
  e_state :: client_access_state
  e_session_id :: int
  e_ip :: u32
  authorized_at_ticks :: int
  ttl_ticks :: int
  e_rssi :: int

definition zero_entry :: client_access_entry where
  "zero_entry =
     \<lparr>in_use = False, e_mac = replicate 6 0, e_state = CLIENT_ACCESS_STATE_UNKNOWN, e_session_id = 0,
      e_ip = 0, authorized_at_ticks = 0, ttl_ticks = 0, e_rssi = 0\<rparr>"

record client_access_snapshot =
  snap_mac :: bytes
  snap_ipv4 :: u32
  snap_state :: client_access_state
  snap_session_id :: int
  snap_rssi :: int

record client_access_disconnect_event =
  gone_mac :: bytes
  gone_state :: client_access_state
  gone_session_id :: int

datatype access_handler = Connected_Handler | Disconnected_Handler | Ip_Assigned_Handler

record client_access =
  s_clients :: "client_access_entry list"
  s_disconnect_queue :: "client_access_disconnect_event list option"
  access_handlers :: "access_handler list"
  s_started :: bool

definition client_access_boot :: "nat \<Rightarrow> client_access" where
  "client_access_boot n =
     \<lparr>s_clients = replicate n zero_entry, s_disconnect_queue = None, access_handlers = [], s_started = False\<rparr>"

section \<open>The table\<close>

definition has_mac :: "bytes \<Rightarrow> client_access_entry \<Rightarrow> bool" where
  "has_mac mac e \<longleftrightarrow> in_use e \<and> e_mac e = mac"

definition has_ip :: "u32 \<Rightarrow> client_access_entry \<Rightarrow> bool" where
  "has_ip ip e \<longleftrightarrow> in_use e \<and> e_ip e = ip"

definition find_client_index :: "client_access_entry list \<Rightarrow> bytes \<Rightarrow> nat option" where
  "find_client_index cs mac = find_idx (has_mac mac) cs"

abbreviation set_entry :: "nat \<Rightarrow> client_access_entry \<Rightarrow> client_access \<Rightarrow> client_access" where
  "set_entry i e st \<equiv> st\<lparr>s_clients := (s_clients st)[i := e]\<rparr>"

definition connected_entry :: "bytes \<Rightarrow> client_access_entry \<Rightarrow> client_access_entry" where
  "connected_entry mac e =
     e\<lparr>in_use := True, e_mac := mac, e_state := CLIENT_ACCESS_STATE_UNAUTHORIZED, e_session_id := 0,
       e_ip := 0, authorized_at_ticks := 0, ttl_ticks := 0, e_rssi := 0\<rparr>"

definition track_connected_client :: "bytes option \<Rightarrow> client_access \<Rightarrow> esp_err \<times> client_access" where
  "track_connected_client mac st =
     (case mac of
        None \<Rightarrow> (ESP_ERR_INVALID_ARG, st)
      | Some mac \<Rightarrow>
          (let index = (case find_client_index (s_clients st) mac of
                          None \<Rightarrow> find_idx (\<lambda>e. \<not> in_use e) (s_clients st)
                        | Some i \<Rightarrow> Some i)
           in case index of
                None \<Rightarrow> (ESP_ERR_NO_MEM, st)
              | Some i \<Rightarrow> (ESP_OK, set_entry i (connected_entry mac (s_clients st ! i)) st)))"

definition track_client_ip ::
  "bytes option \<Rightarrow> u32 option \<Rightarrow> client_access \<Rightarrow> esp_err \<times> client_access" where
  "track_client_ip mac ip st =
     (case (mac, ip) of
        (Some mac, Some ip) \<Rightarrow>
          (case find_client_index (s_clients st) mac of
             None \<Rightarrow> (ESP_ERR_NOT_FOUND, st)
           | Some i \<Rightarrow> (ESP_OK, set_entry i ((s_clients st ! i)\<lparr>e_ip := ip\<rparr>) st))
      | _ \<Rightarrow> (ESP_ERR_INVALID_ARG, st))"

section \<open>Stations that were connected before the start\<close>

fun track_pairs :: "(bytes \<times> u32) list \<Rightarrow> client_access \<Rightarrow> esp_err \<times> client_access" where
  "track_pairs [] st = (ESP_OK, st)"
| "track_pairs ((mac, ip) # ps) st =
     (case track_connected_client (Some mac) st of (err, st) \<Rightarrow>
        if err \<noteq> ESP_OK then (err, st)
        else if ip \<noteq> 0 then
          (case track_client_ip (Some mac) (Some ip) st of (err, st) \<Rightarrow>
             if err \<noteq> ESP_OK then (err, st) else track_pairs ps st)
        else track_pairs ps st)"

text \<open>
  \<open>stations\<close> is the answer of \<open>esp_wifi_ap_get_sta_list\<close> (MAC and RSSI of each station),
  \<open>ap_netif\<close> says whether the interface WIFI\_AP\_DEF exists, \<open>leases\<close> is the answer of
  \<open>esp_netif_dhcps_get_clients_by_mac\<close>, an address for each MAC asked for.
\<close>

definition track_existing_softap_clients ::
  "esp_err + (bytes \<times> int) list \<Rightarrow> bool \<Rightarrow> (bytes list \<Rightarrow> esp_err + u32 list) \<Rightarrow>
     client_access \<Rightarrow> esp_err \<times> client_access" where
  "track_existing_softap_clients stations ap_netif leases st =
     (case stations of
        Inl err \<Rightarrow> (err, st)
      | Inr list \<Rightarrow>
          if list = [] then (ESP_OK, st)
          else if \<not> ap_netif then (ESP_ERR_INVALID_STATE, st)
          else case leases (map fst list) of
                 Inl err \<Rightarrow> (err, st)
               | Inr ips \<Rightarrow> track_pairs (zip (map fst list) ips) st)"

section \<open>A client leaves\<close>

definition queue_send ::
  "nat \<Rightarrow> client_access_disconnect_event \<Rightarrow> client_access_disconnect_event list option \<Rightarrow>
     client_access_disconnect_event list option" where
  "queue_send capacity ev q =
     (case q of None \<Rightarrow> None | Some evs \<Rightarrow> Some (if length evs < capacity then evs @ [ev] else evs))"

definition remove_disconnect_client :: "bytes option \<Rightarrow> client_access \<Rightarrow> client_access" where
  "remove_disconnect_client mac st =
     (case mac of
        None \<Rightarrow> st
      | Some mac \<Rightarrow>
          (case find_client_index (s_clients st) mac of
             None \<Rightarrow> st
           | Some i \<Rightarrow>
               (let e = s_clients st ! i;
                    event = \<lparr>gone_mac = e_mac e, gone_state = e_state e, gone_session_id = e_session_id e\<rparr>;
                    st = set_entry i zero_entry st
                in st\<lparr>s_disconnect_queue := queue_send (length (s_clients st)) event (s_disconnect_queue st)\<rparr>)))"

text \<open>The two event handlers: an event is its base, its number and its data.\<close>

datatype softap_event =
    WIFI_EVENT_AP_STACONNECTED bytes
  | WIFI_EVENT_AP_STADISCONNECTED bytes
  | IP_EVENT_ASSIGNED_IP_TO_CLIENT bytes u32
  | OTHER_SOFTAP_EVENT

definition client_access_event_handler :: "softap_event option \<Rightarrow> client_access \<Rightarrow> client_access" where
  "client_access_event_handler ev st =
     (case ev of
        Some (WIFI_EVENT_AP_STACONNECTED mac) \<Rightarrow> snd (track_connected_client (Some mac) st)
      | Some (WIFI_EVENT_AP_STADISCONNECTED mac) \<Rightarrow> remove_disconnect_client (Some mac) st
      | _ \<Rightarrow> st)"

definition client_access_ip_event_handler :: "softap_event option \<Rightarrow> client_access \<Rightarrow> client_access" where
  "client_access_ip_event_handler ev st =
     (case ev of
        Some (IP_EVENT_ASSIGNED_IP_TO_CLIENT mac ip) \<Rightarrow> snd (track_client_ip (Some mac) (Some ip) st)
      | _ \<Rightarrow> st)"


section \<open>MAC addresses as text\<close>

definition is_space :: "char \<Rightarrow> bool" where
  "is_space c \<longleftrightarrow> char_code c = 32 \<or> (9 \<le> char_code c \<and> char_code c \<le> 13)"

definition hex_digit :: "char \<Rightarrow> nat option" where
  "hex_digit c =
     (let n = char_code c in
      if 48 \<le> n \<and> n \<le> 57 then Some (n - 48)
      else if 97 \<le> n \<and> n \<le> 102 then Some (n - 87)
      else if 65 \<le> n \<and> n \<le> 70 then Some (n - 55)
      else None)"

text \<open>
  The conversion \<open>%2x\<close> of \<open>sscanf\<close> (C11, 7.21.6.2): white space is skipped and does not count, then at
  most two characters are taken: an optional sign and hexadecimal digits. \<open>0x\<close> without a digit is not a
  number. The result is the value and the rest of the input.
\<close>

definition scan_2x :: "string \<Rightarrow> (u32 \<times> string) option" where
  "scan_2x s =
     (case dropWhile is_space s of
        [] \<Rightarrow> None
      | c # r \<Rightarrow>
          if c = CHR ''+'' \<or> c = CHR ''-'' then
            (case r of
               [] \<Rightarrow> None
             | d # r' \<Rightarrow>
                 (case hex_digit d of
                    None \<Rightarrow> None
                  | Some v \<Rightarrow> Some (if c = CHR ''-'' then - of_nat v else of_nat v, r')))
          else
            (case hex_digit c of
               None \<Rightarrow> None
             | Some v \<Rightarrow>
                 (case r of
                    [] \<Rightarrow> Some (of_nat v, [])
                  | d # r' \<Rightarrow>
                      (case hex_digit d of
                         Some w \<Rightarrow> Some (of_nat (16 * v + w), r')
                       | None \<Rightarrow>
                           if c = CHR ''0'' \<and> (d = CHR ''x'' \<or> d = CHR ''X'') then None
                           else Some (of_nat v, r)))))"

text \<open>\<open>n + 1\<close> conversions with colons between them; \<open>None\<close> when fewer succeed.\<close>

fun scan_mac :: "nat \<Rightarrow> string \<Rightarrow> u32 list option" where
  "scan_mac n s =
     (case scan_2x s of
        None \<Rightarrow> None
      | Some (v, r) \<Rightarrow>
          (case n of
             0 \<Rightarrow> Some [v]
           | Suc m \<Rightarrow>
               (case r of
                  CHR '':'' # r' \<Rightarrow> map_option (Cons v) (scan_mac m r')
                | _ \<Rightarrow> None)))"

declare scan_mac.simps [simp del]

definition parse_mac_address :: "string option \<Rightarrow> esp_err + bytes" where
  "parse_mac_address mac_text =
     (case mac_text of
        None \<Rightarrow> Inl ESP_ERR_INVALID_ARG
      | Some t \<Rightarrow>
          if length t \<noteq> 17 \<or> t ! 2 \<noteq> CHR '':'' \<or> t ! 5 \<noteq> CHR '':'' \<or> t ! 8 \<noteq> CHR '':'' \<or>
             t ! 11 \<noteq> CHR '':'' \<or> t ! 14 \<noteq> CHR '':''
          then Inl ESP_ERR_INVALID_ARG
          else
            (case scan_mac 5 t of
               None \<Rightarrow> Inl ESP_ERR_INVALID_ARG
             | Some parts \<Rightarrow>
                 if list_ex (\<lambda>v. v > 0xFF) parts then Inl ESP_ERR_INVALID_ARG
                 else Inr (map ucast parts)))"

section \<open>State queries and changes\<close>

definition client_access_set_state ::
  "bytes option \<Rightarrow> client_access_state \<Rightarrow> client_access \<Rightarrow> esp_err \<times> client_access" where
  "client_access_set_state mac new st =
     (case mac of
        None \<Rightarrow> (ESP_ERR_INVALID_ARG, st)
      | Some mac \<Rightarrow>
          if new \<noteq> CLIENT_ACCESS_STATE_UNAUTHORIZED \<and> new \<noteq> CLIENT_ACCESS_STATE_AUTHORIZED \<and>
             new \<noteq> CLIENT_ACCESS_STATE_BLOCKED
          then (ESP_ERR_INVALID_ARG, st)
          else
            (case find_client_index (s_clients st) mac of
               None \<Rightarrow> (ESP_ERR_NOT_FOUND, st)
             | Some i \<Rightarrow> (ESP_OK, set_entry i ((s_clients st ! i)\<lparr>e_state := new\<rparr>) st)))"

definition client_access_get_state :: "bytes option \<Rightarrow> client_access \<Rightarrow> esp_err + client_access_state" where
  "client_access_get_state mac st =
     (case mac of
        None \<Rightarrow> Inl ESP_ERR_INVALID_ARG
      | Some mac \<Rightarrow>
          (case find_client_index (s_clients st) mac of
             None \<Rightarrow> Inl ESP_ERR_NOT_FOUND
           | Some i \<Rightarrow> Inr (e_state (s_clients st ! i))))"

definition snapshot_of :: "client_access_entry \<Rightarrow> client_access_snapshot" where
  "snapshot_of e =
     \<lparr>snap_mac = e_mac e, snap_ipv4 = e_ip e, snap_state = e_state e, snap_session_id = e_session_id e,
      snap_rssi = e_rssi e\<rparr>"

definition copy_client_snapshot_by_ipv4 ::
  "u32 \<Rightarrow> client_access \<Rightarrow> esp_err + client_access_snapshot" where
  "copy_client_snapshot_by_ipv4 source_ip st =
     (case find_idx (has_ip source_ip) (s_clients st) of
        None \<Rightarrow> Inl ESP_ERR_NOT_FOUND
      | Some i \<Rightarrow> Inr (snapshot_of (s_clients st ! i)))"

text \<open>
  What the network stack offers for the ARP recovery: whether the interface exists, whether it has
  an lwIP interface behind it, the answer of \<open>etharp_find_addr\<close>, and the error of
  \<open>esp_netif_tcpip_exec\<close> when it cannot run the lookup at all.
\<close>

record arp_service =
  arp_netif :: bool
  arp_netif_impl :: bool
  arp_exec_error :: "esp_err option"
  etharp_find_addr :: "u32 \<Rightarrow> bytes option"

definition find_client_mac_in_arp_table :: "arp_service \<Rightarrow> u32 \<Rightarrow> esp_err + bytes" where
  "find_client_mac_in_arp_table arp ip =
     (case etharp_find_addr arp ip of None \<Rightarrow> Inl ESP_ERR_NOT_FOUND | Some mac \<Rightarrow> Inr mac)"

definition resolve_client_mac_by_ipv4 :: "arp_service \<Rightarrow> u32 \<Rightarrow> esp_err + bytes" where
  "resolve_client_mac_by_ipv4 arp source_ip =
     (if source_ip = 0 then Inl ESP_ERR_INVALID_ARG
      else if \<not> arp_netif arp then Inl ESP_ERR_INVALID_STATE
      else if \<not> arp_netif_impl arp then Inl ESP_ERR_INVALID_STATE
      else case arp_exec_error arp of
             Some err \<Rightarrow> Inl err
           | None \<Rightarrow> find_client_mac_in_arp_table arp source_ip)"

text \<open>
  The lookup of a snapshot holds the lock three times. \<open>meanwhile\<close> is what other
  tasks do to the table between the failed lookup and the update, and before the second lookup.
\<close>

definition client_access_get_snapshot_by_ipv4 ::
  "arp_service \<Rightarrow> (client_access \<Rightarrow> client_access) \<Rightarrow> u32 \<Rightarrow> client_access \<Rightarrow>
     (esp_err + client_access_snapshot) \<times> client_access" where
  "client_access_get_snapshot_by_ipv4 arp meanwhile source_ip st =
     (if source_ip = 0 then (Inl ESP_ERR_INVALID_ARG, st)
      else case copy_client_snapshot_by_ipv4 source_ip st of
             Inr snapshot \<Rightarrow> (Inr snapshot, st)
           | Inl _ \<Rightarrow>
               (let st = meanwhile st in
                case resolve_client_mac_by_ipv4 arp source_ip of
                  Inl err \<Rightarrow> (Inl err, st)
                | Inr mac \<Rightarrow>
                    (case track_client_ip (Some mac) (Some source_ip) st of (err, st) \<Rightarrow>
                       if err \<noteq> ESP_OK then (Inl err, st)
                       else (let st = meanwhile st in (copy_client_snapshot_by_ipv4 source_ip st, st)))))"

section \<open>Authorization and its expiry\<close>

definition expired_entry :: "client_access_entry \<Rightarrow> client_access_entry" where
  "expired_entry e = e\<lparr>e_state := CLIENT_ACCESS_STATE_UNAUTHORIZED, e_session_id := 0, ttl_ticks := 0\<rparr>"

definition client_access_can_forward_ipv4 :: "u32 \<Rightarrow> u32 \<Rightarrow> client_access \<Rightarrow> bool \<times> client_access" where
  "client_access_can_forward_ipv4 now source_ip st =
     (if source_ip = 0 then (False, st)
      else case find_idx (has_ip source_ip) (s_clients st) of
             None \<Rightarrow> (False, st)
           | Some i \<Rightarrow>
               (let e = s_clients st ! i in
                if e_state e = CLIENT_ACCESS_STATE_AUTHORIZED then
                  if ttl_ticks e > 0 then
                    (let elapsed = now - word_of_int (authorized_at_ticks e) in
                     if uint elapsed \<ge> ttl_ticks e then (False, set_entry i (expired_entry e) st)
                     else (True, st))
                  else (True, st)
                else (False, st)))"

definition client_access_copy_snapshots :: "nat \<Rightarrow> client_access \<Rightarrow> esp_err + client_access_snapshot list" where
  "client_access_copy_snapshots capacity st =
     (if capacity = 0 then Inl ESP_ERR_INVALID_ARG
      else Inr (take capacity (map snapshot_of (filter in_use (s_clients st)))))"

definition client_access_authorize ::
  "(u32 \<Rightarrow> u32) \<Rightarrow> u32 \<Rightarrow> string option \<Rightarrow> int \<Rightarrow> u32 \<Rightarrow> client_access \<Rightarrow> esp_err \<times> client_access" where
  "client_access_authorize ms_to_ticks now mac_text session_id ttl_seconds st =
     (if session_id \<le> 0 then (ESP_ERR_INVALID_ARG, st)
      else case parse_mac_address mac_text of
             Inl err \<Rightarrow> (err, st)
           | Inr mac \<Rightarrow>
               (case find_client_index (s_clients st) mac of
                  None \<Rightarrow> (ESP_ERR_NOT_FOUND, st)
                | Some i \<Rightarrow>
                    (ESP_OK, set_entry i
                       ((s_clients st ! i)\<lparr>e_state := CLIENT_ACCESS_STATE_AUTHORIZED,
                          e_session_id := session_id, authorized_at_ticks := uint now,
                          ttl_ticks := uint (ms_to_ticks (ttl_seconds * 1000))\<rparr>) st)))"

definition client_access_revoke_authorization ::
  "string option \<Rightarrow> int \<Rightarrow> client_access \<Rightarrow> esp_err \<times> client_access" where
  "client_access_revoke_authorization mac_text session_id st =
     (if session_id \<le> 0 then (ESP_ERR_INVALID_ARG, st)
      else case parse_mac_address mac_text of
             Inl err \<Rightarrow> (err, st)
           | Inr mac \<Rightarrow>
               (case find_client_index (s_clients st) mac of
                  None \<Rightarrow> (ESP_ERR_NOT_FOUND, st)
                | Some i \<Rightarrow>
                    (let e = s_clients st ! i in
                     if e_state e = CLIENT_ACCESS_STATE_AUTHORIZED \<and> e_session_id e = session_id
                     then (ESP_OK, set_entry i (expired_entry e) st)
                     else (ESP_ERR_INVALID_STATE, st))))"

definition expire_entry :: "u32 \<Rightarrow> client_access_entry \<Rightarrow> client_access_entry" where
  "expire_entry now e =
     (if \<not> in_use e then e
      else if e_state e \<noteq> CLIENT_ACCESS_STATE_AUTHORIZED then e
      else if ttl_ticks e \<le> 0 then e
      else (let elapsed = word_of_int (uint now - authorized_at_ticks e) :: u32 in
            if uint elapsed \<ge> ttl_ticks e then expired_entry e else e))"

definition client_access_expire_check :: "u32 \<Rightarrow> client_access \<Rightarrow> client_access" where
  "client_access_expire_check now st = st\<lparr>s_clients := map (expire_entry now) (s_clients st)\<rparr>"

section \<open>Signal strength, disconnect events and start\<close>

fun store_rssi :: "(bytes \<times> int) list \<Rightarrow> client_access_entry list \<Rightarrow> client_access_entry list" where
  "store_rssi [] cs = cs"
| "store_rssi ((mac, rssi) # list) cs =
     store_rssi list (case find_client_index cs mac of
                        None \<Rightarrow> cs
                      | Some i \<Rightarrow> cs[i := (cs ! i)\<lparr>e_rssi := rssi\<rparr>])"

definition client_access_update_rssi_all ::
  "esp_err + (bytes \<times> int) list \<Rightarrow> client_access \<Rightarrow> esp_err \<times> client_access" where
  "client_access_update_rssi_all stations st =
     (case stations of
        Inl err \<Rightarrow> (err, st)
      | Inr list \<Rightarrow>
          (ESP_OK, st\<lparr>s_clients := store_rssi list
             (map (\<lambda>e. if in_use e then e\<lparr>e_rssi := 0\<rparr> else e) (s_clients st))\<rparr>))"

text \<open>The queue is empty when the wait ends: \<open>ESP_ERR_TIMEOUT\<close>.\<close>

definition client_access_wait_disconnect_event ::
  "client_access \<Rightarrow> (esp_err + client_access_disconnect_event) \<times> client_access" where
  "client_access_wait_disconnect_event st =
     (case s_disconnect_queue st of
        None \<Rightarrow> (Inl ESP_ERR_INVALID_STATE, st)
      | Some [] \<Rightarrow> (Inl ESP_ERR_TIMEOUT, st)
      | Some (ev # evs) \<Rightarrow> (Inr ev, st\<lparr>s_disconnect_queue := Some evs\<rparr>))"

record access_start_env =
  queue_created :: bool
  register_connected :: esp_err
  register_disconnected :: esp_err
  register_ip_assigned :: esp_err
  softap_stations :: "esp_err + (bytes \<times> int) list"
  softap_netif :: bool
  softap_leases :: "bytes list \<Rightarrow> esp_err + u32 list"

definition register_handler :: "access_handler \<Rightarrow> client_access \<Rightarrow> client_access" where
  "register_handler h st = st\<lparr>access_handlers := h # access_handlers st\<rparr>"

definition unregister_handler :: "access_handler \<Rightarrow> client_access \<Rightarrow> client_access" where
  "unregister_handler h st = st\<lparr>access_handlers := removeAll h (access_handlers st)\<rparr>"

definition client_access_start :: "access_start_env \<Rightarrow> client_access \<Rightarrow> esp_err \<times> client_access" where
  "client_access_start env st =
     (if s_started st then (ESP_OK, st)
      else
        (let st = (if s_disconnect_queue st = None \<and> queue_created env
                   then st\<lparr>s_disconnect_queue := Some []\<rparr> else st) in
         if s_disconnect_queue st = None then (ESP_ERR_NO_MEM, st)
         else
           (let st = st\<lparr>s_disconnect_queue := Some []\<rparr>; err = register_connected env in
            if err \<noteq> ESP_OK then (err, st)
            else
              (let st = register_handler Connected_Handler st; err = register_disconnected env in
               if err \<noteq> ESP_OK then (err, unregister_handler Connected_Handler st)
               else
                 (let st = register_handler Disconnected_Handler st; err = register_ip_assigned env in
                  if err \<noteq> ESP_OK
                  then (err, unregister_handler Disconnected_Handler (unregister_handler Connected_Handler st))
                  else
                    (case track_existing_softap_clients (softap_stations env) (softap_netif env)
                            (softap_leases env) (register_handler Ip_Assigned_Handler st) of (err, st) \<Rightarrow>
                       if err \<noteq> ESP_OK
                       then (err, unregister_handler Ip_Assigned_Handler
                                    (unregister_handler Disconnected_Handler
                                       (unregister_handler Connected_Handler st)))
                       else (ESP_OK, st\<lparr>s_started := True\<rparr>)))))))"

end
