(* ===== verification/Slot_Table.thy ===== *)
theory Slot_Table
  imports Prelude
begin

text \<open>
  Fixed tables of slots. The clients, the blocking rules and the tracked TLS flows are
  all kept the same way: an array whose slots are in use or free, searched from the front by a key, with at
  most one slot in use for a key. A table read this way is a finite map from keys to slots; the
  locale proves once what replacing, inserting, deleting and transforming slots do to that map.
\<close>

definition slot_of :: "('e \<Rightarrow> bool) \<Rightarrow> ('e \<Rightarrow> 'k) \<Rightarrow> 'e list \<Rightarrow> 'k \<Rightarrow> nat option" where
  "slot_of live key es k = find_idx (\<lambda>e. live e \<and> key e = k) es"

definition table_map :: "('e \<Rightarrow> bool) \<Rightarrow> ('e \<Rightarrow> 'k) \<Rightarrow> 'e list \<Rightarrow> 'k \<Rightarrow> 'e option" where
  "table_map live key es k = map_option (nth es) (slot_of live key es k)"

definition table_ok :: "('e \<Rightarrow> bool) \<Rightarrow> ('e \<Rightarrow> 'k) \<Rightarrow> 'e list \<Rightarrow> bool" where
  "table_ok live key es \<longleftrightarrow>
     (\<forall>i < length es. \<forall>j < length es. live (es ! i) \<and> live (es ! j) \<and> key (es ! i) = key (es ! j) \<longrightarrow> i = j)"

lemma nth_upd: "j < length xs \<Longrightarrow> xs[i := x] ! j = (if i = j then x else xs ! j)"
  by (cases "i = j") simp_all

lemma slot_of_SomeD:
  "slot_of live key es k = Some i \<Longrightarrow> i < length es \<and> live (es ! i) \<and> key (es ! i) = k"
  by (auto simp: slot_of_def dest: find_idx_SomeD)

lemma slot_of_None: "slot_of live key es k = None \<longleftrightarrow> (\<forall>e \<in> set es. live e \<longrightarrow> key e \<noteq> k)"
  by (auto simp: slot_of_def find_idx_None)

lemma slot_of_eq:
  "table_ok live key es \<Longrightarrow>
   slot_of live key es k = Some i \<longleftrightarrow> i < length es \<and> live (es ! i) \<and> key (es ! i) = k"
  unfolding slot_of_def find_idx_Some table_ok_def by (metis less_trans nat_neq_iff)

lemma table_map_eq_Some:
  "table_ok live key es \<Longrightarrow>
   table_map live key es k = Some e \<longleftrightarrow> (\<exists>i < length es. es ! i = e \<and> live e \<and> key e = k)"
  by (auto simp: table_map_def slot_of_eq)

lemma table_map_None: "table_map live key es k = None \<longleftrightarrow> (\<forall>e \<in> set es. live e \<longrightarrow> key e \<noteq> k)"
  by (simp add: table_map_def slot_of_None)

locale slot_table =
  fixes live :: "'e \<Rightarrow> bool" and key :: "'e \<Rightarrow> 'k" and empty :: 'e
  assumes empty_free: "\<not> live empty"
begin

lemma ok_boot: "table_ok live key (replicate n empty)"
  by (simp add: table_ok_def empty_free)

lemma map_boot: "table_map live key (replicate n empty) = Map.empty"
  by (rule ext) (auto simp: table_map_None empty_free)

lemma ok_replace:
  assumes "table_ok live key es" "slot_of live key es k = Some i" "key e = k"
  shows "table_ok live key (es[i := e])"
  using assms slot_of_SomeD [OF assms(2)] unfolding table_ok_def
  by (auto simp: nth_upd)

lemma ok_insert:
  assumes "table_ok live key es" "slot_of live key es k = None" "key e = k"
  shows "table_ok live key (es[i := e])"
  using assms unfolding table_ok_def slot_of_None
  by (auto simp: nth_upd all_set_conv_all_nth split: if_split_asm)

lemma ok_free:
  assumes "table_ok live key es" "\<not> live e"
  shows "table_ok live key (es[i := e])"
  using assms unfolding table_ok_def by (auto simp: nth_upd split: if_split_asm)

lemma ok_map:
  assumes "table_ok live key es" "\<And>e. live (f e) \<Longrightarrow> live e \<and> key (f e) = key e"
  shows "table_ok live key (map f es)"
  using assms unfolding table_ok_def by (metis length_map nth_map)

lemma map_replace:
  assumes ok: "table_ok live key es" and i: "slot_of live key es k = Some i" and e: "live e" "key e = k"
  shows "table_map live key (es[i := e]) = (table_map live key es)(k \<mapsto> e)"
proof (rule ext)
  fix k'
  note ok' = ok_replace [OF ok i e(2)] and il = slot_of_SomeD [OF i]
  show "table_map live key (es[i := e]) k' = ((table_map live key es)(k \<mapsto> e)) k'"
  proof (cases "k' = k")
    case True
    then show ?thesis using il e by (auto simp: table_map_eq_Some [OF ok'] nth_upd)
  next
    case False
    have "table_map live key (es[i := e]) k' = Some x \<longleftrightarrow> table_map live key es k' = Some x" for x
      using il e False by (auto simp: table_map_eq_Some [OF ok'] table_map_eq_Some [OF ok] nth_upd)
    then show ?thesis using False by (auto intro: option.expand) (metis not_Some_eq)+
  qed
qed

lemma map_insert:
  assumes ok: "table_ok live key es" and k: "slot_of live key es k = None"
    and i: "i < length es" "\<not> live (es ! i)" and e: "live e" "key e = k"
  shows "table_map live key (es[i := e]) = (table_map live key es)(k \<mapsto> e)"
proof (rule ext)
  fix k'
  note ok' = ok_insert [OF ok k e(2), of i]
  show "table_map live key (es[i := e]) k' = ((table_map live key es)(k \<mapsto> e)) k'"
  proof (cases "k' = k")
    case True
    then show ?thesis using i e by (auto simp: table_map_eq_Some [OF ok'] nth_upd)
  next
    case False
    have "table_map live key (es[i := e]) k' = Some x \<longleftrightarrow> table_map live key es k' = Some x" for x
      using i e False by (auto simp: table_map_eq_Some [OF ok'] table_map_eq_Some [OF ok] nth_upd)
    then show ?thesis using False by (auto intro: option.expand) (metis not_Some_eq)+
  qed
qed

lemma map_free:
  assumes ok: "table_ok live key es" and i: "slot_of live key es k = Some i" and e: "\<not> live e"
  shows "table_map live key (es[i := e]) = (table_map live key es)(k := None)"
proof (rule ext)
  fix k'
  note ok' = ok_free [OF ok e, of i] and il = slot_of_SomeD [OF i]
  have "table_map live key (es[i := e]) k' = Some x \<longleftrightarrow> k' \<noteq> k \<and> table_map live key es k' = Some x" for x
    using il e ok unfolding table_map_eq_Some [OF ok'] table_map_eq_Some [OF ok] table_ok_def
    by (auto simp: nth_upd split: if_split_asm)
  then show "table_map live key (es[i := e]) k' = ((table_map live key es)(k := None)) k'"
    by (auto intro: option.expand) (metis not_Some_eq)+
qed

lemma map_map:
  assumes ok: "table_ok live key es" and f: "\<And>e. live (f e) = live e" "\<And>e. live e \<Longrightarrow> key (f e) = key e"
  shows "table_map live key (map f es) k = map_option f (table_map live key es k)"
proof -
  have "slot_of live key (map f es) k = slot_of live key es k"
    unfolding slot_of_def find_idx_map by (rule find_idx_cong) (auto simp: f)
  then show ?thesis
    by (cases "slot_of live key es k") (auto simp: table_map_def dest: slot_of_SomeD)
qed

lemma full_table:
  assumes "table_ok live key es" "find_idx (\<lambda>e. \<not> live e) es = None"
  shows "card (dom (table_map live key es)) = length es"
proof -
  have all: "\<forall>e \<in> set es. live e" using assms(2) by (simp add: find_idx_None)
  have "dom (table_map live key es) = (\<lambda>i. key (es ! i)) ` {..<length es}"
    using all by (auto simp: dom_def table_map_eq_Some [OF assms(1)])
  moreover have "inj_on (\<lambda>i. key (es ! i)) {..<length es}"
    using assms(1) all by (auto simp: inj_on_def table_ok_def)
  ultimately show ?thesis by (simp add: card_image)
qed

end

end
