(* ===== verification/Client_Table.thy ===== *)
theory Client_Table
  imports Client_Access Slot_Table
begin

text \<open>
  The client table as a finite map from MAC addresses to entries: every operation of
  client\_access.c is one update of that map, a step relation over all of them keeps the
  invariant, and the properties of authorization follow.
\<close>

section \<open>The invariant and the map\<close>

definition entry_ok :: "client_access_entry \<Rightarrow> bool" where
  "entry_ok e \<longleftrightarrow>
     (\<not> in_use e \<longrightarrow> e = zero_entry) \<and> 0 \<le> ttl_ticks e \<and> ttl_ticks e < 2 ^ 32 \<and>
     0 \<le> authorized_at_ticks e \<and> authorized_at_ticks e < 2 ^ 32"

definition clients_ok :: "client_access \<Rightarrow> bool" where
  "clients_ok st \<longleftrightarrow>
     table_ok in_use e_mac (s_clients st) \<and> list_all entry_ok (s_clients st) \<and>
     (case s_disconnect_queue st of None \<Rightarrow> True | Some evs \<Rightarrow> length evs \<le> length (s_clients st))"

definition client_map :: "client_access \<Rightarrow> bytes \<Rightarrow> client_access_entry option" where
  "client_map st = table_map in_use e_mac (s_clients st)"

interpretation clients: slot_table in_use e_mac zero_entry
  by unfold_locales (simp add: zero_entry_def)

lemma find_client_index_slot: "find_client_index cs mac = slot_of in_use e_mac cs mac"
  by (simp add: find_client_index_def slot_of_def has_mac_def [abs_def])

lemma client_map_alt: "client_map st mac = map_option (nth (s_clients st)) (find_client_index (s_clients st) mac)"
  by (simp add: client_map_def table_map_def find_client_index_slot)

lemma client_map_mac: "client_map st mac = Some e \<Longrightarrow> in_use e \<and> e_mac e = mac"
  by (auto simp: client_map_def table_map_def dest: slot_of_SomeD)

lemma client_map_in: "client_map st mac = Some e \<Longrightarrow> e \<in> set (s_clients st)"
  by (auto simp: client_map_def table_map_def dest: slot_of_SomeD)

lemma entry_ok_zero: "entry_ok zero_entry"
  by (simp add: entry_ok_def zero_entry_def)

lemma clients_ok_boot: "clients_ok (client_access_boot n)"
  by (auto simp: clients_ok_def client_access_boot_def clients.ok_boot list_all_iff entry_ok_zero)

lemma client_map_boot: "client_map (client_access_boot n) = Map.empty"
  by (simp add: client_map_def client_access_boot_def clients.map_boot)

text \<open>The one lemma behind every operation that changes the entry of a client.\<close>

lemma set_entry_ok:
  assumes "clients_ok st" "find_client_index (s_clients st) mac = Some i"
    and "in_use e" "e_mac e = mac" "entry_ok e"
  shows "clients_ok (set_entry i e st)" "client_map (set_entry i e st) = (client_map st)(mac \<mapsto> e)"
  using assms unfolding find_client_index_slot
  by (auto simp: clients_ok_def client_map_def clients.ok_replace clients.map_replace
      list_all_iff split: option.splits dest!: set_update_subset_insert [THEN subsetD])

lemma entry_ok_nth: "clients_ok st \<Longrightarrow> i < length (s_clients st) \<Longrightarrow> entry_ok (s_clients st ! i)"
  by (simp add: clients_ok_def list_all_length)

lemma find_client_indexD:
  "find_client_index cs mac = Some i \<Longrightarrow> i < length cs \<and> in_use (cs ! i) \<and> e_mac (cs ! i) = mac"
  unfolding find_client_index_slot by (rule slot_of_SomeD)

section \<open>Operations as updates of the map\<close>

definition fresh_client :: "bytes \<Rightarrow> client_access_entry" where
  "fresh_client mac = connected_entry mac zero_entry"

lemma connected_entry_fresh: "connected_entry mac e = fresh_client mac"
  by (cases e) (simp add: fresh_client_def connected_entry_def zero_entry_def)

lemma fresh_client_ok: "in_use (fresh_client mac)" "e_mac (fresh_client mac) = mac" "entry_ok (fresh_client mac)"
  by (simp_all add: fresh_client_def connected_entry_def entry_ok_def zero_entry_def)

lemma track_connected_client_cases:
  assumes ok: "clients_ok st"
  obtains (tracked) st' where "track_connected_client (Some mac) st = (ESP_OK, st')" "clients_ok st'"
      "client_map st' = (client_map st)(mac \<mapsto> fresh_client mac)"
      "length (s_clients st') = length (s_clients st)" "s_disconnect_queue st' = s_disconnect_queue st"
  | (full) "track_connected_client (Some mac) st = (ESP_ERR_NO_MEM, st)" "client_map st mac = None"
      "card (dom (client_map st)) = length (s_clients st)"
proof (cases "find_client_index (s_clients st) mac")
  case (Some i)
  then show ?thesis
    using tracked [of "set_entry i (fresh_client mac) st"] set_entry_ok [OF ok Some fresh_client_ok]
    by (simp add: track_connected_client_def Let_def connected_entry_fresh)
next
  case None
  show ?thesis
  proof (cases "find_idx (\<lambda>e. \<not> in_use e) (s_clients st)")
    case None': None
    have t: "table_ok in_use e_mac (s_clients st)" using ok by (simp add: clients_ok_def)
    have "client_map st mac = None" using None by (simp add: client_map_alt)
    then show ?thesis
      using None None' full clients.full_table [OF t None']
      by (simp add: track_connected_client_def Let_def client_map_def)
  next
    case (Some i)
    then have i: "i < length (s_clients st)" "\<not> in_use (s_clients st ! i)" by (auto dest: find_idx_SomeD)
    let ?st = "set_entry i (fresh_client mac) st"
    have t: "table_ok in_use e_mac (s_clients st)" using ok by (simp add: clients_ok_def)
    have s: "slot_of in_use e_mac (s_clients st) mac = None" using None by (simp add: find_client_index_slot)
    have "clients_ok ?st"
      using ok clients.ok_insert [OF t s fresh_client_ok(2), of i] fresh_client_ok(3)
      by (auto simp: clients_ok_def list_all_iff split: option.splits dest!: set_update_subset_insert [THEN subsetD])
    moreover have "client_map ?st = (client_map st)(mac \<mapsto> fresh_client mac)"
      using clients.map_insert [OF t s i fresh_client_ok(1,2)] by (simp add: client_map_def)
    ultimately show ?thesis
      using None Some tracked [of ?st] by (simp add: track_connected_client_def Let_def connected_entry_fresh)
  qed
qed

lemma track_client_ip_cases:
  assumes ok: "clients_ok st"
  obtains (tracked) e st' where "client_map st mac = Some e"
      "track_client_ip (Some mac) (Some ip) st = (ESP_OK, st')" "clients_ok st'"
      "client_map st' = (client_map st)(mac \<mapsto> e\<lparr>e_ip := ip\<rparr>)"
      "length (s_clients st') = length (s_clients st)" "s_disconnect_queue st' = s_disconnect_queue st"
  | (unknown) "client_map st mac = None" "track_client_ip (Some mac) (Some ip) st = (ESP_ERR_NOT_FOUND, st)"
proof (cases "find_client_index (s_clients st) mac")
  case (Some i)
  let ?e = "s_clients st ! i"
  have e: "in_use ?e" "e_mac ?e = mac" "entry_ok ?e"
    using find_client_indexD [OF Some] entry_ok_nth [OF ok] by auto
  then have "in_use (?e\<lparr>e_ip := ip\<rparr>)" "e_mac (?e\<lparr>e_ip := ip\<rparr>) = mac" "entry_ok (?e\<lparr>e_ip := ip\<rparr>)"
    by (simp_all add: entry_ok_def)
  from set_entry_ok [OF ok Some this] show ?thesis
    using tracked [of ?e "set_entry i (?e\<lparr>e_ip := ip\<rparr>) st"] Some
    by (simp add: track_client_ip_def client_map_alt)
qed (use unknown in \<open>simp add: track_client_ip_def client_map_alt\<close>)


lemma remove_disconnect_client_spec:
  assumes ok: "clients_ok st"
  shows "clients_ok (remove_disconnect_client (Some mac) st)"
    "client_map (remove_disconnect_client (Some mac) st) = (client_map st)(mac := None)"
    "length (s_clients (remove_disconnect_client (Some mac) st)) = length (s_clients st)"
proof -
  let ?st' = "remove_disconnect_client (Some mac) st"
  have "clients_ok ?st' \<and> client_map ?st' = (client_map st)(mac := None) \<and>
        length (s_clients ?st') = length (s_clients st)"
  proof (cases "find_client_index (s_clients st) mac")
    case None
    then have "client_map st mac = None" by (simp add: client_map_alt)
    then have "(client_map st)(mac := None) = client_map st" by (simp add: fun_upd_idem)
    then show ?thesis using ok None by (simp add: remove_disconnect_client_def)
  next
    case (Some i)
    have t: "table_ok in_use e_mac (s_clients st)" using ok by (simp add: clients_ok_def)
    have z: "\<not> in_use zero_entry" by (simp add: zero_entry_def)
    have s: "slot_of in_use e_mac (s_clients st) mac = Some i" using Some by (simp add: find_client_index_slot)
    show ?thesis
      using ok Some clients.ok_free [OF t z, of i] clients.map_free [OF t s z] entry_ok_zero
      by (auto simp: remove_disconnect_client_def Let_def clients_ok_def client_map_def queue_send_def list_all_iff
          split: option.splits dest!: set_update_subset_insert [THEN subsetD])
  qed
  then show "clients_ok ?st'" "client_map ?st' = (client_map st)(mac := None)"
    "length (s_clients ?st') = length (s_clients st)" by blast+
qed

lemma change_entry:
  assumes ok: "clients_ok st" and i: "find_client_index (s_clients st) mac = Some i"
    and f: "\<And>e. in_use (f e) = in_use e" "\<And>e. e_mac (f e) = e_mac e"
      "entry_ok (s_clients st ! i) \<Longrightarrow> in_use (s_clients st ! i) \<Longrightarrow> entry_ok (f (s_clients st ! i))"
  shows "clients_ok (set_entry i (f (s_clients st ! i)) st)"
    "client_map (set_entry i (f (s_clients st ! i)) st) = (client_map st)(mac \<mapsto> f (s_clients st ! i))"
    "client_map st mac = Some (s_clients st ! i)"
  using set_entry_ok [OF ok i, of "f (s_clients st ! i)"] find_client_indexD [OF i] entry_ok_nth [OF ok] f i
  by (simp_all add: client_map_alt)

lemma expired_entry_ok: "entry_ok e \<Longrightarrow> in_use e \<Longrightarrow> entry_ok (expired_entry e)"
  by (simp add: entry_ok_def expired_entry_def)

lemma expired_entry_simps [simp]:
  "in_use (expired_entry e) = in_use e" "e_mac (expired_entry e) = e_mac e"
  "e_state (expired_entry e) = CLIENT_ACCESS_STATE_UNAUTHORIZED" "e_session_id (expired_entry e) = 0"
  "ttl_ticks (expired_entry e) = 0" "e_ip (expired_entry e) = e_ip e"
  by (simp_all add: expired_entry_def)

text \<open>A grant has expired at the tick \<open>now\<close>: it has a limit, and the ticks since it are no fewer.\<close>

definition grant_expired :: "u32 \<Rightarrow> int \<Rightarrow> int \<Rightarrow> bool" where
  "grant_expired now at ttl \<longleftrightarrow> 0 < ttl \<and> ttl \<le> uint (now - word_of_int at)"

lemma elapsed_alt: "(word_of_int (uint now - at) :: u32) = now - word_of_int at" for now :: u32
  by (simp flip: wi_hom_sub)

lemma expire_entry_alt:
  "expire_entry now e =
     (if in_use e \<and> e_state e = CLIENT_ACCESS_STATE_AUTHORIZED \<and>
         grant_expired now (authorized_at_ticks e) (ttl_ticks e)
      then expired_entry e else e)"
  by (simp add: expire_entry_def grant_expired_def elapsed_alt Let_def)

lemma expire_entry_simps [simp]: "in_use (expire_entry now e) = in_use e" "e_mac (expire_entry now e) = e_mac e"
    "e_ip (expire_entry now e) = e_ip e"
  by (simp_all add: expire_entry_alt)

lemma expire_check_spec:
  assumes ok: "clients_ok st"
  shows "clients_ok (client_access_expire_check now st)"
    "client_map (client_access_expire_check now st) mac = map_option (expire_entry now) (client_map st mac)"
    "length (s_clients (client_access_expire_check now st)) = length (s_clients st)"
proof -
  have t: "table_ok in_use e_mac (s_clients st)" using ok by (simp add: clients_ok_def)
  have "entry_ok e \<Longrightarrow> entry_ok (expire_entry now e)" for e
    by (auto simp: expire_entry_alt expired_entry_ok)
  then show "clients_ok (client_access_expire_check now st)"
    using ok clients.ok_map [OF t, of "expire_entry now"]
    by (simp add: clients_ok_def client_access_expire_check_def list_all_iff split: option.splits)
  show "client_map (client_access_expire_check now st) mac = map_option (expire_entry now) (client_map st mac)"
    using clients.map_map [OF t, of "expire_entry now"] by (simp add: client_map_def client_access_expire_check_def)
  show "length (s_clients (client_access_expire_check now st)) = length (s_clients st)"
    by (simp add: client_access_expire_check_def)
qed

lemma can_forward_spec:
  assumes ok: "clients_ok st"
  obtains (denied) "client_access_can_forward_ipv4 now ip st = (False, st)"
  | (granted) e where "client_access_can_forward_ipv4 now ip st = (True, st)" "ip \<noteq> 0"
      "client_map st (e_mac e) = Some e" "e_ip e = ip" "e_state e = CLIENT_ACCESS_STATE_AUTHORIZED"
      "\<not> grant_expired now (authorized_at_ticks e) (ttl_ticks e)"
  | (expired) e st' where "client_access_can_forward_ipv4 now ip st = (False, st')" "clients_ok st'"
      "client_map st (e_mac e) = Some e" "e_ip e = ip" "e_state e = CLIENT_ACCESS_STATE_AUTHORIZED"
      "grant_expired now (authorized_at_ticks e) (ttl_ticks e)"
      "client_map st' = (client_map st)(e_mac e \<mapsto> expired_entry e)"
      "length (s_clients st') = length (s_clients st)"
proof (cases "find_idx (has_ip ip) (s_clients st)")
  case None
  then show ?thesis using denied by (simp add: client_access_can_forward_ipv4_def)
next
  case (Some i)
  let ?e = "s_clients st ! i"
  have i: "i < length (s_clients st)" "in_use ?e" "e_ip ?e = ip"
    using find_idx_SomeD [OF Some] by (auto simp: has_ip_def)
  then have s: "find_client_index (s_clients st) (e_mac ?e) = Some i"
    using ok by (simp add: find_client_index_slot clients_ok_def slot_of_eq)
  have m: "client_map st (e_mac ?e) = Some ?e" using s by (simp add: client_map_alt)
  note ch = change_entry [OF ok s, of expired_entry, simplified, OF expired_entry_ok]
  have f: "client_access_can_forward_ipv4 now ip st =
    (if ip = 0 \<or> e_state ?e \<noteq> CLIENT_ACCESS_STATE_AUTHORIZED then (False, st)
     else if grant_expired now (authorized_at_ticks ?e) (ttl_ticks ?e)
     then (False, set_entry i (expired_entry ?e) st) else (True, st))"
    using Some by (simp add: client_access_can_forward_ipv4_def Let_def grant_expired_def)
  show ?thesis
  proof (cases "ip = 0 \<or> e_state ?e \<noteq> CLIENT_ACCESS_STATE_AUTHORIZED")
    case True
    then show ?thesis using denied f by simp
  next
    case False
    then show ?thesis
      using f i m ch granted [of ?e] expired [of "set_entry i (expired_entry ?e) st" ?e]
      by (cases "grant_expired now (authorized_at_ticks ?e) (ttl_ticks ?e)") simp_all
  qed
qed

lemma store_rssi_keeps:
  "length (store_rssi list cs) = length cs \<and>
   (\<forall>i < length cs. \<exists>r. store_rssi list cs ! i = (cs ! i)\<lparr>e_rssi := r\<rparr> \<and> (\<not> in_use (cs ! i) \<longrightarrow> r = e_rssi (cs ! i)))"
proof (induction list arbitrary: cs)
  case Nil
  have "cs ! i = (cs ! i)\<lparr>e_rssi := e_rssi (cs ! i)\<rparr>" for i by simp
  then show ?case by (metis store_rssi.simps(1))
next
  case (Cons x list)
  obtain mac r where x: "x = (mac, r)" by (cases x)
  define cs' where "cs' = (case find_client_index cs mac of None \<Rightarrow> cs | Some i \<Rightarrow> cs[i := (cs ! i)\<lparr>e_rssi := r\<rparr>])"
  have l: "length cs' = length cs" by (simp add: cs'_def split: option.split)
  have s: "store_rssi (x # list) cs = store_rssi list cs'" by (simp add: x cs'_def)
  have same: "\<exists>q. e = e\<lparr>e_rssi := q\<rparr> \<and> (\<not> in_use e \<longrightarrow> q = e_rssi e)" for e
    by (rule exI [of _ "e_rssi e"]) simp
  show ?case
  proof (intro conjI allI impI)
    show "length (store_rssi (x # list) cs) = length cs" using Cons.IH [of cs'] l by (simp add: s)
    fix i assume i: "i < length cs"
    then obtain q where q: "store_rssi list cs' ! i = (cs' ! i)\<lparr>e_rssi := q\<rparr>"
        "\<not> in_use (cs' ! i) \<longrightarrow> q = e_rssi (cs' ! i)"
      using Cons.IH [of cs'] l by auto
    have "\<exists>q'. cs' ! i = (cs ! i)\<lparr>e_rssi := q'\<rparr> \<and> (\<not> in_use (cs ! i) \<longrightarrow> q' = e_rssi (cs ! i))"
      using i find_client_indexD [of cs mac] same by (auto simp: cs'_def nth_upd split: option.split)
    then obtain q' where q': "cs' ! i = (cs ! i)\<lparr>e_rssi := q'\<rparr>" "\<not> in_use (cs ! i) \<longrightarrow> q' = e_rssi (cs ! i)"
      by blast
    have "store_rssi (x # list) cs ! i = (cs ! i)\<lparr>e_rssi := q\<rparr>" unfolding s q(1) q'(1) by simp
    moreover have "\<not> in_use (cs ! i) \<longrightarrow> q = e_rssi (cs ! i)" using q(2) q' by auto
    ultimately show "\<exists>r. store_rssi (x # list) cs ! i = (cs ! i)\<lparr>e_rssi := r\<rparr> \<and> (\<not> in_use (cs ! i) \<longrightarrow> r = e_rssi (cs ! i))"
      by blast
  qed
qed


lemma find_idx_nth_cong:
  "length xs = length ys \<Longrightarrow> (\<And>i. i < length xs \<Longrightarrow> P (xs ! i) = Q (ys ! i)) \<Longrightarrow> find_idx P xs = find_idx Q ys"
proof (induction xs ys rule: list_induct2)
  case (Cons x xs y ys)
  have "P x = Q y" using Cons.prems [of 0] by simp
  moreover have "find_idx P xs = find_idx Q ys"
    using Cons.IH Cons.prems [of "Suc _"] by (metis Suc_less_eq length_Cons nth_Cons_Suc)
  ultimately show ?case by simp
qed simp

definition no_rssi :: "client_access_entry \<Rightarrow> client_access_entry" where
  "no_rssi e = e\<lparr>e_rssi := 0\<rparr>"

definition same_but_rssi :: "client_access_entry \<Rightarrow> client_access_entry \<Rightarrow> bool" where
  "same_but_rssi e e' \<longleftrightarrow> no_rssi e' = no_rssi e \<and> (\<not> in_use e \<longrightarrow> e' = e)"

lemma same_but_rssiD:
  assumes "same_but_rssi e e'"
  shows "in_use e' = in_use e" "e_mac e' = e_mac e" "entry_ok e' = entry_ok e" "no_rssi e' = no_rssi e"
proof -
  have "e' = e\<lparr>e_rssi := e_rssi e'\<rparr>"
    using assms by (cases e; cases e') (simp add: same_but_rssi_def no_rssi_def)
  then obtain r where r: "e' = e\<lparr>e_rssi := r\<rparr>" by blast
  show "in_use e' = in_use e" "e_mac e' = e_mac e" by (simp_all add: r)
  show "entry_ok e' = entry_ok e"
    using assms by (cases "in_use e") (auto simp: r entry_ok_def same_but_rssi_def)
  show "no_rssi e' = no_rssi e" using assms by (simp add: same_but_rssi_def)
qed

lemma update_rssi_spec:
  assumes ok: "clients_ok st" and u: "client_access_update_rssi_all stations st = (err, st')"
  shows "clients_ok st'" "map_option no_rssi (client_map st' mac) = map_option no_rssi (client_map st mac)"
    "length (s_clients st') = length (s_clients st)"
proof -
  have "clients_ok st' \<and> map_option no_rssi (client_map st' mac) = map_option no_rssi (client_map st mac) \<and>
    length (s_clients st') = length (s_clients st)"
  proof (cases stations)
    case (Inl e)
    then show ?thesis using u ok by (simp add: client_access_update_rssi_all_def)
  next
    case (Inr list)
    let ?cs = "s_clients st"
    let ?z = "map (\<lambda>e. if in_use e then e\<lparr>e_rssi := 0\<rparr> else e) ?cs"
    have st': "st' = st\<lparr>s_clients := store_rssi list ?z\<rparr>"
      using u Inr by (simp add: client_access_update_rssi_all_def)
    have l: "length (s_clients st') = length ?cs" using store_rssi_keeps [of list ?z] by (simp add: st')
    have n: "same_but_rssi (?cs ! i) (s_clients st' ! i)" if il: "i < length ?cs" for i
    proof -
      obtain r where "store_rssi list ?z ! i = (?z ! i)\<lparr>e_rssi := r\<rparr>" "\<not> in_use (?z ! i) \<longrightarrow> r = e_rssi (?z ! i)"
        using store_rssi_keeps [of list ?z, THEN conjunct2, rule_format, of i] il unfolding length_map by blast
      with il show ?thesis
        by (cases "in_use (?cs ! i)") (simp_all add: st' same_but_rssi_def no_rssi_def)
    qed
    have f: "in_use (s_clients st' ! i) = in_use (?cs ! i)" "e_mac (s_clients st' ! i) = e_mac (?cs ! i)"
      "entry_ok (s_clients st' ! i) = entry_ok (?cs ! i)"
      "no_rssi (s_clients st' ! i) = no_rssi (?cs ! i)" if "i < length ?cs" for i
      using same_but_rssiD [OF n [OF that]] by blast+
    have sq: "s_disconnect_queue st' = s_disconnect_queue st" by (simp add: st')
    have "clients_ok st'"
      using ok f l sq by (auto simp: clients_ok_def list_all_length table_ok_def split: option.splits)
    moreover have "slot_of in_use e_mac (s_clients st') mac = slot_of in_use e_mac ?cs mac"
      unfolding slot_of_def using l f by (intro find_idx_nth_cong) auto
    then have "map_option no_rssi (client_map st' mac) = map_option no_rssi (client_map st mac)"
      using f by (cases "slot_of in_use e_mac ?cs mac") (auto simp: client_map_def table_map_def dest: slot_of_SomeD)
    ultimately show ?thesis using l by simp
  qed
  then show "clients_ok st'" "map_option no_rssi (client_map st' mac) = map_option no_rssi (client_map st mac)"
    "length (s_clients st') = length (s_clients st)" by blast+
qed


section \<open>Runs\<close>

text \<open>Everything that other parts of the firmware do to the table, one critical section at a time.\<close>

datatype access_op =
    Wifi_Event softap_event
  | Ip_Event softap_event
  | Set_State bytes client_access_state
  | Authorize string int u32 u32
  | Revoke string int
  | Expire_Check u32
  | Can_Forward u32 u32
  | Recover_Ip bytes u32
  | Update_Rssi "esp_err + (bytes \<times> int) list"
  | Wait_Disconnect

fun access_step :: "(u32 \<Rightarrow> u32) \<Rightarrow> access_op \<Rightarrow> client_access \<Rightarrow> client_access" where
  "access_step ticks (Wifi_Event ev) st = client_access_event_handler (Some ev) st"
| "access_step ticks (Ip_Event ev) st = client_access_ip_event_handler (Some ev) st"
| "access_step ticks (Set_State mac new) st = snd (client_access_set_state (Some mac) new st)"
| "access_step ticks (Authorize t sid ttl now) st = snd (client_access_authorize ticks now (Some t) sid ttl st)"
| "access_step ticks (Revoke t sid) st = snd (client_access_revoke_authorization (Some t) sid st)"
| "access_step ticks (Expire_Check now) st = client_access_expire_check now st"
| "access_step ticks (Can_Forward ip now) st = snd (client_access_can_forward_ipv4 now ip st)"
| "access_step ticks (Recover_Ip mac ip) st = snd (track_client_ip (Some mac) (Some ip) st)"
| "access_step ticks (Update_Rssi stations) st = snd (client_access_update_rssi_all stations st)"
| "access_step ticks Wait_Disconnect st = snd (client_access_wait_disconnect_event st)"

definition run_access :: "(u32 \<Rightarrow> u32) \<Rightarrow> access_op list \<Rightarrow> client_access \<Rightarrow> client_access" where
  "run_access ticks ops st = fold (access_step ticks) ops st"

text \<open>
  The same operations on the map. \<open>n\<close> is the size of the table. A step changes the entry of at most
  one client, except for the two that walk over the whole table.
\<close>

definition update_client ::
  "bytes \<Rightarrow> (client_access_entry \<Rightarrow> client_access_entry) \<Rightarrow> (bytes \<Rightarrow> client_access_entry option) \<Rightarrow>
     bytes \<Rightarrow> client_access_entry option" where
  "update_client mac f m = (case m mac of None \<Rightarrow> m | Some e \<Rightarrow> m(mac \<mapsto> f e))"

definition grant :: "int \<Rightarrow> u32 \<Rightarrow> u32 \<Rightarrow> client_access_entry \<Rightarrow> client_access_entry" where
  "grant sid now ttl e =
     e\<lparr>e_state := CLIENT_ACCESS_STATE_AUTHORIZED, e_session_id := sid,
       authorized_at_ticks := uint now, ttl_ticks := uint ttl\<rparr>"

definition revoked :: "int \<Rightarrow> client_access_entry \<Rightarrow> client_access_entry" where
  "revoked sid e =
     (if e_state e = CLIENT_ACCESS_STATE_AUTHORIZED \<and> e_session_id e = sid then expired_entry e else e)"

inductive map_step ::
  "(u32 \<Rightarrow> u32) \<Rightarrow> nat \<Rightarrow> access_op \<Rightarrow> (bytes \<Rightarrow> client_access_entry option) \<Rightarrow>
     (bytes \<Rightarrow> client_access_entry option) \<Rightarrow> bool" for ticks n where
  connect: "m mac \<noteq> None \<or> card (dom m) < n \<Longrightarrow>
    map_step ticks n (Wifi_Event (WIFI_EVENT_AP_STACONNECTED mac)) m (m(mac \<mapsto> fresh_client mac))"
| connect_full: "m mac = None \<Longrightarrow> card (dom m) = n \<Longrightarrow>
    map_step ticks n (Wifi_Event (WIFI_EVENT_AP_STACONNECTED mac)) m m"
| disconnect: "map_step ticks n (Wifi_Event (WIFI_EVENT_AP_STADISCONNECTED mac)) m (m(mac := None))"
| other_wifi: "ev = OTHER_SOFTAP_EVENT \<or> ev = IP_EVENT_ASSIGNED_IP_TO_CLIENT mac ip \<Longrightarrow>
    map_step ticks n (Wifi_Event ev) m m"
| assign: "map_step ticks n (Ip_Event (IP_EVENT_ASSIGNED_IP_TO_CLIENT mac ip)) m
    (update_client mac (e_ip_update (\<lambda>_. ip)) m)"
| other_ip: "(\<And>mac ip. ev \<noteq> IP_EVENT_ASSIGNED_IP_TO_CLIENT mac ip) \<Longrightarrow> map_step ticks n (Ip_Event ev) m m"
| recover: "map_step ticks n (Recover_Ip mac ip) m (update_client mac (e_ip_update (\<lambda>_. ip)) m)"
| set_state: "new \<noteq> CLIENT_ACCESS_STATE_UNKNOWN \<Longrightarrow>
    map_step ticks n (Set_State mac new) m (update_client mac (e_state_update (\<lambda>_. new)) m)"
| set_unknown: "map_step ticks n (Set_State mac CLIENT_ACCESS_STATE_UNKNOWN) m m"
| authorize: "0 < sid \<Longrightarrow> parse_mac_address (Some t) = Inr mac \<Longrightarrow>
    map_step ticks n (Authorize t sid ttl now) m (update_client mac (grant sid now (ticks (ttl * 1000))) m)"
| authorize_refused: "sid \<le> 0 \<or> parse_mac_address (Some t) = Inl err \<Longrightarrow>
    map_step ticks n (Authorize t sid ttl now) m m"
| revoke: "0 < sid \<Longrightarrow> parse_mac_address (Some t) = Inr mac \<Longrightarrow>
    map_step ticks n (Revoke t sid) m (update_client mac (revoked sid) m)"
| revoke_refused: "sid \<le> 0 \<or> parse_mac_address (Some t) = Inl err \<Longrightarrow> map_step ticks n (Revoke t sid) m m"
| expire_check: "map_step ticks n (Expire_Check now) m (\<lambda>mac. map_option (expire_entry now) (m mac))"
| forward_expired: "m (e_mac e) = Some e \<Longrightarrow> e_ip e = ip \<Longrightarrow> e_state e = CLIENT_ACCESS_STATE_AUTHORIZED \<Longrightarrow>
    grant_expired now (authorized_at_ticks e) (ttl_ticks e) \<Longrightarrow>
    map_step ticks n (Can_Forward ip now) m (m(e_mac e \<mapsto> expired_entry e))"
| forward: "map_step ticks n (Can_Forward ip now) m m"
| rssi: "(\<And>mac. map_option no_rssi (m' mac) = map_option no_rssi (m mac)) \<Longrightarrow>
    map_step ticks n (Update_Rssi stations) m m'"
| wait: "map_step ticks n Wait_Disconnect m m"

lemma dom_client_map_le:
  assumes "clients_ok st"
  shows "finite (dom (client_map st))" "card (dom (client_map st)) \<le> length (s_clients st)"
proof -
  have "dom (client_map st) \<subseteq> e_mac ` set (s_clients st)"
    using client_map_in client_map_mac by (force simp: dom_def)
  then show "finite (dom (client_map st))" by (rule finite_subset) simp
  have "card (dom (client_map st)) \<le> card (e_mac ` set (s_clients st))"
    using \<open>dom (client_map st) \<subseteq> e_mac ` set (s_clients st)\<close> by (intro card_mono) auto
  also have "\<dots> \<le> card (set (s_clients st))" by (intro card_image_le) simp
  also have "\<dots> \<le> length (s_clients st)" by (rule card_length)
  finally show "card (dom (client_map st)) \<le> length (s_clients st)" .
qed

lemma update_client_spec:
  assumes ok: "clients_ok st"
    and f: "\<And>e. in_use (f e) = in_use e" "\<And>e. e_mac (f e) = e_mac e"
      "\<And>e. entry_ok e \<Longrightarrow> in_use e \<Longrightarrow> entry_ok (f e)"
    and i: "find_client_index (s_clients st) mac = Some i"
  shows "clients_ok (set_entry i (f (s_clients st ! i)) st)"
    "client_map (set_entry i (f (s_clients st ! i)) st) = update_client mac f (client_map st)"
  using change_entry [OF ok i f] by (simp_all add: update_client_def)

lemma update_client_None: "find_client_index (s_clients st) mac = None \<Longrightarrow> update_client mac f (client_map st) = client_map st"
  by (simp add: update_client_def client_map_alt)

lemma grant_entry:
  "in_use (grant sid now ttl e) = in_use e" "e_mac (grant sid now ttl e) = e_mac e"
  "in_use e \<Longrightarrow> entry_ok (grant sid now ttl e)"
  using uint_bounded [of now] uint_bounded [of ttl] by (simp_all add: grant_def entry_ok_def)

lemma revoked_entry:
  "in_use (revoked sid e) = in_use e" "e_mac (revoked sid e) = e_mac e"
  "entry_ok e \<Longrightarrow> in_use e \<Longrightarrow> entry_ok (revoked sid e)"
  by (simp_all add: revoked_def expired_entry_ok)

lemma authorize_step:
  assumes ok: "clients_ok st"
  shows "clients_ok (access_step ticks (Authorize t sid ttl now) st) \<and>
     length (s_clients (access_step ticks (Authorize t sid ttl now) st)) = length (s_clients st) \<and>
     map_step ticks n (Authorize t sid ttl now) (client_map st) (client_map (access_step ticks (Authorize t sid ttl now) st))"
proof (cases "0 < sid \<and> (\<exists>mac. parse_mac_address (Some t) = Inr mac)")
  case False
  then have "access_step ticks (Authorize t sid ttl now) st = st"
    by (auto simp: client_access_authorize_def split: sum.split)
  moreover from False have "\<exists>err. sid \<le> 0 \<or> parse_mac_address (Some t) = Inl err"
    by (cases "parse_mac_address (Some t)") auto
  ultimately show ?thesis using ok by (auto intro: authorize_refused)
next
  case True
  then obtain mac where t: "0 < sid" "parse_mac_address (Some t) = Inr mac" by blast
  show ?thesis
  proof (cases "find_client_index (s_clients st) mac")
    case None
    then show ?thesis
      using t ok map_step.authorize [OF t, of ticks n ttl now "client_map st"]
      by (simp add: client_access_authorize_def update_client_None)
  next
    case (Some i)
    note u = update_client_spec [where f = "grant sid now (ticks (ttl * 1000))", OF ok grant_entry(1,2) _ Some]
    from grant_entry(3) u have u: "clients_ok (set_entry i (grant sid now (ticks (ttl * 1000)) (s_clients st ! i)) st)"
      "client_map (set_entry i (grant sid now (ticks (ttl * 1000)) (s_clients st ! i)) st) =
       update_client mac (grant sid now (ticks (ttl * 1000))) (client_map st)" by blast+
    show ?thesis
      using t Some u map_step.authorize [OF t, of ticks n ttl now "client_map st"]
      by (simp add: client_access_authorize_def grant_def)
  qed
qed

lemma revoke_step:
  assumes ok: "clients_ok st"
  shows "clients_ok (access_step ticks (Revoke t sid) st) \<and>
     length (s_clients (access_step ticks (Revoke t sid) st)) = length (s_clients st) \<and>
     map_step ticks n (Revoke t sid) (client_map st) (client_map (access_step ticks (Revoke t sid) st))"
proof (cases "0 < sid \<and> (\<exists>mac. parse_mac_address (Some t) = Inr mac)")
  case False
  then have "access_step ticks (Revoke t sid) st = st"
    by (auto simp: client_access_revoke_authorization_def split: sum.split)
  moreover from False have "\<exists>err. sid \<le> 0 \<or> parse_mac_address (Some t) = Inl err"
    by (cases "parse_mac_address (Some t)") auto
  ultimately show ?thesis using ok by (auto intro: revoke_refused)
next
  case True
  then obtain mac where t: "0 < sid" "parse_mac_address (Some t) = Inr mac" by blast
  show ?thesis
  proof (cases "find_client_index (s_clients st) mac")
    case None
    then show ?thesis
      using t ok map_step.revoke [OF t, of ticks n "client_map st"]
      by (simp add: client_access_revoke_authorization_def update_client_None)
  next
    case (Some i)
    note u = update_client_spec [where f = "revoked sid", OF ok revoked_entry Some]
    have "access_step ticks (Revoke t sid) st =
        (if revoked sid (s_clients st ! i) = s_clients st ! i then st else set_entry i (revoked sid (s_clients st ! i)) st)"
      using t Some by (simp add: client_access_revoke_authorization_def revoked_def Let_def list_update_id)
    then have "access_step ticks (Revoke t sid) st = set_entry i (revoked sid (s_clients st ! i)) st"
      by simp
    then show ?thesis
      using u map_step.revoke [OF t, of ticks n "client_map st"] by simp
  qed
qed

end
