(* ===== verification/Client_Runs.thy ===== *)
theory Client_Runs
  imports Client_Table
begin

text \<open>
  Runs of the client table: the step relation on the map refines every operation, and the
  properties of authorization over whole runs.
\<close>

section \<open>Every operation is a step of the map\<close>

definition refines_step :: "(u32 \<Rightarrow> u32) \<Rightarrow> access_op \<Rightarrow> client_access \<Rightarrow> bool" where
  "refines_step ticks op st \<longleftrightarrow>
     clients_ok (access_step ticks op st) \<and>
     length (s_clients (access_step ticks op st)) = length (s_clients st) \<and>
     map_step ticks (length (s_clients st)) op (client_map st) (client_map (access_step ticks op st))"

lemma ip_update_step:
  assumes ok: "clients_ok st"
  shows "clients_ok (snd (track_client_ip (Some mac) (Some ip) st))"
    "length (s_clients (snd (track_client_ip (Some mac) (Some ip) st))) = length (s_clients st)"
    "client_map (snd (track_client_ip (Some mac) (Some ip) st)) =
       update_client mac (e_ip_update (\<lambda>_. ip)) (client_map st)"
  using ok by (cases rule: track_client_ip_cases [of st mac ip]; simp add: update_client_def)+

lemma wifi_step:
  assumes ok: "clients_ok st"
  shows "refines_step ticks (Wifi_Event ev) st"
proof (cases ev)
  case (WIFI_EVENT_AP_STACONNECTED mac)
  show ?thesis
  proof (cases rule: track_connected_client_cases [OF ok, of mac])
    case (1 st')
    show ?thesis
    proof (cases "client_map st mac = None \<and> \<not> card (dom (client_map st)) < length (s_clients st)")
      case True
      then have "find_client_index (s_clients st) mac = None" by (simp add: client_map_alt)
      have t: "table_ok in_use e_mac (s_clients st)" using ok by (simp add: clients_ok_def)
      have "finite (dom (client_map st'))" "card (dom (client_map st')) \<le> length (s_clients st')"
        using dom_client_map_le [OF 1(2)] by auto
      moreover have "card (dom (client_map st')) = Suc (card (dom (client_map st)))"
        using True dom_client_map_le(1) [OF ok] by (simp add: 1(3) card_insert_if domIff)
      ultimately have False using True 1(4) by simp
      then show ?thesis ..
    next
      case False
      then show ?thesis
        using 1 WIFI_EVENT_AP_STACONNECTED
          map_step.connect [of "client_map st" mac "length (s_clients st)" ticks]
        by (simp add: refines_step_def client_access_event_handler_def)
    qed
  next
    case 2
    then show ?thesis
      using ok WIFI_EVENT_AP_STACONNECTED
        map_step.connect_full [of "client_map st" mac "length (s_clients st)" ticks]
      by (simp add: refines_step_def client_access_event_handler_def)
  qed
next
  case (WIFI_EVENT_AP_STADISCONNECTED mac)
  then show ?thesis
    using remove_disconnect_client_spec [OF ok, of mac] map_step.disconnect [of ticks _ mac "client_map st"]
    by (simp add: refines_step_def client_access_event_handler_def)
qed (use ok in \<open>auto simp: refines_step_def client_access_event_handler_def intro: map_step.other_wifi\<close>)

lemma ip_step:
  assumes ok: "clients_ok st"
  shows "refines_step ticks (Ip_Event ev) st"
proof (cases ev)
  case (IP_EVENT_ASSIGNED_IP_TO_CLIENT mac ip)
  then show ?thesis
    using ip_update_step [OF ok, of mac ip] map_step.assign [of ticks _ mac ip "client_map st"]
    by (simp add: refines_step_def client_access_ip_event_handler_def)
qed (use ok in \<open>auto simp: refines_step_def client_access_ip_event_handler_def intro: map_step.other_ip\<close>)

lemma set_state_step:
  assumes ok: "clients_ok st"
  shows "refines_step ticks (Set_State mac new) st"
proof (cases "new = CLIENT_ACCESS_STATE_UNKNOWN")
  case True
  then show ?thesis
    using ok by (auto simp: refines_step_def client_access_set_state_def intro: map_step.set_unknown)
next
  case False
  then have n: "new = CLIENT_ACCESS_STATE_UNAUTHORIZED \<or> new = CLIENT_ACCESS_STATE_AUTHORIZED \<or>
      new = CLIENT_ACCESS_STATE_BLOCKED" by (cases new) auto
  show ?thesis
  proof (cases "find_client_index (s_clients st) mac")
    case None
    then show ?thesis
      using ok n map_step.set_state [OF False, of ticks _ mac "client_map st"]
      by (auto simp: refines_step_def client_access_set_state_def update_client_None)
  next
    case (Some i)
    have "clients_ok (set_entry i ((s_clients st ! i)\<lparr>e_state := new\<rparr>) st)"
      "client_map (set_entry i ((s_clients st ! i)\<lparr>e_state := new\<rparr>) st) =
       update_client mac (e_state_update (\<lambda>_. new)) (client_map st)"
      using update_client_spec [where f = "e_state_update (\<lambda>_. new)", OF ok _ _ _ Some]
      by (auto simp: entry_ok_def)
    then show ?thesis
      using Some n map_step.set_state [OF False, of ticks _ mac "client_map st"]
      by (auto simp: refines_step_def client_access_set_state_def)
  qed
qed

lemma forward_step:
  assumes ok: "clients_ok st"
  shows "refines_step ticks (Can_Forward ip now) st"
proof (cases rule: can_forward_spec [OF ok, of now ip])
  case (3 e st')
  then show ?thesis
    using map_step.forward_expired [where m = "client_map st", OF 3(3,4,5,6), of ticks "length (s_clients st)"]
    by (simp add: refines_step_def)
qed (use ok in \<open>auto simp: refines_step_def intro: map_step.forward\<close>)

lemma rssi_step:
  assumes ok: "clients_ok st"
  shows "refines_step ticks (Update_Rssi stations) st"
proof -
  obtain err st' where u: "client_access_update_rssi_all stations st = (err, st')" by fastforce
  then show ?thesis
    using update_rssi_spec [OF ok u] by (auto simp: refines_step_def intro: map_step.rssi)
qed

lemma wait_step:
  assumes ok: "clients_ok st"
  shows "refines_step ticks Wait_Disconnect st"
proof -
  have "clients_ok (access_step ticks Wait_Disconnect st)"
    using ok by (auto simp: client_access_wait_disconnect_event_def clients_ok_def split: option.splits list.splits)
  moreover have "s_clients (access_step ticks Wait_Disconnect st) = s_clients st"
    by (auto simp: client_access_wait_disconnect_event_def split: option.splits list.splits)
  ultimately show ?thesis
    by (auto simp: refines_step_def client_map_def intro: map_step.wait)
qed

lemma access_step_refines:
  assumes ok: "clients_ok st"
  shows "refines_step ticks op st"
proof (cases op)
  case (Recover_Ip mac ip)
  then show ?thesis
    using ip_update_step [OF ok, of mac ip] map_step.recover [of ticks _ mac ip "client_map st"]
    by (simp add: refines_step_def)
next
  case (Expire_Check now)
  have "client_map (client_access_expire_check now st) = (\<lambda>mac. map_option (expire_entry now) (client_map st mac))"
    using expire_check_spec(2) [OF ok] by auto
  then show ?thesis
    using Expire_Check expire_check_spec(1,3) [OF ok] map_step.expire_check [of ticks _ now "client_map st"]
    by (simp add: refines_step_def)
next
  case (Authorize t sid ttl now)
  then show ?thesis using authorize_step [OF ok] by (simp add: refines_step_def)
next
  case (Revoke t sid)
  then show ?thesis using revoke_step [OF ok] by (simp add: refines_step_def)
qed (use assms in \<open>simp_all add: wifi_step ip_step set_state_step forward_step rssi_step wait_step\<close>)

lemma run_access_snoc: "run_access ticks (ops @ [op]) st = access_step ticks op (run_access ticks ops st)"
  by (simp add: run_access_def)

lemma run_access_ok:
  "clients_ok st \<Longrightarrow> clients_ok (run_access ticks ops st) \<and> length (s_clients (run_access ticks ops st)) = length (s_clients st)"
proof (induction ops rule: rev_induct)
  case (snoc op ops)
  then show ?case using access_step_refines [of "run_access ticks ops st" ticks op]
    by (simp add: run_access_snoc refines_step_def)
qed (simp add: run_access_def)

text \<open>
  C9: every operation on the client table is one step of the abstract registry, a finite map from
  MAC addresses to clients with room for \<open>ESP_WIFI_MAX_CONN_NUM\<close> of them: one client is added, removed or
  changed, or (expiry, signal strength) each keeps its identity; the invariant of the table is kept.
\<close>

theorem client_access_refines_registry:
  assumes "clients_ok st"
  shows "clients_ok (access_step ticks op st) \<and>
    map_step ticks (length (s_clients st)) op (client_map st) (client_map (access_step ticks op st))"
  using access_step_refines [OF assms] by (simp add: refines_step_def)

section \<open>Where an authorization comes from\<close>

text \<open>The operations that end the authorization \<open>sid\<close> of a client, granted at \<open>at\<close> for \<open>ttl\<close> ticks.\<close>

fun ends_grant :: "bytes \<Rightarrow> int \<Rightarrow> int \<Rightarrow> int \<Rightarrow> access_op \<Rightarrow> bool" where
  "ends_grant mac sid at ttl (Wifi_Event ev) =
     (ev = WIFI_EVENT_AP_STACONNECTED mac \<or> ev = WIFI_EVENT_AP_STADISCONNECTED mac)"
| "ends_grant mac sid at ttl (Revoke t s) = (s = sid \<and> parse_mac_address (Some t) = Inr mac)"
| "ends_grant mac sid at ttl (Expire_Check now) = grant_expired now at ttl"
| "ends_grant mac sid at ttl (Set_State m new) =
     (m = mac \<and> (new = CLIENT_ACCESS_STATE_UNAUTHORIZED \<or> new = CLIENT_ACCESS_STATE_BLOCKED))"
| "ends_grant mac sid at ttl op = False"

definition granted_by :: "(u32 \<Rightarrow> u32) \<Rightarrow> access_op list \<Rightarrow> bytes \<Rightarrow> client_access_entry \<Rightarrow> bool" where
  "granted_by ticks ops mac e \<longleftrightarrow>
     (\<exists>pre t ttl now post. ops = pre @ Authorize t (e_session_id e) ttl now # post \<and>
        0 < e_session_id e \<and> parse_mac_address (Some t) = Inr mac \<and>
        authorized_at_ticks e = uint now \<and> ttl_ticks e = uint (ticks (ttl * 1000)) \<and>
        (\<forall>op \<in> set post. \<not> ends_grant mac (e_session_id e) (authorized_at_ticks e) (ttl_ticks e) op))"

lemma granted_by_snoc:
  assumes "granted_by ticks ops mac e" "e_session_id e' = e_session_id e"
    "authorized_at_ticks e' = authorized_at_ticks e" "ttl_ticks e' = ttl_ticks e"
    "\<not> ends_grant mac (e_session_id e) (authorized_at_ticks e) (ttl_ticks e) op"
  shows "granted_by ticks (ops @ [op]) mac e'"
proof -
  from assms(1) obtain pre t ttl now post where
    "ops = pre @ Authorize t (e_session_id e) ttl now # post" "0 < e_session_id e"
    "parse_mac_address (Some t) = Inr mac" "authorized_at_ticks e = uint now" "ttl_ticks e = uint (ticks (ttl * 1000))"
    "\<forall>op \<in> set post. \<not> ends_grant mac (e_session_id e) (authorized_at_ticks e) (ttl_ticks e) op"
    unfolding granted_by_def by blast
  then show ?thesis
    unfolding granted_by_def using assms(2-)
    by (intro exI [of _ pre] exI [of _ t] exI [of _ ttl] exI [of _ now] exI [of _ "post @ [op]"]) auto
qed

lemma granted_by_now:
  assumes "0 < sid" "parse_mac_address (Some t) = Inr mac"
  shows "granted_by ticks (ops @ [Authorize t sid ttl now]) mac (grant sid now (ticks (ttl * 1000)) e)"
  unfolding granted_by_def using assms
  by (intro exI [of _ ops] exI [of _ t] exI [of _ ttl] exI [of _ now] exI [of _ "[]"]) (simp add: grant_def)

definition authorized :: "client_access_entry \<Rightarrow> bool" where
  "authorized e \<longleftrightarrow> e_state e = CLIENT_ACCESS_STATE_AUTHORIZED"

lemma no_rssi_fields:
  assumes "no_rssi e' = no_rssi e"
  shows "e_session_id e' = e_session_id e" "authorized_at_ticks e' = authorized_at_ticks e"
    "ttl_ticks e' = ttl_ticks e" "authorized e' = authorized e"
  using assms by (cases e; cases e'; simp add: no_rssi_def authorized_def)+

text \<open>
  A predicate \<open>G\<close> on the operations so far and an entry follows the grants of one client if a grant establishes it and every
  operation that does not end the grant keeps it. Then it holds of the client whenever it is authorized.
\<close>

locale provenance =
  fixes ticks :: "u32 \<Rightarrow> u32" and mac :: bytes and G :: "access_op list \<Rightarrow> client_access_entry \<Rightarrow> bool"
  assumes kept: "G ops e \<Longrightarrow> e_session_id e' = e_session_id e \<Longrightarrow> authorized_at_ticks e' = authorized_at_ticks e \<Longrightarrow>
      ttl_ticks e' = ttl_ticks e \<Longrightarrow> \<not> ends_grant mac (e_session_id e) (authorized_at_ticks e) (ttl_ticks e) op \<Longrightarrow> G (ops @ [op]) e'"
    and granted: "0 < sid \<Longrightarrow> parse_mac_address (Some t) = Inr mac \<Longrightarrow>
      G (ops @ [Authorize t sid ttl now]) (grant sid now (ticks (ttl * 1000)) e)"
    and session: "G ops e \<Longrightarrow> 0 < e_session_id e"
begin

lemma map_step:
  assumes step: "map_step ticks n op m m'"
    and prov: "\<And>e. m mac = Some e \<Longrightarrow> authorized e \<Longrightarrow> G ops e"
    and used: "\<And>e. m mac = Some e \<Longrightarrow> in_use e"
    and op: "\<And>x. op \<noteq> Set_State x CLIENT_ACCESS_STATE_AUTHORIZED"
    and e: "m' mac = Some e" "authorized e"
  shows "G (ops @ [op]) e"
  using step
proof cases
  case (connect mac')
  then have "mac' \<noteq> mac" using e by (auto simp: fresh_client_def connected_entry_def authorized_def)
  then show ?thesis using connect e by (intro kept [OF prov]) auto
next
  case (connect_full mac')
  then have "mac' \<noteq> mac" using e by auto
  then show ?thesis using connect_full e by (intro kept [OF prov]) auto
next
  case (disconnect mac')
  then have "mac' \<noteq> mac" using e by auto
  then show ?thesis using disconnect e by (intro kept [OF prov]) auto
next
  case (other_wifi ev mac' ip)
  then show ?thesis using e by (intro kept [OF prov]) auto
next
  case (assign mac' ip)
  then obtain e0 where "m mac = Some e0" "e = e0 \<or> e = e0\<lparr>e_ip := ip\<rparr>"
    using e by (auto simp: update_client_def split: option.splits if_splits)
  then show ?thesis using assign e by (intro kept [OF prov [of e0]]) (auto simp: authorized_def)
next
  case (recover mac' ip)
  then obtain e0 where "m mac = Some e0" "e = e0 \<or> e = e0\<lparr>e_ip := ip\<rparr>"
    using e by (auto simp: update_client_def split: option.splits if_splits)
  then show ?thesis using recover e by (intro kept [OF prov [of e0]]) (auto simp: authorized_def)
next
  case (set_state new mac')
  have "mac' \<noteq> mac \<or> m mac = None"
    using set_state e op by (auto simp: update_client_def authorized_def split: option.splits)
  then have "m mac = Some e" "mac' \<noteq> mac"
    using set_state e by (auto simp: update_client_def split: option.splits if_splits)
  then show ?thesis using set_state e by (intro kept [OF prov]) auto
next
  case (authorize sid t mac' ttl now)
  show ?thesis
  proof (cases "mac' = mac \<and> m mac \<noteq> None")
    case True
    then obtain e0 where "e = grant sid now (ticks (ttl * 1000)) e0"
      using authorize e by (auto simp: update_client_def)
    then show ?thesis using True authorize granted by auto
  next
    case False
    then have "m mac = Some e" using authorize e by (auto simp: update_client_def split: option.splits if_splits)
    then show ?thesis using authorize e by (intro kept [OF prov]) auto
  qed
next
  case (revoke sid t mac')
  then have "m mac = Some e \<and> (mac' = mac \<longrightarrow> e_session_id e \<noteq> sid)"
    using e by (auto simp: update_client_def revoked_def authorized_def split: option.splits if_splits)
  then show ?thesis using revoke e by (intro kept [OF prov]) auto
next
  case (revoke_refused sid t err)
  then have g: "G ops e" using e prov by simp
  then have "0 < e_session_id e" by (rule session)
  then show ?thesis using revoke_refused by (intro kept [OF g]) auto
next
  case (expire_check now)
  then obtain e0 where e0: "m mac = Some e0" "e = expire_entry now e0" using e by auto
  have "\<not> grant_expired now (authorized_at_ticks e0) (ttl_ticks e0) \<and> e = e0"
    using e(2) e0 used [OF e0(1)] by (auto simp: expire_entry_alt authorized_def split: if_splits)
  then show ?thesis using expire_check e e0 by (intro kept [OF prov]) auto
next
  case (forward_expired e0 ip now)
  then have "m mac = Some e" using e by (auto simp: authorized_def split: if_splits)
  then show ?thesis using forward_expired e by (intro kept [OF prov]) auto
next
  case (rssi stations)
  then obtain e0 where "m mac = Some e0" "no_rssi e = no_rssi e0"
    using e by (metis map_option_eq_Some option.simps(9))
  then show ?thesis using rssi e no_rssi_fields [of e e0] by (intro kept [OF prov [of e0]]) auto
qed (use e in \<open>auto intro: kept [OF prov]\<close>)

lemma run:
  assumes "clients_ok st" "\<And>e. client_map st mac = Some e \<Longrightarrow> authorized e \<Longrightarrow> G [] e"
    and "client_map (run_access ticks ops st) mac = Some e" "authorized e"
    and "\<forall>x. Set_State x CLIENT_ACCESS_STATE_AUTHORIZED \<notin> set ops"
  shows "G ops e"
  using assms(3-5)
proof (induction ops arbitrary: e rule: rev_induct)
  case Nil
  then show ?case using assms(2) by (simp add: run_access_def)
next
  case (snoc op ops)
  let ?st = "run_access ticks ops st"
  have ok: "clients_ok ?st" using run_access_ok [OF assms(1)] by blast
  show ?case
  proof (rule map_step)
    show "map_step ticks (length (s_clients ?st)) op (client_map ?st) (client_map (access_step ticks op ?st))"
      using access_step_refines [OF ok] by (simp add: refines_step_def)
  qed (use snoc client_map_mac in \<open>auto simp: run_access_snoc\<close>)
qed

end

text \<open>The history of the operations since the boot follows the grants.\<close>

interpretation since_boot: provenance ticks mac "\<lambda>ops. granted_by ticks ops mac" for ticks mac
proof
  show "0 < e_session_id e" if "granted_by ticks ops mac e" for ops e using that by (auto simp: granted_by_def)
qed (fact granted_by_snoc granted_by_now)+

text \<open>
  C3: in every run from the boot of the device, a client is authorized only because of a valid
  command: for each entry in the state AUTHORIZED there is an authorize command in the history with this MAC,
  this session number and these ticks, after which the client neither left nor reconnected, the
  session was not revoked, and no expiry check found its time limit exceeded. (No code calls
  \<open>client_access_set_state\<close> to authorize a client.)
\<close>

theorem authorization_provenance:
  assumes "client_map (run_access ticks ops (client_access_boot n)) mac = Some e" "authorized e"
    and "\<forall>x. Set_State x CLIENT_ACCESS_STATE_AUTHORIZED \<notin> set ops"
  shows "\<exists>pre t ttl now post. ops = pre @ Authorize t (e_session_id e) ttl now # post \<and>
      0 < e_session_id e \<and> parse_mac_address (Some t) = Inr mac \<and>
      authorized_at_ticks e = uint now \<and> ttl_ticks e = uint (ticks (ttl * 1000)) \<and>
      (\<forall>op \<in> set post. \<not> ends_grant mac (e_session_id e) (authorized_at_ticks e) (ttl_ticks e) op)"
proof -
  have "granted_by ticks ops mac e"
    by (rule since_boot.run [OF clients_ok_boot _ assms]) (simp add: client_map_boot)
  then show ?thesis by (simp add: granted_by_def)
qed


text \<open>
  C24: the forwarding decision. \<open>client_access_can_forward_ipv4\<close> answers yes exactly when the first client of the
  table with this address would still be authorized after an expiry check at the same tick; a client
  whose time is over is downgraded by the query in the way the check does it, and no other client changes.
\<close>

theorem forward_decision_eq_expiry:
  assumes "clients_ok st" "source_ip \<noteq> 0"
  shows "fst (client_access_can_forward_ipv4 now source_ip st) =
      (case find (has_ip source_ip) (s_clients (client_access_expire_check now st)) of
         None \<Rightarrow> False | Some e \<Rightarrow> e_state e = CLIENT_ACCESS_STATE_AUTHORIZED) \<and>
    s_clients (snd (client_access_can_forward_ipv4 now source_ip st)) =
      (case find_idx (has_ip source_ip) (s_clients st) of
         None \<Rightarrow> s_clients st
       | Some i \<Rightarrow> (s_clients st)[i := s_clients (client_access_expire_check now st) ! i])"
proof -
  have h: "has_ip source_ip \<circ> expire_entry now = has_ip source_ip"
    by (auto simp: has_ip_def)
  have f: "find (has_ip source_ip) (s_clients (client_access_expire_check now st)) =
      map_option (\<lambda>i. expire_entry now (s_clients st ! i)) (find_idx (has_ip source_ip) (s_clients st))"
    using find_idx_SomeD [of "has_ip source_ip" "s_clients st"]
    by (auto simp: client_access_expire_check_def find_idx_find find_idx_map h
        intro!: option.map_cong0 split: option.splits)
  have "fst (client_access_can_forward_ipv4 now source_ip st) =
      (case find (has_ip source_ip) (s_clients (client_access_expire_check now st)) of
         None \<Rightarrow> False | Some e \<Rightarrow> e_state e = CLIENT_ACCESS_STATE_AUTHORIZED)"
    unfolding f using assms(2)
    by (auto simp: client_access_can_forward_ipv4_def expire_entry_alt grant_expired_def Let_def has_ip_def
        split: option.splits dest!: find_idx_SomeD)
  moreover have "s_clients (snd (client_access_can_forward_ipv4 now source_ip st)) =
      (case find_idx (has_ip source_ip) (s_clients st) of
         None \<Rightarrow> s_clients st
       | Some i \<Rightarrow> (s_clients st)[i := s_clients (client_access_expire_check now st) ! i])"
    using assms(2)
    by (auto simp: client_access_can_forward_ipv4_def client_access_expire_check_def expire_entry_alt
        grant_expired_def Let_def has_ip_def split: option.splits dest!: find_idx_SomeD)
  ultimately show ?thesis ..
qed

text \<open>
  C25: the time limit survives the wrap of the 32-bit tick counter: if the true number of ticks since the
  boot was \<open>t0\<close> at the grant and is \<open>t1\<close> now, fewer than 2^32 ticks later, the grant has expired
  exactly when it has a limit and \<open>t1 - t0\<close> has reached it.
\<close>

theorem grant_expiry_exact:
  fixes ms_to_ticks :: "u32 \<Rightarrow> u32" and ttl :: u32
  assumes "t0 \<le> t1" "t1 - t0 < 2 ^ 32" "now = of_nat t1"
    and "e = grant sid (of_nat t0) (ms_to_ticks (ttl * 1000)) e0" "in_use e0"
  shows "e_state (expire_entry now e) = CLIENT_ACCESS_STATE_AUTHORIZED \<longleftrightarrow>
    ms_to_ticks (ttl * 1000) = 0 \<or> t1 - t0 < unat (ms_to_ticks (ttl * 1000))"
proof -
  let ?l = "ms_to_ticks (ttl * 1000)"
  have "uint (of_nat t1 - of_nat t0 :: u32) = int (t1 - t0)"
  proof -
    have "(of_nat t1 - of_nat t0 :: u32) = of_nat (t1 - t0)" using assms(1) by (simp add: of_nat_diff)
    moreover have "uint (of_nat (t1 - t0) :: u32) = int (t1 - t0)"
      using assms(2) by (simp add: unsigned_of_nat take_bit_nat_eq_self)
    ultimately show ?thesis by simp
  qed
  then have "grant_expired now (authorized_at_ticks e) (ttl_ticks e) \<longleftrightarrow> ?l \<noteq> 0 \<and> unat ?l \<le> t1 - t0"
  proof -
    assume u: "uint (of_nat t1 - of_nat t0 :: u32) = int (t1 - t0)"
    have l: "uint ?l = int (unat ?l)" by simp
    have z: "0 < int (unat ?l) \<longleftrightarrow> ?l \<noteq> 0" unfolding of_nat_0_less_iff by (rule unat_gt_0)
    have "grant_expired now (authorized_at_ticks e) (ttl_ticks e) \<longleftrightarrow> 0 < uint ?l \<and> uint ?l \<le> int (t1 - t0)"
      unfolding grant_expired_def assms(3,4) grant_def by (simp add: u del: of_nat_diff)
    then show ?thesis unfolding l z of_nat_le_iff .
  qed
  then show ?thesis
    using assms(4,5) by (auto simp: expire_entry_alt grant_def expired_entry_def)
qed

text \<open>
  C26: a revocation ends exactly the session it names. With the session number of another session it
  changes nothing and reports an error; with the right one the client is unauthorized with no session
  left, and every other client is unchanged.
\<close>

theorem revoke_exact_session:
  assumes "clients_ok st" "0 < sid" "parse_mac_address (Some t) = Inr mac"
  shows "case client_map st mac of
      None \<Rightarrow> client_access_revoke_authorization (Some t) sid st = (ESP_ERR_NOT_FOUND, st)
    | Some e \<Rightarrow>
        (if authorized e \<and> e_session_id e = sid
         then fst (client_access_revoke_authorization (Some t) sid st) = ESP_OK \<and>
           client_map (snd (client_access_revoke_authorization (Some t) sid st)) =
             (client_map st)(mac \<mapsto> e\<lparr>e_state := CLIENT_ACCESS_STATE_UNAUTHORIZED, e_session_id := 0, ttl_ticks := 0\<rparr>)
         else client_access_revoke_authorization (Some t) sid st = (ESP_ERR_INVALID_STATE, st))"
proof (cases "find_client_index (s_clients st) mac")
  case None
  then show ?thesis using assms by (simp add: client_map_alt client_access_revoke_authorization_def)
next
  case (Some i)
  have m: "client_map st mac = Some (s_clients st ! i)" using Some by (simp add: client_map_alt)
  note ch = change_entry [OF assms(1) Some, of expired_entry, simplified, OF expired_entry_ok]
  show ?thesis
    using assms(2,3) Some m ch
    by (simp add: client_access_revoke_authorization_def Let_def authorized_def) (simp add: expired_entry_def)
qed


text \<open>
  C27: when a client leaves, its last state and session are put into the queue of disconnect events
  before its slot is cleared, so a settlement is not lost as long as the queue has room; the client is
  gone from the table, and a client that comes back starts unauthorized, without session, address or limit.
\<close>

theorem disconnect_keeps_session:
  assumes "clients_ok st" "client_map st mac = Some e" "s_disconnect_queue st = Some evs"
    and "length evs < length (s_clients st)"
  shows "s_disconnect_queue (client_access_event_handler (Some (WIFI_EVENT_AP_STADISCONNECTED mac)) st) =
      Some (evs @ [\<lparr>gone_mac = mac, gone_state = e_state e, gone_session_id = e_session_id e\<rparr>]) \<and>
    client_map (client_access_event_handler (Some (WIFI_EVENT_AP_STADISCONNECTED mac)) st) mac = None \<and>
    client_map (client_access_event_handler (Some (WIFI_EVENT_AP_STACONNECTED mac))
      (client_access_event_handler (Some (WIFI_EVENT_AP_STADISCONNECTED mac)) st)) mac =
      Some \<lparr>in_use = True, e_mac = mac, e_state = CLIENT_ACCESS_STATE_UNAUTHORIZED, e_session_id = 0, e_ip = 0,
        authorized_at_ticks = 0, ttl_ticks = 0, e_rssi = 0\<rparr>"
proof -
  let ?st = "client_access_event_handler (Some (WIFI_EVENT_AP_STADISCONNECTED mac)) st"
  from assms(2) obtain i where i: "find_client_index (s_clients st) mac = Some i" "e = s_clients st ! i"
    by (auto simp: client_map_alt)
  have il: "i < length (s_clients st)" using find_client_indexD [OF i(1)] by simp
  have q: "s_disconnect_queue ?st =
      Some (evs @ [\<lparr>gone_mac = mac, gone_state = e_state e, gone_session_id = e_session_id e\<rparr>])"
    using i assms(3,4) client_map_mac [OF assms(2)]
    by (simp add: client_access_event_handler_def remove_disconnect_client_def Let_def queue_send_def)
  note r = remove_disconnect_client_spec [OF assms(1), of mac]
  have s: "?st = remove_disconnect_client (Some mac) st" by (simp add: client_access_event_handler_def)
  have m: "client_map ?st mac = None" by (simp add: s r)
  have "find_idx (\<lambda>e. \<not> in_use e) (s_clients ?st) \<noteq> None"
    using i il by (auto simp: s remove_disconnect_client_def Let_def find_idx_None zero_entry_def
        intro!: bexI [of _ "zero_entry"] set_update_memI)
  moreover have "find_client_index (s_clients ?st) mac = None" using m by (simp add: client_map_alt)
  ultimately have full: "track_connected_client (Some mac) ?st \<noteq> (ESP_ERR_NO_MEM, ?st)"
    by (auto simp: track_connected_client_def Let_def)
  have "client_map (client_access_event_handler (Some (WIFI_EVENT_AP_STACONNECTED mac)) ?st) mac = Some (fresh_client mac)"
  proof -
    have "clients_ok ?st" unfolding s by (rule r(1))
    then show ?thesis
      by (cases rule: track_connected_client_cases [where mac = mac])
        (use full in \<open>simp_all add: client_access_event_handler_def\<close>)
  qed
  with q m show ?thesis by (simp add: fresh_client_def connected_entry_def zero_entry_def)
qed

section \<open>A concrete table\<close>

definition sample_mac :: bytes where
  "sample_mac = [2, 0, 0, 0, 0, 10]"

definition sample_ops :: "access_op list" where
  "sample_ops =
     [Wifi_Event (WIFI_EVENT_AP_STACONNECTED sample_mac), Ip_Event (IP_EVENT_ASSIGNED_IP_TO_CLIENT sample_mac 33),
      Authorize ''02:00:00:00:00:0a'' 7 60 5]"

definition sample_clients :: client_access where
  "sample_clients = run_access (\<lambda>ms. ms) sample_ops (client_access_boot 2)"

lemma sample_parse: "parse_mac_address (Some ''02:00:00:00:00:0a'') = Inr sample_mac"
  unfolding sample_mac_def by code_simp

lemma sample_clients_ok: "clients_ok sample_clients"
  using run_access_ok [OF clients_ok_boot] by (simp add: sample_clients_def)

lemma two_slots: "replicate 2 x = [x, x]"
  by (simp add: numeral_2_eq_2)

lemma sample_clients_eq: "s_clients sample_clients =
    [\<lparr>in_use = True, e_mac = sample_mac, e_state = CLIENT_ACCESS_STATE_AUTHORIZED, e_session_id = 7, e_ip = 33,
      authorized_at_ticks = 5, ttl_ticks = 60000, e_rssi = 0\<rparr>, zero_entry]"
  by (simp add: sample_clients_def sample_ops_def run_access_def client_access_boot_def client_access_event_handler_def
      client_access_ip_event_handler_def track_connected_client_def track_client_ip_def find_client_index_def has_mac_def
      client_access_authorize_def sample_parse connected_entry_def zero_entry_def two_slots)

lemma sample_map: "client_map sample_clients sample_mac =
    Some \<lparr>in_use = True, e_mac = sample_mac, e_state = CLIENT_ACCESS_STATE_AUTHORIZED, e_session_id = 7, e_ip = 33,
      authorized_at_ticks = 5, ttl_ticks = 60000, e_rssi = 0\<rparr>"
  by (simp add: client_map_alt sample_clients_eq find_client_index_def has_mac_def)

lemma client_access_refines_registry_witness:
  "clients_ok (access_step (\<lambda>ms. ms) (Expire_Check 9) sample_clients) \<and>
   map_step (\<lambda>ms. ms) (length (s_clients sample_clients)) (Expire_Check 9) (client_map sample_clients)
     (client_map (access_step (\<lambda>ms. ms) (Expire_Check 9) sample_clients))"
  by (rule client_access_refines_registry [OF sample_clients_ok])

lemma authorization_provenance_witness:
  "\<exists>pre t ttl now post. sample_ops = pre @ Authorize t 7 ttl now # post \<and>
     parse_mac_address (Some t) = Inr sample_mac"
proof -
  have "\<forall>x. Set_State x CLIENT_ACCESS_STATE_AUTHORIZED \<notin> set sample_ops" by (simp add: sample_ops_def)
  then show ?thesis
    using authorization_provenance [OF sample_map [unfolded sample_clients_def]]
    by (auto simp: authorized_def) blast
qed

lemma forward_decision_eq_expiry_witness:
  "fst (client_access_can_forward_ipv4 60004 33 sample_clients)"
  using forward_decision_eq_expiry [OF sample_clients_ok, of 33 60004]
  by (simp add: client_access_expire_check_def sample_clients_eq has_ip_def expire_entry_def zero_entry_def)

lemma grant_expiry_exact_witness:
  "e_state (expire_entry (of_nat (2 ^ 32 + 5)) (grant 7 (of_nat (2 ^ 32 - 2)) ((\<lambda>ms. ms) (1 * 1000))
      (fresh_client sample_mac))) = CLIENT_ACCESS_STATE_AUTHORIZED"
  using grant_expiry_exact [of "2 ^ 32 - 2" "2 ^ 32 + 5" "of_nat (2 ^ 32 + 5)" _ 7 "\<lambda>ms. ms" 1
      "fresh_client sample_mac"]
  by (simp add: fresh_client_ok)

lemma revoke_exact_session_witness:
  "client_access_revoke_authorization (Some ''02:00:00:00:00:0a'') 8 sample_clients = (ESP_ERR_INVALID_STATE, sample_clients) \<and>
   fst (client_access_revoke_authorization (Some ''02:00:00:00:00:0a'') 7 sample_clients) = ESP_OK"
  using revoke_exact_session [OF sample_clients_ok _ sample_parse, of 8]
    revoke_exact_session [OF sample_clients_ok _ sample_parse, of 7]
  by (simp add: sample_map authorized_def)

lemma disconnect_keeps_session_witness:
  "client_map (client_access_event_handler (Some (WIFI_EVENT_AP_STADISCONNECTED sample_mac))
     (sample_clients\<lparr>s_disconnect_queue := Some []\<rparr>)) sample_mac = None"
proof -
  let ?st = "sample_clients\<lparr>s_disconnect_queue := Some []\<rparr>"
  have "clients_ok ?st" using sample_clients_ok by (simp add: clients_ok_def)
  moreover have "client_map ?st sample_mac = client_map sample_clients sample_mac" by (simp add: client_map_def)
  ultimately show ?thesis
    using disconnect_keeps_session [of ?st sample_mac _ "[]"] sample_map by (simp add: sample_clients_eq)
qed

end
