(* ===== verification/Access_Rules.thy ===== *)
theory Access_Rules
  imports Prelude
begin

text \<open>
  The blocking rules, first part of components/access\_filter/access\_filter.c: a list of destination
  addresses and a list of hostnames that an administrator blocks, both append-only and of bounded
  size, and the normal form of hostnames.

  The two arrays with their published counts are lists. An address is the 32-bit word in network
  byte order that the code compares. Parameters of the model, in the record \<open>lwip_api\<close>: the lwIP
  functions on addresses and interfaces (\<open>ip4addr_aton\<close>, \<open>ip4_addr_ismulticast\<close>,
  \<open>ip4_addr_isbroadcast\<close>, \<open>netif_ip4_addr\<close>). An interface is a handle, a number.
\<close>

type_synonym netif = nat

record lwip_api =
  ip4addr_aton :: "string \<Rightarrow> u32 option"
  ip4_addr_ismulticast :: "u32 \<Rightarrow> bool"
  ip4_addr_isbroadcast :: "u32 \<Rightarrow> netif \<Rightarrow> bool"
  netif_ip4_addr :: "netif \<Rightarrow> u32"

record access_rules =
  s_softap_netif :: "netif option"
  s_portal_server_ipv4 :: u32
  s_portal_server_enabled :: bool
  s_blocked_destination_ipv4 :: "u32 list"
  s_blocked_hostnames :: "string list"

definition ACCESS_FILTER_BLOCKED_IPV4_CAPACITY :: nat where
  "ACCESS_FILTER_BLOCKED_IPV4_CAPACITY = 16"

definition ACCESS_FILTER_BLOCKED_HOSTNAME_CAPACITY :: nat where
  "ACCESS_FILTER_BLOCKED_HOSTNAME_CAPACITY = 16"

definition ACCESS_FILTER_HOSTNAME_SIZE :: nat where
  "ACCESS_FILTER_HOSTNAME_SIZE = 256"

definition access_rules_boot :: access_rules where
  "access_rules_boot =
     \<lparr>s_softap_netif = None, s_portal_server_ipv4 = 0, s_portal_server_enabled = False,
      s_blocked_destination_ipv4 = [], s_blocked_hostnames = []\<rparr>"

section \<open>Hostnames\<close>

definition has_hostname_rules :: "access_rules \<Rightarrow> bool" where
  "has_hostname_rules rules \<longleftrightarrow> length (s_blocked_hostnames rules) > 0"

definition is_ascii_letter_or_digit :: "char \<Rightarrow> bool" where
  "is_ascii_letter_or_digit c \<longleftrightarrow>
     (let v = char_code c in 97 \<le> v \<and> v \<le> 122 \<or> 65 \<le> v \<and> v \<le> 90 \<or> 48 \<le> v \<and> v \<le> 57)"

text \<open>
  The loop of \<open>normalize_hostname\<close>: the characters that are left, the output so far and the
  length of the current label. \<open>output[i - 1]\<close> is the last character of the output.
\<close>

fun normalize_loop :: "string \<Rightarrow> string \<Rightarrow> nat \<Rightarrow> (string \<times> nat) option" where
  "normalize_loop [] out label_length = Some (out, label_length)"
| "normalize_loop (c # cs) out label_length =
     (if c = CHR ''.'' then
        if label_length = 0 \<or> last out = CHR ''-'' then None
        else normalize_loop cs (out @ [CHR ''.'']) 0
      else if \<not> is_ascii_letter_or_digit c \<and> c \<noteq> CHR ''-'' then None
      else if label_length = 0 \<and> c = CHR ''-'' then None
      else if label_length + 1 > 63 then None
      else normalize_loop cs (out @ [char_lower c]) (label_length + 1))"

definition normalize_hostname :: "string option \<Rightarrow> esp_err + string" where
  "normalize_hostname input =
     (case input of
        None \<Rightarrow> Inl ESP_ERR_INVALID_ARG
      | Some s \<Rightarrow>
          (let len = (if length s > 0 \<and> s ! (length s - 1) = CHR ''.'' then length s - 1 else length s) in
           if len = 0 \<or> len > 253 \<or> len \<ge> ACCESS_FILTER_HOSTNAME_SIZE then Inl ESP_ERR_INVALID_ARG
           else
             (case normalize_loop (take len s) [] 0 of
                None \<Rightarrow> Inl ESP_ERR_INVALID_ARG
              | Some (out, label_length) \<Rightarrow>
                  if label_length = 0 \<or> last out = CHR ''-'' then Inl ESP_ERR_INVALID_ARG else Inr out)))"

definition hostname_matches :: "string \<Rightarrow> string \<Rightarrow> bool" where
  "hostname_matches host rule \<longleftrightarrow>
     (let hl = length host; rl = length rule;
          exact_match = (hl = rl \<and> take rl host = rule);
          subdomain_match = (hl > rl \<and> host ! (hl - rl - 1) = CHR ''.'' \<and> take rl (drop (hl - rl) host) = rule)
      in exact_match \<or> subdomain_match)"

definition access_filter_is_hostname_blocked :: "access_rules \<Rightarrow> string option \<Rightarrow> bool" where
  "access_filter_is_hostname_blocked rules hostname =
     (if \<not> has_hostname_rules rules then False
      else case normalize_hostname hostname of
             Inl _ \<Rightarrow> True
           | Inr host \<Rightarrow> list_ex (hostname_matches host) (s_blocked_hostnames rules))"

section \<open>Installing rules\<close>

definition is_destination_ipv4_blocked :: "access_rules \<Rightarrow> u32 \<Rightarrow> bool" where
  "is_destination_ipv4_blocked rules ip = list_ex (\<lambda>r. r = ip) (s_blocked_destination_ipv4 rules)"

text \<open>The address checks of \<open>access_filter_block_traffic\<close>, and the address they accept.\<close>

definition block_candidate :: "lwip_api \<Rightarrow> netif \<Rightarrow> access_rules \<Rightarrow> string \<Rightarrow> u32 option" where
  "block_candidate lw nif rules destination =
     (case ip4addr_aton lw destination of
        None \<Rightarrow> None
      | Some ip \<Rightarrow>
          if ip = 0 \<or> ip4_addr_ismulticast lw ip \<or> ip4_addr_isbroadcast lw ip nif then None
          else if ip = netif_ip4_addr lw nif \<or>
                  s_portal_server_enabled rules \<and> ip = s_portal_server_ipv4 rules then None
          else Some ip)"

definition install_rules :: "u32 \<Rightarrow> string option \<Rightarrow> access_rules \<Rightarrow> esp_err \<times> access_rules" where
  "install_rules ip hostname rules =
     (let ipv4_exists = list_ex (\<lambda>r. r = ip) (s_blocked_destination_ipv4 rules);
          hostname_exists = (case hostname of None \<Rightarrow> True
                             | Some h \<Rightarrow> list_ex (\<lambda>r. r = h) (s_blocked_hostnames rules));
          ipv4_full = (\<not> ipv4_exists \<and>
            length (s_blocked_destination_ipv4 rules) \<ge> ACCESS_FILTER_BLOCKED_IPV4_CAPACITY);
          hostname_full = (\<not> hostname_exists \<and>
            length (s_blocked_hostnames rules) \<ge> ACCESS_FILTER_BLOCKED_HOSTNAME_CAPACITY)
      in if ipv4_full \<or> hostname_full then (ESP_ERR_NO_MEM, rules)
         else
           (let rules = (if ipv4_exists then rules
                         else rules\<lparr>s_blocked_destination_ipv4 := s_blocked_destination_ipv4 rules @ [ip]\<rparr>);
                rules = (if hostname_exists then rules
                         else rules\<lparr>s_blocked_hostnames := s_blocked_hostnames rules @ [the hostname]\<rparr>)
            in (ESP_OK, rules)))"

definition access_filter_block_traffic ::
  "lwip_api \<Rightarrow> string option \<Rightarrow> string option \<Rightarrow> access_rules \<Rightarrow> esp_err \<times> access_rules" where
  "access_filter_block_traffic lw destination sni rules =
     (case destination of
        None \<Rightarrow> (ESP_ERR_INVALID_ARG, rules)
      | Some d \<Rightarrow>
          if d = [] then (ESP_ERR_INVALID_ARG, rules)
          else case s_softap_netif rules of
                 None \<Rightarrow> (ESP_ERR_INVALID_STATE, rules)
               | Some nif \<Rightarrow>
                   (case block_candidate lw nif rules d of
                      None \<Rightarrow> (ESP_ERR_INVALID_ARG, rules)
                    | Some ip \<Rightarrow>
                        if sni \<noteq> None \<and> sni \<noteq> Some [] then
                          (case normalize_hostname sni of
                             Inl err \<Rightarrow> (err, rules)
                           | Inr host \<Rightarrow> install_rules ip (Some host) rules)
                        else install_rules ip None rules))"

text \<open>
  \<open>access_filter_start\<close>: \<open>config\<close> is the configuration pointer and, in it, the address of the portal;
  \<open>esp_netif\<close> says whether the interface WIFI\_AP\_DEF exists, \<open>impl\<close> is its lwIP interface.
\<close>

definition access_filter_start ::
  "lwip_api \<Rightarrow> bool \<Rightarrow> netif option \<Rightarrow> string option option \<Rightarrow> access_rules \<Rightarrow> esp_err \<times> access_rules" where
  "access_filter_start lw esp_netif impl config rules =
     (case config of
        None \<Rightarrow> (ESP_ERR_INVALID_ARG, rules)
      | Some portal \<Rightarrow>
          if s_softap_netif rules \<noteq> None then (ESP_OK, rules)
          else
            (case (case portal of
                     None \<Rightarrow> Some (rules\<lparr>s_portal_server_enabled := False, s_portal_server_ipv4 := 0\<rparr>)
                   | Some p \<Rightarrow>
                       if p = [] then None
                       else map_option (\<lambda>ip. rules\<lparr>s_portal_server_ipv4 := ip, s_portal_server_enabled := True\<rparr>)
                              (ip4addr_aton lw p)) of
               None \<Rightarrow> (ESP_ERR_INVALID_ARG, rules)
             | Some rules \<Rightarrow>
                 if \<not> esp_netif then (ESP_ERR_INVALID_STATE, rules)
                 else
                   (let rules = rules\<lparr>s_softap_netif := impl\<rparr> in
                    if s_softap_netif rules = None then (ESP_ERR_INVALID_STATE, rules)
                    else (ESP_OK, rules))))"

section \<open>What a hostname is\<close>

fun dotted :: "string list \<Rightarrow> string" where
  "dotted [] = []"
| "dotted [l] = l"
| "dotted (l # ls) = l @ CHR ''.'' # dotted ls"

definition label_char :: "char \<Rightarrow> bool" where
  "label_char c \<longleftrightarrow> is_ascii_letter_or_digit c \<or> c = CHR ''-''"

definition valid_label :: "string \<Rightarrow> bool" where
  "valid_label l \<longleftrightarrow>
     l \<noteq> [] \<and> length l \<le> 63 \<and> list_all label_char l \<and> hd l \<noteq> CHR ''-'' \<and> last l \<noteq> CHR ''-''"

lemma char_code_marks: "char_code (CHR ''.'') = 46" "char_code (CHR ''-'') = 45"
  by (simp_all add: char_code_def)

lemma char_eq_code: "c = d \<longleftrightarrow> char_code c = char_code d"
  by simp

lemma lower_dash [simp]: "char_lower c = CHR ''-'' \<longleftrightarrow> c = CHR ''-''"
  unfolding char_eq_code char_code_lower char_code_marks by (auto simp: c_tolower_def)

lemma lower_dot [simp]: "char_lower c = CHR ''.'' \<longleftrightarrow> c = CHR ''.''"
  unfolding char_eq_code char_code_lower char_code_marks by (auto simp: c_tolower_def)

lemma lower_dot_val [simp]: "char_lower (CHR ''.'') = CHR ''.''"
  by (rule iffD2 [OF lower_dot refl])

lemma dot_no_label: "\<not> label_char (CHR ''.'')"
  by (simp add: label_char_def is_ascii_letter_or_digit_def char_code_marks)

lemma label_char_lower [simp]: "label_char (char_lower c) = label_char c"
proof -
  have "is_ascii_letter_or_digit (char_lower c) = is_ascii_letter_or_digit c"
    by (auto simp: is_ascii_letter_or_digit_def char_code_lower c_tolower_def Let_def)
  then show ?thesis by (simp add: label_char_def)
qed

lemma dotted_Cons: "dotted (l # ls) = l @ (if ls = [] then [] else CHR ''.'' # dotted ls)"
  by (cases ls) simp_all

text \<open>A label that is not complete yet: it may be empty or end with a hyphen.\<close>

definition label_start :: "string \<Rightarrow> bool" where
  "label_start l \<longleftrightarrow> length l \<le> 63 \<and> list_all label_char l \<and> (l \<noteq> [] \<longrightarrow> hd l \<noteq> CHR ''-'')"

lemma valid_label_alt: "valid_label l \<longleftrightarrow> label_start l \<and> l \<noteq> [] \<and> last l \<noteq> CHR ''-''"
  by (auto simp: valid_label_def label_start_def)

lemma normalize_loop_sound:
  assumes "normalize_loop cs (done @ map char_lower l) (length l) = Some (out, n)" "label_start l"
  shows "\<exists>ls. l @ cs = dotted ls \<and> ls \<noteq> [] \<and> list_all valid_label (butlast ls) \<and> label_start (last ls) \<and>
    out = done @ map char_lower (l @ cs) \<and> n = length (last ls)"
  using assms
proof (induction cs arbitrary: "done" l)
  case Nil
  then show ?case by (intro exI [of _ "[l]"]) simp
next
  case (Cons c cs)
  show ?case
  proof (cases "c = CHR ''.''")
    case True
    have l: "l \<noteq> []" "last (done @ map char_lower l) \<noteq> CHR ''-''"
      and r: "normalize_loop cs (done @ map char_lower l @ [CHR ''.'']) 0 = Some (out, n)"
      using Cons.prems(1) True by (auto split: if_split_asm)
    then have v: "valid_label l" using Cons.prems(2) by (auto simp: valid_label_alt last_map)
    from r have "normalize_loop cs ((done @ map char_lower l @ [CHR ''.'']) @ map char_lower []) (length []) = Some (out, n)"
      by simp
    from Cons.IH [OF this] obtain ls where ls: "cs = dotted ls" "ls \<noteq> []" "list_all valid_label (butlast ls)"
      "label_start (last ls)" "out = done @ map char_lower l @ [CHR ''.''] @ map char_lower cs" "n = length (last ls)"
      by (auto simp: label_start_def)
    show ?thesis
      using ls v True by (intro exI [of _ "l # ls"]) (simp add: dotted_Cons)
  next
    case False
    have c: "label_char c" "l = [] \<longrightarrow> c \<noteq> CHR ''-''" "length l + 1 \<le> 63"
      and r: "normalize_loop cs (done @ map char_lower (l @ [c])) (length (l @ [c])) = Some (out, n)"
      using Cons.prems(1) False by (auto simp: label_char_def split: if_split_asm)
    have "label_start (l @ [c])" using c Cons.prems(2) by (cases l) (auto simp: label_start_def)
    from Cons.IH [OF r this] show ?thesis by simp
  qed
qed

lemma normalize_loop_label:
  "list_all label_char l \<Longrightarrow> n + length l \<le> 63 \<Longrightarrow> (n = 0 \<Longrightarrow> l \<noteq> [] \<Longrightarrow> hd l \<noteq> CHR ''-'') \<Longrightarrow>
   normalize_loop (l @ cs) out n = normalize_loop cs (out @ map char_lower l) (n + length l)"
proof (induction l arbitrary: out n)
  case (Cons c l)
  have "c \<noteq> CHR ''.''" using Cons.prems(1) dot_no_label by auto
  then show ?case using Cons.prems Cons.IH [of "n + 1" "out @ [char_lower c]"]
    by (auto simp: label_char_def)
qed simp

lemma normalize_loop_complete:
  "ls \<noteq> [] \<Longrightarrow> list_all valid_label ls \<Longrightarrow>
   normalize_loop (dotted ls) out 0 = Some (out @ map char_lower (dotted ls), length (last ls))"
proof (induction ls arbitrary: out)
  case (Cons l ls)
  have l: "valid_label l" using Cons.prems by simp
  then have r: "normalize_loop (l @ cs) out 0 = normalize_loop cs (out @ map char_lower l) (length l)" for cs
    using normalize_loop_label [of l 0 cs out] by (simp add: valid_label_def)
  show ?case
  proof (cases "ls = []")
    case True
    then show ?thesis using r [of "[]"] by simp
  next
    case False
    have "last (map char_lower l) \<noteq> CHR ''-''" "l \<noteq> []" using l by (auto simp: valid_label_def last_map)
    then show ?thesis
      using False r Cons.IH [of "out @ map char_lower l @ [CHR ''.'']"] Cons.prems
      by (simp add: dotted_Cons last_append)
  qed
qed simp

lemma dotted_last: "ls \<noteq> [] \<Longrightarrow> last ls \<noteq> [] \<Longrightarrow> dotted ls \<noteq> [] \<and> last (dotted ls) = last (last ls)"
proof (induction ls)
  case (Cons l ls)
  then show ?case by (cases "ls = []") (auto simp: dotted_Cons)
qed simp

lemma valid_labels_last:
  "ls \<noteq> [] \<Longrightarrow> list_all valid_label ls \<longleftrightarrow> list_all valid_label (butlast ls) \<and> valid_label (last ls)"
  by (induction ls) auto


definition host_ok :: "string list \<Rightarrow> bool" where
  "host_ok ls \<longleftrightarrow> ls \<noteq> [] \<and> list_all valid_label ls \<and> length (dotted ls) \<le> 253"

lemma host_ok_last:
  assumes "host_ok ls"
  shows "dotted ls \<noteq> [] \<and> last (dotted ls) \<noteq> CHR ''.'' \<and> last (dotted ls) \<noteq> CHR ''-''"
proof -
  have "valid_label (last ls)" "ls \<noteq> []" using assms by (auto simp: host_ok_def valid_labels_last)
  moreover from this have "label_char (last (last ls))" by (simp add: valid_label_def list_all_iff)
  ultimately show ?thesis using dotted_last [of ls] dot_no_label by (auto simp: valid_label_def)
qed

lemma normalize_complete:
  assumes "host_ok ls" "s = dotted ls \<or> s = dotted ls @ ''.''"
  shows "normalize_hostname (Some s) = Inr (map char_lower (dotted ls))"
proof -
  let ?len = "if length s > 0 \<and> s ! (length s - 1) = CHR ''.'' then length s - 1 else length s"
  have l: "dotted ls \<noteq> []" "last (dotted ls) \<noteq> CHR ''.''" "last (dotted ls) \<noteq> CHR ''-''"
    using host_ok_last [OF assms(1)] by auto
  have len: "?len = length (dotted ls)" "take ?len s = dotted ls"
    using assms(2) l by (auto simp: last_conv_nth)
  have "length (last ls) \<noteq> 0" using assms(1) valid_labels_last [of ls] by (auto simp: host_ok_def valid_label_def)
  then show ?thesis
    using len l assms(1) normalize_loop_complete [of ls "[]"]
    by (simp add: normalize_hostname_def host_ok_def ACCESS_FILTER_HOSTNAME_SIZE_def last_map)
qed

lemma normalize_sound:
  assumes "normalize_hostname (Some s) = Inr out"
  shows "\<exists>ls. host_ok ls \<and> (s = dotted ls \<or> s = dotted ls @ ''.'') \<and> out = map char_lower (dotted ls)"
proof -
  define len where "len = (if length s > 0 \<and> s ! (length s - 1) = CHR ''.'' then length s - 1 else length s)"
  from assms obtain n where n: "len \<noteq> 0" "len \<le> 253" "normalize_loop (take len s) [] 0 = Some (out, n)" "n \<noteq> 0"
      "last out \<noteq> CHR ''-''"
    unfolding normalize_hostname_def len_def [symmetric] option.case Let_def
    by (auto split: if_split_asm option.split_asm)
  have r: "normalize_loop (take len s) ([] @ map char_lower []) (length ([] :: string)) = Some (out, n)"
    using n(3) by simp
  have e: "label_start []" by (simp add: label_start_def)
  from normalize_loop_sound [OF r e] obtain ls where
    ls: "take len s = dotted ls" "ls \<noteq> []" "list_all valid_label (butlast ls)" "label_start (last ls)"
      "out = map char_lower (take len s)" "n = length (last ls)"
    by auto
  have "last ls \<noteq> []" using ls(6) n(4) by auto
  then have "dotted ls \<noteq> [] \<and> last (dotted ls) = last (last ls)" using dotted_last ls(2) by blast
  then have "valid_label (last ls)"
    using n(5) ls(1,4,5) \<open>last ls \<noteq> []\<close> by (auto simp: valid_label_alt last_map)
  then have "list_all valid_label ls" using ls(2,3) valid_labels_last by blast
  moreover have "length (dotted ls) \<le> 253" using ls(1) n(2) by (metis length_take min.bounded_iff min.cobounded2 order_trans)
  ultimately have "host_ok ls" using ls(2) by (simp add: host_ok_def)
  moreover have "s = dotted ls \<or> s = dotted ls @ ''.''"
  proof (cases "length s > 0 \<and> s ! (length s - 1) = CHR ''.''")
    case True
    then have "len = length s - 1" "s \<noteq> []" "last s = CHR ''.''" by (auto simp: len_def last_conv_nth)
    then have "take len s = butlast s" by (simp add: butlast_conv_take)
    then show ?thesis using ls(1) \<open>s \<noteq> []\<close> \<open>last s = CHR ''.''\<close> by (metis append_butlast_last_id)
  qed (use ls(1) in \<open>auto simp: len_def\<close>)
  ultimately show ?thesis using ls by auto
qed

text \<open>
  C22: what the firmware takes for a hostname is exactly what DNS allows: one to 253 characters, labels of one to 63
  letters, digits and hyphens that neither start nor end with a hyphen, joined by dots, with at
  most one dot after the last; the normal form is the name in lower case without that dot.
\<close>

theorem normalize_hostname_spec:
  "normalize_hostname (Some s) = Inr out \<longleftrightarrow>
     (\<exists>ls. ls \<noteq> [] \<and> list_all valid_label ls \<and> length (dotted ls) \<le> 253 \<and>
        (s = dotted ls \<or> s = dotted ls @ ''.'') \<and> out = map char_lower (dotted ls))"
proof
  assume "normalize_hostname (Some s) = Inr out"
  from normalize_sound [OF this] show "\<exists>ls. ls \<noteq> [] \<and> list_all valid_label ls \<and> length (dotted ls) \<le> 253 \<and>
      (s = dotted ls \<or> s = dotted ls @ ''.'') \<and> out = map char_lower (dotted ls)"
    by (auto simp: host_ok_def)
next
  assume "\<exists>ls. ls \<noteq> [] \<and> list_all valid_label ls \<and> length (dotted ls) \<le> 253 \<and>
      (s = dotted ls \<or> s = dotted ls @ ''.'') \<and> out = map char_lower (dotted ls)"
  then obtain ls where ls: "host_ok ls" "s = dotted ls \<or> s = dotted ls @ ''.''" "out = map char_lower (dotted ls)"
    by (auto simp: host_ok_def)
  show "normalize_hostname (Some s) = Inr out"
    unfolding ls(3) using ls(1,2) by (rule normalize_complete)
qed

lemma map_lower_dotted: "map char_lower (dotted ls) = dotted (map (map char_lower) ls)"
proof (induction ls)
  case (Cons l ls)
  then show ?case by (cases "ls = []") (simp_all add: dotted_Cons)
qed simp

lemma valid_label_lower: "valid_label l \<Longrightarrow> valid_label (map char_lower l)"
  by (auto simp: valid_label_def list_all_iff hd_map last_map)

lemma normalize_idem:
  assumes "normalize_hostname (Some s) = Inr out"
  shows "normalize_hostname (Some out) = Inr out"
proof -
  obtain ls where ls: "host_ok ls" "out = map char_lower (dotted ls)" using normalize_sound [OF assms] by blast
  let ?ls = "map (map char_lower) ls"
  have ok: "host_ok ?ls"
    using ls(1) by (auto simp: host_ok_def list_all_iff valid_label_lower simp flip: map_lower_dotted)
  have "map char_lower (map char_lower (dotted ls)) = map char_lower (dotted ls)" by simp
  then show ?thesis
    using normalize_complete [OF ok, of out] by (simp add: ls(2) map_lower_dotted)
qed

section \<open>What is blocked\<close>

lemma hostname_matches_iff: "hostname_matches host rule \<longleftrightarrow> host = rule \<or> (\<exists>pre. host = pre @ ''.'' @ rule)"
proof
  assume m: "hostname_matches host rule"
  show "host = rule \<or> (\<exists>pre. host = pre @ ''.'' @ rule)"
  proof (cases "length host = length rule")
    case False
    let ?k = "length host - length rule"
    have k: "length host > length rule" "host ! (?k - 1) = CHR ''.''" "drop ?k host = rule"
      using m False by (auto simp: hostname_matches_def Let_def)
    have "host = take (?k - 1) host @ drop (?k - 1) host" by simp
    also have "drop (?k - 1) host = host ! (?k - 1) # drop ?k host"
      using k(1) by (metis Cons_nth_drop_Suc Suc_diff_1 diff_le_self diff_less less_le_trans not_gr0 zero_less_diff zero_less_one)
    finally show ?thesis using k(2,3) by (metis append_Cons append_Nil)
  qed (use m in \<open>auto simp: hostname_matches_def Let_def\<close>)
qed (auto simp: hostname_matches_def Let_def nth_append)

text \<open>
  C21: once there are hostname rules, a name is blocked exactly when it is not a hostname at all (fail closed), or its
  normal form is a rule or a subdomain of a rule at a label boundary.
\<close>

theorem hostname_blocked_iff:
  "access_filter_is_hostname_blocked rules hostname \<longleftrightarrow>
     s_blocked_hostnames rules \<noteq> [] \<and>
     (case normalize_hostname hostname of
        Inl _ \<Rightarrow> True
      | Inr host \<Rightarrow> \<exists>rule \<in> set (s_blocked_hostnames rules). host = rule \<or> (\<exists>pre. host = pre @ ''.'' @ rule))"
  by (auto simp: access_filter_is_hostname_blocked_def has_hostname_rules_def list_ex_iff hostname_matches_iff
      split: sum.split)

section \<open>The rule tables\<close>

definition rules_ok :: "access_rules \<Rightarrow> bool" where
  "rules_ok rules \<longleftrightarrow>
     distinct (s_blocked_destination_ipv4 rules) \<and> distinct (s_blocked_hostnames rules) \<and>
     length (s_blocked_destination_ipv4 rules) \<le> ACCESS_FILTER_BLOCKED_IPV4_CAPACITY \<and>
     length (s_blocked_hostnames rules) \<le> ACCESS_FILTER_BLOCKED_HOSTNAME_CAPACITY \<and>
     (\<forall>h \<in> set (s_blocked_hostnames rules). normalize_hostname (Some h) = Inr h)"

lemma rules_ok_boot: "rules_ok access_rules_boot"
  by (simp add: rules_ok_def access_rules_boot_def)

definition installed :: "u32 \<Rightarrow> string option \<Rightarrow> access_rules \<Rightarrow> access_rules" where
  "installed ip hostname rules =
     rules\<lparr>s_blocked_destination_ipv4 := s_blocked_destination_ipv4 rules @
             (if ip \<in> set (s_blocked_destination_ipv4 rules) then [] else [ip]),
           s_blocked_hostnames := s_blocked_hostnames rules @
             (case hostname of None \<Rightarrow> []
              | Some h \<Rightarrow> if h \<in> set (s_blocked_hostnames rules) then [] else [h])\<rparr>"

lemma install_rules_alt:
  "install_rules ip hostname rules =
     (if ip \<notin> set (s_blocked_destination_ipv4 rules) \<and>
              length (s_blocked_destination_ipv4 rules) \<ge> ACCESS_FILTER_BLOCKED_IPV4_CAPACITY \<or>
            (\<exists>h. hostname = Some h \<and> h \<notin> set (s_blocked_hostnames rules) \<and>
              length (s_blocked_hostnames rules) \<ge> ACCESS_FILTER_BLOCKED_HOSTNAME_CAPACITY)
      then (ESP_ERR_NO_MEM, rules) else (ESP_OK, installed ip hostname rules))"
  by (auto simp: install_rules_def installed_def Let_def list_ex_iff split: option.splits)

lemma normalize_error: "normalize_hostname s = Inl err \<Longrightarrow> err = ESP_ERR_INVALID_ARG"
  by (auto simp: normalize_hostname_def Let_def split: option.splits if_splits)

text \<open>
  C23: installing a rule is atomic. On success the address is blocked and, if a hostname came with it, the normal form
  of that too, in duplicate-free lists within their capacities, and nothing that was blocked before is lost; on
  any error neither list changes.
\<close>

theorem block_traffic_atomic:
  assumes "rules_ok rules" "access_filter_block_traffic lw destination sni rules = (err, rules')"
  shows "rules_ok rules' \<and>
    (if err = ESP_OK
     then \<exists>d ip. destination = Some d \<and> ip4addr_aton lw d = Some ip \<and>
        set (s_blocked_destination_ipv4 rules') = insert ip (set (s_blocked_destination_ipv4 rules)) \<and>
        (if sni = None \<or> sni = Some [] then s_blocked_hostnames rules' = s_blocked_hostnames rules
         else \<exists>h. normalize_hostname sni = Inr h \<and>
           set (s_blocked_hostnames rules') = insert h (set (s_blocked_hostnames rules)))
     else rules' = rules)"
proof (cases "err = ESP_OK")
  case False
  then have "rules' = rules"
    using assms(2)
    by (auto simp: access_filter_block_traffic_def install_rules_alt split: option.splits if_splits sum.splits)
  with False assms(1) show ?thesis by simp
next
  case True
  define nh where "nh = (if sni = None \<or> sni = Some [] then Inr None else map_sum id Some (normalize_hostname sni))"
  obtain d nif ip hostname where d: "destination = Some d" "block_candidate lw nif rules d = Some ip"
      "nh = Inr hostname" "install_rules ip hostname rules = (ESP_OK, rules')"
    using True assms(2)
    by (auto simp: access_filter_block_traffic_def nh_def dest: normalize_error split: option.splits if_splits sum.splits)
  have ip: "ip4addr_aton lw d = Some ip" using d(2) by (auto simp: block_candidate_def split: option.splits if_splits)
  have norm: "\<And>h. hostname = Some h \<Longrightarrow> normalize_hostname sni = Inr h" "hostname = None \<longleftrightarrow> sni = None \<or> sni = Some []"
    using d(3) by (auto simp: nh_def split: if_splits) (cases "normalize_hostname sni"; auto)+
  have idem: "normalize_hostname (Some h) = Inr h" if "hostname = Some h" for h
    using norm(1) [OF that] normalize_idem by (cases sni) (auto simp: normalize_hostname_def)
  have r: "rules' = installed ip hostname rules" and cap:
      "ip \<in> set (s_blocked_destination_ipv4 rules) \<or>
         length (s_blocked_destination_ipv4 rules) < ACCESS_FILTER_BLOCKED_IPV4_CAPACITY"
      "\<And>h. hostname = Some h \<Longrightarrow> h \<in> set (s_blocked_hostnames rules) \<or>
         length (s_blocked_hostnames rules) < ACCESS_FILTER_BLOCKED_HOSTNAME_CAPACITY"
    using d(4) by (auto simp: install_rules_alt not_le split: if_splits)
  have "rules_ok rules'"
    using assms(1) cap idem by (auto simp: r rules_ok_def installed_def split: option.split)
  then show ?thesis
    using True d(1) ip norm by (auto simp: r installed_def split: option.split)
qed

lemma blocked_after_install:
  assumes "rules_ok rules" "access_filter_block_traffic lw destination (Some s) rules = (ESP_OK, rules')" "s \<noteq> []"
  shows "access_filter_is_hostname_blocked rules' (Some s)"
  using block_traffic_atomic [OF assms(1,2)] assms(3) hostname_blocked_iff [of rules' "Some s"]
  by auto

lemma blocked_monotone:
  assumes "rules_ok rules" "access_filter_block_traffic lw destination sni rules = (err, rules')"
    and "access_filter_is_hostname_blocked rules host"
  shows "access_filter_is_hostname_blocked rules' host"
proof -
  have "set (s_blocked_hostnames rules) \<subseteq> set (s_blocked_hostnames rules')"
    using block_traffic_atomic [OF assms(1,2)] by (auto split: if_splits)
  then show ?thesis
    using assms(3) unfolding hostname_blocked_iff by (auto split: sum.splits)
qed


lemma normalize_hostname_spec_sample: "normalize_hostname (Some ''WWW.Example.com.'') = Inr ''www.example.com''"
  by code_simp

text \<open>An lwIP for the witnesses: one address in text form, no broadcast and no multicast addresses.\<close>

definition sample_lwip :: lwip_api where
  "sample_lwip =
     \<lparr>ip4addr_aton = (\<lambda>s. if s = ''9.9.9.9'' then Some 0x09090909 else None), ip4_addr_ismulticast = (\<lambda>_. False),
      ip4_addr_isbroadcast = (\<lambda>_ _. False), netif_ip4_addr = (\<lambda>_. 0x0104A8C0)\<rparr>"

lemma block_traffic_atomic_witness:
  "\<exists>rules'. access_filter_block_traffic sample_lwip (Some ''9.9.9.9'') (Some ''Ads.Example.com'')
      (access_rules_boot\<lparr>s_softap_netif := Some 1\<rparr>) = (ESP_OK, rules') \<and> rules_ok rules' \<and>
      set (s_blocked_destination_ipv4 rules') = {0x09090909}"
proof -
  let ?rules = "access_rules_boot\<lparr>s_softap_netif := Some 1\<rparr>"
  have ok: "rules_ok ?rules" by (simp add: rules_ok_def access_rules_boot_def)
  have h: "normalize_hostname (Some ''Ads.Example.com'') = Inr ''ads.example.com''" by code_simp
  obtain rules' where r: "access_filter_block_traffic sample_lwip (Some ''9.9.9.9'') (Some ''Ads.Example.com'') ?rules =
      (ESP_OK, rules')"
    by (simp add: access_filter_block_traffic_def access_rules_boot_def block_candidate_def sample_lwip_def h
        install_rules_def Let_def ACCESS_FILTER_BLOCKED_IPV4_CAPACITY_def ACCESS_FILTER_BLOCKED_HOSTNAME_CAPACITY_def)
  show ?thesis
    using block_traffic_atomic [OF ok r] r by (auto simp: sample_lwip_def access_rules_boot_def)
qed

end
