(* ===== verification/Tls_Sni_Parser.thy ===== *)
theory Tls_Sni_Parser
  imports Prelude
begin

text \<open>
  The incremental TLS ClientHello parser, components/tls\_sni\_parser/tls\_sni\_parser.c.

  The parser is fed the bytes of a TCP stream in pieces of any size. It strips the TLS record
  layer, collects the ClientHello handshake message in a fixed array of 2048 bytes and, when
  the message is complete, scans its extensions for the server name and for ECH.

  Every read from the collected message goes through \<open>byte_at\<close> or \<open>u16_at\<close>, and the copy
  into the array is guarded by its size: \<open>None\<close> stands for an access outside of the array
  or for a loop that does not end. The sizes (\<open>size_t\<close>) are natural numbers; the invariant
  \<open>tls_wf\<close> below shows that each subtraction of sizes takes the smaller from the larger.
  The output buffer \<open>hostname\<close> is the third component of a result. The code specifies it
  for \<open>TLS_SNI_PARSE_FOUND\<close> only, and the model leaves it empty otherwise.
\<close>

section \<open>State and results\<close>

datatype tls_sni_parse_result =
    TLS_SNI_PARSE_NEED_MORE
  | TLS_SNI_PARSE_FOUND
  | TLS_SNI_PARSE_NO_SNI
  | TLS_SNI_PARSE_INVALID

record tls_sni_parser =
  record_header :: bytes
  record_header_used :: nat
  record_remaining :: u16
  client_hello :: bytes
  client_hello_used :: nat
  client_hello_expected :: nat
  ech_present :: bool
  finished :: bool

definition TLS_CLIENT_HELLO_MAX_SIZE :: nat where
  "TLS_CLIENT_HELLO_MAX_SIZE = 2048"

definition TLS_EXTENSION_ECH :: u16 where
  "TLS_EXTENSION_ECH = 0xFE0D"

definition TLS_EXTENSION_SERVER_NAME :: u16 where
  "TLS_EXTENSION_SERVER_NAME = 0"

definition tls_sni_parser_init :: tls_sni_parser where
  "tls_sni_parser_init =
     \<lparr>record_header = replicate 5 0, record_header_used = 0, record_remaining = 0,
      client_hello = replicate TLS_CLIENT_HELLO_MAX_SIZE 0, client_hello_used = 0,
      client_hello_expected = 0, ech_present = False, finished = False\<rparr>"

section \<open>The server_name extension\<close>

text \<open>
  The loop that copies one host name: \<open>Some None\<close> is the early return with
  \<open>TLS_SNI_PARSE_INVALID\<close> for a character outside of 0x21..0x7E.
\<close>

primrec copy_hostname :: "nat \<Rightarrow> bytes \<Rightarrow> nat \<Rightarrow> string option option" where
  "copy_hostname 0 hello off = Some (Some [])"
| "copy_hostname (Suc n) hello off = do {
     value \<leftarrow> byte_at hello off;
     if value = 0 \<or> value < 0x21 \<or> value > 0x7E then Some None
     else do {
       rest \<leftarrow> copy_hostname n hello (Suc off);
       Some (map_option (\<lambda>h. char_of (c_tolower (unat value)) # h) rest)
     }
   }"

text \<open>
  One round of the loop over the ServerNameList. \<open>Inl ()\<close> is the early return with
  \<open>TLS_SNI_PARSE_INVALID\<close>; \<open>Inr\<close> holds the next offset, whether a name was found, and
  the name.
\<close>

definition server_name_step ::
  "bytes \<Rightarrow> nat \<Rightarrow> nat \<Rightarrow> nat \<Rightarrow> bool \<Rightarrow> string \<Rightarrow> (unit + nat \<times> bool \<times> string) option" where
  "server_name_step hello hostname_size name_offset name_list_end sni_found hostname =
     (if name_list_end - name_offset < 3 then Some (Inl ())
      else do {
        name_type \<leftarrow> byte_at hello name_offset;
        name_length \<leftarrow> u16_at hello (name_offset + 1);
        let name_offset = name_offset + 3;
        if unat name_length > name_list_end - name_offset then Some (Inl ())
        else if name_type = 0 then
          if sni_found \<or> name_length = 0 \<or> unat name_length \<ge> hostname_size then Some (Inl ())
          else do {
            name \<leftarrow> copy_hostname (unat name_length) hello name_offset;
            Some (case name of
                    None \<Rightarrow> Inl ()
                  | Some h \<Rightarrow> Inr (name_offset + unat name_length, True, h))
          }
        else Some (Inr (name_offset + unat name_length, sni_found, hostname))
      })"

lemma server_name_step_progress:
  "server_name_step hello hs off e found host = Some (Inr (off', found', host')) \<Longrightarrow> off < off'"
  by (auto simp: server_name_step_def Let_def result_convs split: if_split_asm)

function server_name_loop ::
  "bytes \<Rightarrow> nat \<Rightarrow> nat \<Rightarrow> nat \<Rightarrow> bool \<Rightarrow> string \<Rightarrow> (unit + nat \<times> bool \<times> string) option" where
  "server_name_loop hello hostname_size name_offset name_list_end sni_found hostname =
     (if name_offset < name_list_end then
        (case server_name_step hello hostname_size name_offset name_list_end sni_found hostname of
           None \<Rightarrow> None
         | Some (Inl u) \<Rightarrow> Some (Inl u)
         | Some (Inr (off, found, host)) \<Rightarrow>
             server_name_loop hello hostname_size off name_list_end found host)
      else Some (Inr (name_offset, sni_found, hostname)))"
  by pat_completeness auto
termination
  by (relation "measure (\<lambda>(hello, hs, off, e, found, host). e - off)")
    (auto dest: server_name_step_progress)

declare server_name_loop.simps [simp del]

section \<open>The extensions block\<close>

text \<open>
  The body of a server\_name extension: the ServerNameList must fill the extension exactly.
  \<open>Inl ()\<close> is the early return with \<open>TLS_SNI_PARSE_INVALID\<close>.
\<close>

definition read_server_names ::
  "bytes \<Rightarrow> nat \<Rightarrow> nat \<Rightarrow> u16 \<Rightarrow> bool \<Rightarrow> string \<Rightarrow> (unit + bool \<times> string) option" where
  "read_server_names hello hostname_size offset extension_length sni_found hostname =
     (if extension_length < 5 then Some (Inl ())
      else do {
        name_list_length \<leftarrow> u16_at hello offset;
        let name_offset = offset + 2;
        if unat name_list_length \<noteq> unat extension_length - 2 then Some (Inl ())
        else do {
          let name_list_end = name_offset + unat name_list_length;
          names \<leftarrow> server_name_loop hello hostname_size name_offset name_list_end
                     sni_found hostname;
          Some (case names of
                  Inl u \<Rightarrow> Inl u
                | Inr (off, found, host) \<Rightarrow>
                    if off \<noteq> name_list_end then Inl () else Inr (found, host))
        }
      })"

text \<open>
  One round of the loop over the extensions: the state is the offset, whether a host name
  was found, the host name, and the parser's \<open>ech_present\<close> flag. \<open>Inl ech\<close> is the early
  return with \<open>TLS_SNI_PARSE_INVALID\<close> and the flag at that moment.
\<close>

definition extension_step ::
  "bytes \<Rightarrow> nat \<Rightarrow> nat \<Rightarrow> nat \<Rightarrow> bool \<Rightarrow> string \<Rightarrow> bool
     \<Rightarrow> (bool + nat \<times> bool \<times> string \<times> bool) option" where
  "extension_step hello hostname_size offset extensions_end sni_found hostname ech =
     (if extensions_end - offset < 4 then Some (Inl ech)
      else do {
        type \<leftarrow> u16_at hello offset;
        extension_length \<leftarrow> u16_at hello (offset + 2);
        let offset = offset + 4;
        if unat extension_length > extensions_end - offset then Some (Inl ech)
        else do {
          let extension_end = offset + unat extension_length;
          let ech = (ech \<or> type = TLS_EXTENSION_ECH);
          if type = TLS_EXTENSION_SERVER_NAME then do {
            r \<leftarrow> read_server_names hello hostname_size offset extension_length sni_found hostname;
            Some (case r of
                    Inl _ \<Rightarrow> Inl ech
                  | Inr (found, host) \<Rightarrow> Inr (extension_end, found, host, ech))
          }
          else Some (Inr (extension_end, sni_found, hostname, ech))
        }
      })"

lemma extension_step_progress:
  "extension_step hello hs off e found host ech = Some (Inr (off', found', host', ech')) \<Longrightarrow> off < off'"
  by (auto simp: extension_step_def Let_def result_convs split: if_split_asm)

function extensions_loop ::
  "bytes \<Rightarrow> nat \<Rightarrow> nat \<Rightarrow> nat \<Rightarrow> bool \<Rightarrow> string \<Rightarrow> bool
     \<Rightarrow> (bool + nat \<times> bool \<times> string \<times> bool) option" where
  "extensions_loop hello hostname_size offset extensions_end sni_found hostname ech =
     (if offset < extensions_end then
        (case extension_step hello hostname_size offset extensions_end sni_found hostname ech of
           None \<Rightarrow> None
         | Some (Inl e) \<Rightarrow> Some (Inl e)
         | Some (Inr (off, found, host, e)) \<Rightarrow>
             extensions_loop hello hostname_size off extensions_end found host e)
      else Some (Inr (offset, sni_found, hostname, ech)))"
  by pat_completeness auto
termination
  by (relation "measure (\<lambda>(hello, hs, off, e, found, host, ech). e - off)")
    (auto dest: extension_step_progress)

declare extensions_loop.simps [simp del]

section \<open>The ClientHello\<close>

text \<open>
  \<open>parse_client_hello\<close>: \<open>hello\<close> is the array, \<open>len\<close> the expected length of the message.
  The result is the parse result, the final \<open>ech_present\<close> flag and the host name.
\<close>

definition parse_client_hello ::
  "bytes \<Rightarrow> nat \<Rightarrow> nat \<Rightarrow> bool \<Rightarrow> (tls_sni_parse_result \<times> bool \<times> string) option" where
  "parse_client_hello hello len hostname_size ech =
     (let offset = 4; invalid = Some (TLS_SNI_PARSE_INVALID, ech, []) in
      if len < offset + 34 then invalid
      else let offset = offset + 34 in
      if offset \<ge> len then invalid
      else do {
        session_length \<leftarrow> byte_at hello offset;
        let offset = offset + 1;
        if offset + unat session_length > len then invalid
        else do {
          let offset = offset + unat session_length;
          if offset + 2 > len then invalid
          else do {
            cipher_length \<leftarrow> u16_at hello offset;
            let offset = offset + 2;
            if cipher_length < 2 \<or> cipher_length AND 1 \<noteq> 0 \<or> offset + unat cipher_length > len
            then invalid
            else do {
              let offset = offset + unat cipher_length;
              if offset \<ge> len then invalid
              else do {
                compression_length \<leftarrow> byte_at hello offset;
                let offset = offset + 1;
                if compression_length = 0 \<or> offset + unat compression_length > len then invalid
                else do {
                  let offset = offset + unat compression_length;
                  if offset = len then Some (TLS_SNI_PARSE_NO_SNI, ech, [])
                  else if offset + 2 > len then invalid
                  else do {
                    extensions_length \<leftarrow> u16_at hello offset;
                    let offset = offset + 2;
                    if unat extensions_length \<noteq> len - offset then invalid
                    else do {
                      let extensions_end = offset + unat extensions_length;
                      r \<leftarrow> extensions_loop hello hostname_size offset extensions_end False [] ech;
                      Some (case r of
                              Inl ech \<Rightarrow> (TLS_SNI_PARSE_INVALID, ech, [])
                            | Inr (off, found, host, ech) \<Rightarrow>
                                if off \<noteq> extensions_end then (TLS_SNI_PARSE_INVALID, ech, [])
                                else if found then (TLS_SNI_PARSE_FOUND, ech, host)
                                else (TLS_SNI_PARSE_NO_SNI, ech, []))
                    }
                  }
                }
              }
            }
          }
        }
      })"

section \<open>Feeding the parser\<close>

text \<open>The inner loop of the record layer: bytes go into the record header until it has five.\<close>

fun fill_record_header :: "tls_sni_parser \<Rightarrow> bytes \<Rightarrow> tls_sni_parser \<times> bytes" where
  "fill_record_header p [] = (p, [])"
| "fill_record_header p (b # bs) =
     (if record_header_used p < 5
      then fill_record_header
             (p\<lparr>record_header := (record_header p)[record_header_used p := b],
                record_header_used := record_header_used p + 1\<rparr>) bs
      else (p, b # bs))"

text \<open>
  When no record is open, its type and length are read from the header. \<open>Inl\<close> is the early
  return with \<open>TLS_SNI_PARSE_INVALID\<close>.
\<close>

definition open_record :: "tls_sni_parser \<Rightarrow> (tls_sni_parser + tls_sni_parser) option" where
  "open_record p =
     (if record_remaining p = 0 then do {
        content_type \<leftarrow> byte_at (record_header p) 0;
        if content_type \<noteq> 22 then Some (Inl (p\<lparr>finished := True\<rparr>))
        else do {
          len \<leftarrow> u16_at (record_header p) 3;
          let p = p\<lparr>record_remaining := len\<rparr>;
          if len = 0 then Some (Inl (p\<lparr>finished := True\<rparr>)) else Some (Inr p)
        }
      }
      else Some (Inr p))"

definition wanted_bytes :: "tls_sni_parser \<Rightarrow> nat" where
  "wanted_bytes p =
     (if client_hello_expected p = 0 then 4 - client_hello_used p
      else client_hello_expected p - client_hello_used p)"

text \<open>The bounded copy of handshake bytes; the rest of the input is returned with the state.\<close>

definition copy_handshake :: "tls_sni_parser \<Rightarrow> bytes \<Rightarrow> (tls_sni_parser \<times> bytes) option" where
  "copy_handshake p data =
     (let available = length data;
          copy_length = (if available > unat (record_remaining p) then unat (record_remaining p)
                         else available);
          copy_length = (if copy_length > wanted_bytes p then wanted_bytes p else copy_length)
      in if client_hello_used p + copy_length > length (client_hello p) then None
         else Some (p\<lparr>client_hello := write_at (client_hello p) (client_hello_used p)
                                       (take copy_length data),
                      client_hello_used := client_hello_used p + copy_length,
                      record_remaining := record_remaining p - of_nat copy_length\<rparr>,
                    drop copy_length data))"

text \<open>
  The checks after the copy: the handshake type, the message length once its four header
  bytes are there, and the end of the message. \<open>Inl\<close> is a return of \<open>tls_sni_parser_feed\<close>,
  \<open>Inr\<close> the state for the next round of the loop.
\<close>

definition check_length :: "tls_sni_parser \<Rightarrow> (tls_sni_parser + tls_sni_parser) option" where
  "check_length p =
     (if client_hello_used p = 4 \<and> client_hello_expected p = 0 then do {
        b1 \<leftarrow> byte_at (client_hello p) 1;
        b2 \<leftarrow> byte_at (client_hello p) 2;
        b3 \<leftarrow> byte_at (client_hello p) 3;
        let body_length = push_bit 16 (unat b1) OR push_bit 8 (unat b2) OR unat b3;
        let p = p\<lparr>client_hello_expected := body_length + 4\<rparr>;
        if client_hello_expected p > length (client_hello p) \<or> client_hello_expected p \<le> 4
        then Some (Inl (p\<lparr>finished := True\<rparr>))
        else Some (Inr p)
      }
      else Some (Inr p))"

definition after_copy ::
  "tls_sni_parser \<Rightarrow> nat \<Rightarrow>
     ((tls_sni_parser \<times> tls_sni_parse_result \<times> string) + tls_sni_parser) option" where
  "after_copy p hostname_size = do {
     first \<leftarrow> byte_at (client_hello p) 0;
     if client_hello_used p \<ge> 1 \<and> first \<noteq> 1
     then Some (Inl (p\<lparr>finished := True\<rparr>, TLS_SNI_PARSE_INVALID, []))
     else do {
       checked \<leftarrow> check_length p;
       case checked of
         Inl p \<Rightarrow> Some (Inl (p, TLS_SNI_PARSE_INVALID, []))
       | Inr p \<Rightarrow>
           if client_hello_expected p > 0 \<and> client_hello_used p = client_hello_expected p
           then do {
             let p = p\<lparr>finished := True\<rparr>;
             (r, ech, host) \<leftarrow> parse_client_hello (client_hello p) (client_hello_expected p)
                                hostname_size (ech_present p);
             Some (Inl (p\<lparr>ech_present := ech\<rparr>, r, host))
           }
           else if record_remaining p = 0
           then Some (Inr (p\<lparr>record_header_used := 0, record_header := replicate 5 0\<rparr>))
           else Some (Inr p)
     }
   }"

text \<open>One round of the outer loop of \<open>tls_sni_parser_feed\<close>.\<close>

definition feed_round ::
  "tls_sni_parser \<Rightarrow> bytes \<Rightarrow> nat \<Rightarrow>
     ((tls_sni_parser \<times> tls_sni_parse_result \<times> string) + tls_sni_parser \<times> bytes) option" where
  "feed_round p data hostname_size =
     (case fill_record_header p data of (p, data) \<Rightarrow>
        if record_header_used p < 5 then Some (Inl (p, TLS_SNI_PARSE_NEED_MORE, []))
        else do {
          opened \<leftarrow> open_record p;
          case opened of
            Inl p \<Rightarrow> Some (Inl (p, TLS_SNI_PARSE_INVALID, []))
          | Inr p \<Rightarrow> do {
              (p, data) \<leftarrow> copy_handshake p data;
              r \<leftarrow> after_copy p hostname_size;
              Some (case r of Inl out \<Rightarrow> Inl out | Inr p \<Rightarrow> Inr (p, data))
            }
        })"

partial_function (option) feed_loop ::
  "tls_sni_parser \<Rightarrow> bytes \<Rightarrow> nat \<Rightarrow> (tls_sni_parser \<times> tls_sni_parse_result \<times> string) option" where
  "feed_loop p data hostname_size =
     (if data = [] then Some (p, TLS_SNI_PARSE_NEED_MORE, [])
      else case feed_round p data hostname_size of
             None \<Rightarrow> None
           | Some (Inl out) \<Rightarrow> Some out
           | Some (Inr (p', data')) \<Rightarrow> feed_loop p' data' hostname_size)"

text \<open>
  The entry point. The input pointer is optional; the parser and the output buffer
  are values of the model and have no NULL.
\<close>

definition tls_sni_parser_feed ::
  "tls_sni_parser \<Rightarrow> bytes option \<Rightarrow> nat \<Rightarrow>
     (tls_sni_parser \<times> tls_sni_parse_result \<times> string) option" where
  "tls_sni_parser_feed p data hostname_size =
     (case data of
        None \<Rightarrow> Some (p, TLS_SNI_PARSE_INVALID, [])
      | Some bs \<Rightarrow>
          if hostname_size = 0 \<or> finished p then Some (p, TLS_SNI_PARSE_INVALID, [])
          else feed_loop p bs hostname_size)"

section \<open>No read outside of the message\<close>

lemma copy_hostname_total: "off + n \<le> length hello \<Longrightarrow> copy_hostname n hello off \<noteq> None"
proof (induction n arbitrary: off)
  case (Suc n)
  then have "copy_hostname n hello (Suc off) \<noteq> None" by simp
  with Suc.prems show ?case by (auto simp: buf_simps)
qed simp

lemma server_name_step_total:
  assumes "e \<le> length hello"
  shows "server_name_step hello hs off e found host \<noteq> None"
proof (cases "e - off < 3")
  case False
  with assms have b: "off < length hello" "Suc (off + 1) < length hello" "off + 3 \<le> e" by auto
  define n where "n = unat (be16 (hello ! (off + 1)) (hello ! Suc (off + 1)))"
  show ?thesis
  proof (cases "n > e - (off + 3)")
    case False
    with b assms have "off + 3 + n \<le> length hello" by simp
    then have "copy_hostname n hello (off + 3) \<noteq> None" by (rule copy_hostname_total)
    with b show ?thesis by (auto simp: server_name_step_def buf_simps n_def Let_def)
  qed (use b in \<open>simp add: server_name_step_def buf_simps n_def\<close>)
qed (simp add: server_name_step_def)

lemma server_name_loop_total:
  "e \<le> length hello \<Longrightarrow> server_name_loop hello hs off e found host \<noteq> None"
proof (induction hello hs off e found host rule: server_name_loop.induct)
  case (1 hello hs off e found host)
  then show ?case
    by (subst server_name_loop.simps)
      (auto simp: server_name_step_total split: option.splits sum.splits)
qed

lemma read_server_names_total:
  assumes "off + unat el \<le> length hello"
  shows "read_server_names hello hs off el found host \<noteq> None"
proof (cases "el < 5")
  case False
  then have "5 \<le> unat el" by (simp add: word_less_nat_alt)
  with assms have b: "Suc off < length hello" by simp
  define n where "n = unat (be16 (hello ! off) (hello ! Suc off))"
  show ?thesis
  proof (cases "n = unat el - 2")
    case True
    with assms \<open>5 \<le> unat el\<close> have "off + 2 + n \<le> length hello" by simp
    then have "server_name_loop hello hs (off + 2) (off + 2 + n) found host \<noteq> None"
      by (rule server_name_loop_total)
    with b True False show ?thesis by (auto simp: read_server_names_def buf_simps n_def)
  qed (use b False in \<open>simp add: read_server_names_def buf_simps n_def\<close>)
qed (simp add: read_server_names_def)

lemma extension_step_total:
  assumes "e \<le> length hello"
  shows "extension_step hello hs off e found host ech \<noteq> None"
proof (cases "e - off < 4")
  case False
  with assms have b: "Suc off < length hello" "Suc (off + 2) < length hello" "off + 4 \<le> e" by auto
  define el where "el = be16 (hello ! (off + 2)) (hello ! Suc (off + 2))"
  show ?thesis
  proof (cases "unat el > e - (off + 4)")
    case False
    with b assms have "off + 4 + unat el \<le> length hello" by simp
    then have "read_server_names hello hs (off + 4) el found host \<noteq> None"
      by (rule read_server_names_total)
    with b show ?thesis by (auto simp: extension_step_def buf_simps el_def Let_def)
  qed (use b in \<open>simp add: extension_step_def buf_simps el_def\<close>)
qed (simp add: extension_step_def)

lemma extensions_loop_total:
  "e \<le> length hello \<Longrightarrow> extensions_loop hello hs off e found host ech \<noteq> None"
proof (induction hello hs off e found host ech rule: extensions_loop.induct)
  case (1 hello hs off e found host ech)
  then show ?case
    by (subst extensions_loop.simps)
      (auto simp: extension_step_total split: option.splits sum.splits)
qed

lemma parse_client_hello_total:
  "len \<le> length hello \<Longrightarrow> parse_client_hello hello len hs ech \<noteq> None"
  by (simp add: parse_client_hello_def Let_def buf_simps bind_Some_eq_None
      extensions_loop_total del: not_None_eq)

end
