(* ===== verification/Stream_Machine.thy ===== *)
theory Stream_Machine
  imports Main
begin

text \<open>
  The interface of an incremental consumer: a machine that is fed a stream in pieces and
  answers \<open>more\<close> until it has decided. The TLS parser promises it; the packet filter, which
  cuts TCP payloads into chunks of its own size, relies on it. What counts for a client is the
  \<open>view\<close> of a result.
\<close>

definition stream_then ::
  "'r \<Rightarrow> ('s \<times> 'r) option \<Rightarrow> ('s \<Rightarrow> ('s \<times> 'r) option) \<Rightarrow> ('s \<times> 'r) option" where
  "stream_then more out k =
     (case out of None \<Rightarrow> None | Some (s, r) \<Rightarrow> if r = more then k s else Some (s, r))"

primrec feed_pieces ::
  "('s \<Rightarrow> 'b list \<Rightarrow> ('s \<times> 'r) option) \<Rightarrow> 'r \<Rightarrow> 'b list list \<Rightarrow> 's \<Rightarrow> ('s \<times> 'r) option" where
  "feed_pieces feed more [] s = Some (s, more)"
| "feed_pieces feed more (c # cs) s = stream_then more (feed s c) (feed_pieces feed more cs)"

locale stream_machine =
  fixes feed :: "'s \<Rightarrow> 'b list \<Rightarrow> ('s \<times> 'r) option"
    and more :: 'r
    and ok :: "'s \<Rightarrow> bool"
    and view :: "'s \<times> 'r \<Rightarrow> 'v"
  assumes feed_Nil: "ok s \<Longrightarrow> feed s [] = Some (s, more)"
    and feed_returns: "ok s \<Longrightarrow> \<exists>s' r. feed s xs = Some (s', r) \<and> (r = more \<longrightarrow> ok s')"
    and feed_append: "ok s \<Longrightarrow> map_option view (feed s (xs @ ys)) =
          map_option view (stream_then more (feed s xs) (\<lambda>s'. feed s' ys))"
begin

lemma then_view_cong:
  assumes "ok s" "\<And>s. ok s \<Longrightarrow> map_option view (k s) = map_option view (k' s)"
  shows "map_option view (stream_then more (feed s xs) k) =
         map_option view (stream_then more (feed s xs) k')"
proof -
  from feed_returns [OF assms(1), of xs] obtain s' r
    where "feed s xs = Some (s', r)" "r = more \<longrightarrow> ok s'" by blast
  then show ?thesis using assms(2) by (simp add: stream_then_def)
qed

lemma pieces_eq_whole:
  "ok s \<Longrightarrow> map_option view (feed_pieces feed more cs s) = map_option view (feed s (concat cs))"
proof (induction cs arbitrary: s)
  case Nil
  then show ?case by (simp add: feed_Nil)
next
  case (Cons c cs)
  then show ?case
    using then_view_cong [OF Cons.prems, of "feed_pieces feed more cs" "\<lambda>s. feed s (concat cs)"]
    by (simp add: feed_append)
qed

lemma pieces_irrelevant:
  "ok s \<Longrightarrow> concat cs = concat ds \<Longrightarrow>
   map_option view (feed_pieces feed more cs s) = map_option view (feed_pieces feed more ds s)"
  by (simp add: pieces_eq_whole)

lemma pieces_return: "ok s \<Longrightarrow> \<exists>out. feed_pieces feed more cs s = Some out"
  using pieces_eq_whole [of s cs] feed_returns [of s "concat cs"] by auto

end

end
