(* ===== verification/Tls_Stream.thy ===== *)
theory Tls_Stream
  imports Tls_Sni_Parser Stream_Machine
begin

text \<open>
  The TLS parser as an incremental consumer: the invariant \<open>tls_wf\<close> between two calls, a
  reference automaton that takes one byte at a time, and the proof that the block copies of
  \<open>tls_sni_parser_feed\<close> agree with it. The interpretation of \<open>stream_machine\<close> at the end gives the
  independence of the segmentation to the other theories.
\<close>

section \<open>The invariant and the byte automaton\<close>

definition tls_wf :: "tls_sni_parser \<Rightarrow> bool" where
  "tls_wf p \<longleftrightarrow>
     \<not> finished p \<and> length (record_header p) = 5 \<and> length (client_hello p) = TLS_CLIENT_HELLO_MAX_SIZE \<and>
     record_header_used p \<le> 5 \<and> (record_header_used p < 5 \<longleftrightarrow> record_remaining p = 0) \<and>
     (if client_hello_expected p = 0 then client_hello_used p < 4
      else 4 \<le> client_hello_used p \<and> client_hello_used p < client_hello_expected p \<and>
           client_hello_expected p \<le> TLS_CLIENT_HELLO_MAX_SIZE) \<and>
     (0 < client_hello_used p \<longrightarrow> client_hello p ! 0 = 1)"

lemma tls_wf_init: "tls_wf tls_sni_parser_init"
  by (simp add: tls_wf_def tls_sni_parser_init_def TLS_CLIENT_HELLO_MAX_SIZE_def)

definition push_header :: "tls_sni_parser \<Rightarrow> u8 \<Rightarrow> tls_sni_parser" where
  "push_header p b =
     p\<lparr>record_header := (record_header p)[record_header_used p := b],
       record_header_used := record_header_used p + 1\<rparr>"

definition put_byte :: "tls_sni_parser \<Rightarrow> u8 \<Rightarrow> tls_sni_parser" where
  "put_byte p b =
     p\<lparr>client_hello := (client_hello p)[client_hello_used p := b],
       client_hello_used := client_hello_used p + 1,
       record_remaining := record_remaining p - 1\<rparr>"

text \<open>
  The reference: a machine that takes one byte at a time. It is what the block copies of
  the code have to agree with.
\<close>

definition feed_byte ::
  "tls_sni_parser \<Rightarrow> u8 \<Rightarrow> nat \<Rightarrow> (tls_sni_parser \<times> tls_sni_parse_result \<times> string) option" where
  "feed_byte p b hostname_size =
     (if record_header_used p < 4 then Some (push_header p b, TLS_SNI_PARSE_NEED_MORE, [])
      else if record_header_used p = 4 then
        map_option (\<lambda>r. case r of Inl p' \<Rightarrow> (p', TLS_SNI_PARSE_INVALID, [])
                                | Inr p' \<Rightarrow> (p', TLS_SNI_PARSE_NEED_MORE, []))
          (open_record (push_header p b))
      else
        map_option (\<lambda>r. case r of Inl out \<Rightarrow> out | Inr p' \<Rightarrow> (p', TLS_SNI_PARSE_NEED_MORE, []))
          (after_copy (put_byte p b) hostname_size))"

lemma fill_push_header:
  "record_header_used p < 5 \<Longrightarrow> fill_record_header p (b # bs) = fill_record_header (push_header p b) bs"
  by (simp add: push_header_def)

declare fill_record_header.simps(2) [simp del]

lemma fill_full [simp]: "record_header_used p = 5 \<Longrightarrow> fill_record_header p bs = (p, bs)"
  by (cases bs) (auto simp: fill_record_header.simps)

lemma parse_client_hello_not_more:
  "parse_client_hello hello len hs ech \<noteq> Some (TLS_SNI_PARSE_NEED_MORE, x)"
  by (auto simp: parse_client_hello_def Let_def bind_eq_Some_conv split: if_splits sum.splits)

lemma open_record_cases:
  assumes "length (record_header p) = 5" "record_header_used p = 5"
    "record_remaining p = 0"
  shows "\<exists>r. open_record p = Some r \<and>
     (\<forall>q. r = Inl q \<longrightarrow> q = p\<lparr>record_remaining := record_remaining q, finished := True\<rparr>) \<and>
     (\<forall>q. r = Inr q \<longrightarrow> record_remaining q \<noteq> 0 \<and> q = p\<lparr>record_remaining := record_remaining q\<rparr>)"
  using assms by (auto simp: open_record_def buf_simps Let_def)

lemma check_length_cases:
  assumes "length (client_hello q) = TLS_CLIENT_HELLO_MAX_SIZE"
  obtains (invalid) p where "check_length q = Some (Inl p)" "finished p"
  | (same) "check_length q = Some (Inr q)"
      "\<not> (client_hello_used q = 4 \<and> client_hello_expected q = 0)"
  | (sized) n where "check_length q = Some (Inr (q\<lparr>client_hello_expected := n\<rparr>))"
      "client_hello_used q = 4" "client_hello_expected q = 0"
      "4 < n" "n \<le> TLS_CLIENT_HELLO_MAX_SIZE"
proof -
  define n where "n = (push_bit 16 (unat (client_hello q ! 1)) OR push_bit 8 (unat (client_hello q ! 2)) OR
    unat (client_hello q ! 3)) + 4"
  have "check_length q =
    (if client_hello_used q = 4 \<and> client_hello_expected q = 0
     then if n > TLS_CLIENT_HELLO_MAX_SIZE \<or> n \<le> 4
          then Some (Inl (q\<lparr>client_hello_expected := n, finished := True\<rparr>))
          else Some (Inr (q\<lparr>client_hello_expected := n\<rparr>))
     else Some (Inr q))"
    using assms by (simp add: check_length_def buf_simps Let_def TLS_CLIENT_HELLO_MAX_SIZE_def n_def)
  then show ?thesis
    using invalid same sized by (auto split: if_splits simp: not_less not_le)
qed

text \<open>How a round ends once the length is known.\<close>

lemma after_check:
  assumes q: "\<not> finished q" "length (record_header q) = 5" "record_header_used q = 5"
      "length (client_hello q) = TLS_CLIENT_HELLO_MAX_SIZE" "client_hello q ! 0 = 1"
    and u: "1 \<le> client_hello_used q"
      "if client_hello_expected q = 0 then client_hello_used q < 4
       else 4 \<le> client_hello_used q \<and> client_hello_used q \<le> client_hello_expected q \<and>
            client_hello_expected q \<le> TLS_CLIENT_HELLO_MAX_SIZE"
    and c: "check_length p = Some (Inr q)" "client_hello p = client_hello q"
  shows "(\<exists>p' r h. after_copy p hs = Some (Inl (p', r, h)) \<and> r \<noteq> TLS_SNI_PARSE_NEED_MORE \<and> finished p') \<or>
         (\<exists>p'. after_copy p hs = Some (Inr p') \<and> tls_wf p')"
proof -
  have b: "byte_at (client_hello p) 0 = Some 1"
    using q c by (simp add: byte_at_def TLS_CLIENT_HELLO_MAX_SIZE_def)
  show ?thesis
  proof (cases "client_hello_expected q > 0 \<and> client_hello_used q = client_hello_expected q")
    case True
    then have "client_hello_expected q \<le> length (client_hello q)" using q u by simp
    then obtain r ech h where
      r: "parse_client_hello (client_hello q) (client_hello_expected q) hs (ech_present q) = Some (r, ech, h)"
      using parse_client_hello_total by (metis not_None_eq prod_cases3)
    moreover from r have "r \<noteq> TLS_SNI_PARSE_NEED_MORE"
      using parse_client_hello_not_more by metis
    ultimately show ?thesis using True b c by (simp add: after_copy_def)
  next
    case False
    then show ?thesis using q u b c by (auto simp: after_copy_def tls_wf_def split: if_splits)
  qed
qed

lemma after_copy_cases:
  assumes q: "\<not> finished q" "length (record_header q) = 5" "record_header_used q = 5"
      "length (client_hello q) = TLS_CLIENT_HELLO_MAX_SIZE"
    and u: "1 \<le> client_hello_used q"
      "if client_hello_expected q = 0 then client_hello_used q \<le> 4
       else 4 \<le> client_hello_used q \<and> client_hello_used q \<le> client_hello_expected q \<and>
            client_hello_expected q \<le> TLS_CLIENT_HELLO_MAX_SIZE"
  shows "(\<exists>p' r h. after_copy q hs = Some (Inl (p', r, h)) \<and> r \<noteq> TLS_SNI_PARSE_NEED_MORE \<and> finished p') \<or>
         (\<exists>p'. after_copy q hs = Some (Inr p') \<and> tls_wf p')"
proof (cases "client_hello q ! 0 = 1")
  case first: True
  from q(4) show ?thesis
  proof (cases rule: check_length_cases)
    case (invalid p)
    then show ?thesis using first q u
      by (simp add: after_copy_def byte_at_def TLS_CLIENT_HELLO_MAX_SIZE_def)
  next
    case same
    show ?thesis
      by (rule after_check [where q = q]) (use same first q u in \<open>auto split: if_splits\<close>)
  next
    case (sized n)
    show ?thesis
      by (rule after_check [where q = "q\<lparr>client_hello_expected := n\<rparr>"])
        (use sized first q u in \<open>auto split: if_splits\<close>)
  qed
qed (use q u in \<open>simp add: after_copy_def byte_at_def TLS_CLIENT_HELLO_MAX_SIZE_def\<close>)


definition feed_ok :: "(tls_sni_parser \<times> tls_sni_parse_result \<times> string) option \<Rightarrow> bool" where
  "feed_ok out \<longleftrightarrow>
     (case out of None \<Rightarrow> False
      | Some (p, r, h) \<Rightarrow> if r = TLS_SNI_PARSE_NEED_MORE then tls_wf p \<and> h = [] else finished p)"

lemma feed_ok_cases:
  assumes "feed_ok out"
  obtains (more) p where "out = Some (p, TLS_SNI_PARSE_NEED_MORE, [])" "tls_wf p"
  | (final) p r h where "out = Some (p, r, h)" "r \<noteq> TLS_SNI_PARSE_NEED_MORE" "finished p"
  using assms by (auto simp: feed_ok_def split: option.splits if_splits)

lemma after_put_cases:
  assumes "tls_wf p" "record_header_used p = 5"
  obtains (final) p' r h where "after_copy (put_byte p b) hs = Some (Inl (p', r, h))"
      "r \<noteq> TLS_SNI_PARSE_NEED_MORE" "finished p'"
  | (more) p' where "after_copy (put_byte p b) hs = Some (Inr p')" "tls_wf p'"
proof -
  have "(\<exists>p' r h. after_copy (put_byte p b) hs = Some (Inl (p', r, h)) \<and>
           r \<noteq> TLS_SNI_PARSE_NEED_MORE \<and> finished p') \<or>
        (\<exists>p'. after_copy (put_byte p b) hs = Some (Inr p') \<and> tls_wf p')"
    by (rule after_copy_cases) (use assms in \<open>auto simp: tls_wf_def put_byte_def split: if_splits\<close>)
  then show ?thesis using final more by blast
qed

lemma feed_byte_ok:
  assumes wf: "tls_wf p"
  shows "feed_ok (feed_byte p b hs)"
proof -
  from wf have "record_header_used p \<le> 5" by (simp add: tls_wf_def)
  then consider "record_header_used p < 4" | "record_header_used p = 4" | "record_header_used p = 5"
    by linarith
  then show ?thesis
  proof cases
    case 1
    with wf show ?thesis
      by (auto simp: feed_ok_def feed_byte_def tls_wf_def push_header_def split: if_splits)
  next
    case 2
    with wf have "length (record_header (push_header p b)) = 5"
      "record_header_used (push_header p b) = 5" "record_remaining (push_header p b) = 0"
      by (auto simp: tls_wf_def push_header_def)
    from open_record_cases [OF this] obtain r where r: "open_record (push_header p b) = Some r"
      and l: "\<And>q. r = Inl q \<Longrightarrow>
          q = push_header p b\<lparr>record_remaining := record_remaining q, finished := True\<rparr>"
      and k: "\<And>q. r = Inr q \<Longrightarrow> record_remaining q \<noteq> 0 \<and>
          q = push_header p b\<lparr>record_remaining := record_remaining q\<rparr>"
      by auto
    show ?thesis
    proof (cases r)
      case (Inl q)
      then have "finished q" using l [OF Inl] by (cases q) simp
      with r Inl 2 show ?thesis by (simp add: feed_ok_def feed_byte_def)
    next
      case (Inr q)
      then obtain n where "n \<noteq> 0" "q = push_header p b\<lparr>record_remaining := n\<rparr>" using k by blast
      with wf 2 have "tls_wf q" by (auto simp: tls_wf_def push_header_def split: if_splits)
      with r Inr 2 show ?thesis by (simp add: feed_ok_def feed_byte_def)
    qed
  next
    case 3
    from wf 3 show ?thesis
      by (cases rule: after_put_cases [where b = b and hs = hs])
        (use 3 in \<open>simp_all add: feed_ok_def feed_byte_def\<close>)
  qed
qed

text \<open>
  What the caller sees of a result: the parse result, the host name, the two flags, and the
  whole state as long as more input is wanted. After the final result the contents of
  the arrays are never read again.
\<close>

definition feed_view ::
  "tls_sni_parser \<times> tls_sni_parse_result \<times> string \<Rightarrow>
     tls_sni_parse_result \<times> string \<times> bool \<times> bool \<times> tls_sni_parser option" where
  "feed_view out = (case out of (p, r, h) \<Rightarrow>
     (r, h, ech_present p, finished p, if r = TLS_SNI_PARSE_NEED_MORE then Some p else None))"

abbreviation tls_more :: "tls_sni_parse_result \<times> string" where
  "tls_more \<equiv> (TLS_SNI_PARSE_NEED_MORE, [])"

abbreviation feed_then ::
  "(tls_sni_parser \<times> tls_sni_parse_result \<times> string) option \<Rightarrow>
   (tls_sni_parser \<Rightarrow> (tls_sni_parser \<times> tls_sni_parse_result \<times> string) option) \<Rightarrow>
   (tls_sni_parser \<times> tls_sni_parse_result \<times> string) option" where
  "feed_then \<equiv> stream_then tls_more"

lemma feed_ok_more [simp]: "feed_ok (Some (p, TLS_SNI_PARSE_NEED_MORE, h)) \<longleftrightarrow> tls_wf p \<and> h = []"
  by (simp add: feed_ok_def)

lemma feed_ok_final [simp]:
  "r \<noteq> TLS_SNI_PARSE_NEED_MORE \<Longrightarrow> feed_ok (Some (p, r, h)) \<longleftrightarrow> finished p"
  by (simp add: feed_ok_def)

lemma feed_loop_Nil [simp]: "feed_loop p [] hs = Some (p, TLS_SNI_PARSE_NEED_MORE, [])"
  by (simp add: feed_loop.simps)

lemma feed_loop_unfold:
  "data \<noteq> [] \<Longrightarrow> feed_loop p data hs =
     (case feed_round p data hs of None \<Rightarrow> None | Some (Inl out) \<Rightarrow> Some out
      | Some (Inr (p', data')) \<Rightarrow> feed_loop p' data' hs)"
  by (simp add: feed_loop.simps)

lemma feed_loop_cong_round:
  "data \<noteq> [] \<Longrightarrow> data' \<noteq> [] \<Longrightarrow> feed_round p data hs = feed_round p' data' hs \<Longrightarrow>
   feed_loop p data hs = feed_loop p' data' hs"
  by (simp add: feed_loop_unfold)

text \<open>The three positions of the record layer, one lemma each.\<close>

lemma feed_loop_header:
  assumes "record_header_used p < 4"
  shows "feed_loop p (b # bs) hs = feed_then (feed_byte p b hs) (\<lambda>p'. feed_loop p' bs hs)"
proof (cases bs)
  case Nil
  with assms show ?thesis
    by (simp add: feed_loop_unfold feed_round_def fill_push_header stream_then_def feed_byte_def)
      (simp add: push_header_def)
next
  case (Cons c cs)
  have "feed_loop p (b # bs) hs = feed_loop (push_header p b) bs hs"
    by (rule feed_loop_cong_round) (use assms Cons in \<open>simp_all add: feed_round_def fill_push_header\<close>)
  with assms show ?thesis by (simp add: stream_then_def feed_byte_def)
qed

lemma after_copy_idle:
  assumes "tls_wf p" "record_header_used p = 5"
  shows "after_copy p hs = Some (Inr p)"
  using assms
  by (auto simp: after_copy_def tls_wf_def byte_at_def check_length_def TLS_CLIENT_HELLO_MAX_SIZE_def
      split: if_splits)

lemma copy_handshake_Nil:
  "tls_wf p \<Longrightarrow> copy_handshake p [] = Some (p, [])"
  by (auto simp: copy_handshake_def tls_wf_def TLS_CLIENT_HELLO_MAX_SIZE_def split: if_splits)

lemma feed_loop_header_end:
  assumes wf: "tls_wf p" and u: "record_header_used p = 4"
  shows "feed_loop p (b # bs) hs = feed_then (feed_byte p b hs) (\<lambda>p'. feed_loop p' bs hs)"
proof -
  let ?q = "push_header p b"
  have uq: "record_header_used ?q = 5" using u by (simp add: push_header_def)
  from feed_byte_ok [OF wf, of b hs] u obtain r where r: "open_record ?q = Some r"
    by (auto simp: feed_ok_def feed_byte_def split: option.splits)
  show ?thesis
  proof (cases r)
    case (Inl q)
    with r u uq show ?thesis
      by (simp add: feed_loop_unfold feed_round_def fill_push_header stream_then_def feed_byte_def)
  next
    case (Inr q)
    with feed_byte_ok [OF wf, of b hs] u r have wq: "tls_wf q"
      by (simp add: feed_ok_def feed_byte_def)
    have uq': "record_header_used q = 5" using r Inr uq
      by (auto simp: open_record_def Let_def bind_eq_Some_conv split: if_splits)
    then have rq: "open_record q = Some (Inr q)" using wq by (auto simp: open_record_def tls_wf_def)
    show ?thesis
    proof (cases bs)
      case Nil
      with r Inr u uq wq uq' show ?thesis
        by (simp add: feed_loop_unfold feed_round_def fill_push_header stream_then_def feed_byte_def
            copy_handshake_Nil after_copy_idle)
    next
      case (Cons c cs)
      have "feed_loop p (b # bs) hs = feed_loop q bs hs"
        by (rule feed_loop_cong_round)
          (use Cons r Inr u uq uq' rq in \<open>simp_all add: feed_round_def fill_push_header\<close>)
      with r Inr u show ?thesis by (simp add: stream_then_def feed_byte_def)
    qed
  qed
qed


lemma take_Suc_write_at:
  assumes "off < length buf" "xs \<noteq> []"
  shows "write_at buf off xs = write_at (buf[off := hd xs]) (Suc off) (tl xs)"
  using assms by (cases xs) (simp_all add: write_at_def take_Suc_conv_app_nth)

definition copy_count :: "tls_sni_parser \<Rightarrow> bytes \<Rightarrow> nat" where
  "copy_count p data = min (min (length data) (unat (record_remaining p))) (wanted_bytes p)"

lemma copy_handshake_alt:
  "copy_handshake p data =
     (let n = copy_count p data in
      if client_hello_used p + n > length (client_hello p) then None
      else Some (p\<lparr>client_hello := write_at (client_hello p) (client_hello_used p) (take n data),
                   client_hello_used := client_hello_used p + n,
                   record_remaining := record_remaining p - of_nat n\<rparr>, drop n data))"
proof -
  have "(if (if length data > unat (record_remaining p) then unat (record_remaining p)
             else length data) > wanted_bytes p then wanted_bytes p
         else (if length data > unat (record_remaining p) then unat (record_remaining p)
             else length data)) = copy_count p data"
    by (auto simp: copy_count_def min_def)
  then show ?thesis by (simp add: copy_handshake_def Let_def)
qed

lemma wf_body:
  assumes "tls_wf p" "record_header_used p = 5"
  shows "record_remaining p \<noteq> 0" "0 < wanted_bytes p"
    "client_hello_used p + wanted_bytes p \<le> length (client_hello p)"
    "client_hello_used p < length (client_hello p)"
  using assms by (auto simp: tls_wf_def wanted_bytes_def TLS_CLIENT_HELLO_MAX_SIZE_def split: if_splits)

lemma copy_handshake_one:
  assumes "tls_wf p" "record_header_used p = 5" "copy_count p (b # bs) = 1"
  shows "copy_handshake p (b # bs) = Some (put_byte p b, bs)"
  using wf_body [OF assms(1,2)] assms(3)
  by (simp add: copy_handshake_alt put_byte_def write_at_def upd_conv_take_nth_drop not_less)

lemma copy_handshake_more:
  assumes wf: "tls_wf p" "record_header_used p = 5" and n: "copy_count p (b # bs) > 1"
  shows "copy_handshake p (b # bs) = copy_handshake (put_byte p b) bs"
proof -
  let ?q = "put_byte p b"
  note body = wf_body [OF wf]
  have r: "unat (record_remaining ?q) = unat (record_remaining p) - 1"
    using body(1) by (simp add: put_byte_def unat_minus_one)
  have w: "wanted_bytes ?q = wanted_bytes p - 1"
    using n by (auto simp: wanted_bytes_def put_byte_def copy_count_def)
  have c: "copy_count p (b # bs) = Suc (copy_count ?q bs)"
    using n r w by (auto simp: copy_count_def min_def split: if_splits)
  have "client_hello_used p + copy_count p (b # bs) \<le> length (client_hello p)"
    using body(3) by (auto simp: copy_count_def)
  then show ?thesis
    using c body(4)
    by (simp add: copy_handshake_alt Let_def take_Suc_write_at [of _ _ "b # _"])
      (simp add: put_byte_def algebra_simps)
qed


lemma feed_round_body:
  "record_header_used p = 5 \<Longrightarrow> record_remaining p \<noteq> 0 \<Longrightarrow> feed_round p data hs =
     do { (p, data) \<leftarrow> copy_handshake p data;
          r \<leftarrow> after_copy p hs;
          Some (case r of Inl out \<Rightarrow> Inl out | Inr p \<Rightarrow> Inr (p, data)) }"
  by (simp add: feed_round_def open_record_def)

lemma put_byte_inside:
  assumes wf: "tls_wf p" "record_header_used p = 5" and n: "copy_count p (b # bs) > 1"
    and b: "client_hello_used p = 0 \<Longrightarrow> b = 1"
  shows "tls_wf (put_byte p b)" "record_header_used (put_byte p b) = 5"
proof -
  have "record_remaining p \<noteq> 1" using n by (auto simp: copy_count_def)
  then show "tls_wf (put_byte p b)"
    using wf n b
    by (cases "client_hello_used p = 0")
      (auto simp: tls_wf_def put_byte_def copy_count_def wanted_bytes_def TLS_CLIENT_HELLO_MAX_SIZE_def
        split: if_splits)
  show "record_header_used (put_byte p b) = 5" using wf by (simp add: put_byte_def)
qed

lemma bad_first_byte:
  assumes "client_hello_used p = 0" "length (client_hello p) = TLS_CLIENT_HELLO_MAX_SIZE"
    "b \<noteq> 1" "copy_count p (b # bs) > 0"
    "copy_count p (b # bs) \<le> length (client_hello p)"
    "record_header_used p = 5" "record_remaining p \<noteq> 0"
  obtains q where "feed_round p (b # bs) hs = Some (Inl (q, TLS_SNI_PARSE_INVALID, []))"
    "finished q" "ech_present q = ech_present p"
proof -
  let ?n = "copy_count p (b # bs)"
  let ?q = "p\<lparr>client_hello := write_at (client_hello p) 0 (take ?n (b # bs)),
              client_hello_used := ?n, record_remaining := record_remaining p - of_nat ?n\<rparr>"
  have "?n \<le> length (b # bs)" by (simp add: copy_count_def)
  then have "byte_at (client_hello ?q) 0 = Some b"
    using assms by (cases ?n) (auto simp: byte_at_def nth_write_at TLS_CLIENT_HELLO_MAX_SIZE_def write_at_def)
  moreover have "copy_handshake p (b # bs) = Some (?q, drop ?n (b # bs))"
    using assms by (simp add: copy_handshake_alt Let_def)
  ultimately show ?thesis
    using that [of "?q\<lparr>finished := True\<rparr>"] assms by (simp add: feed_round_body after_copy_def Suc_le_eq)
qed

lemma feed_loop_body:
  assumes wf: "tls_wf p" and u: "record_header_used p = 5"
  shows "map_option feed_view (feed_loop p (b # bs) hs) =
         map_option feed_view (feed_then (feed_byte p b hs) (\<lambda>p'. feed_loop p' bs hs))"
proof -
  note body = wf_body [OF wf u]
  have "0 < unat (record_remaining p)" using body(1) by (simp add: unat_gt_0)
  then have pos: "0 < copy_count p (b # bs)" using body(2) by (simp add: copy_count_def)
  then consider "copy_count p (b # bs) = 1"
    | "copy_count p (b # bs) > 1" "client_hello_used p = 0 \<longrightarrow> b = 1"
    | "client_hello_used p = 0" "b \<noteq> 1" by linarith
  then show ?thesis
  proof cases
    case 1
    note copy = copy_handshake_one [OF wf u 1]
    from wf u show ?thesis
      by (cases rule: after_put_cases [where b = b and hs = hs])
        (use copy body(1) u in \<open>simp_all add: feed_loop_unfold feed_round_body feed_byte_def stream_then_def\<close>)
  next
    case 2
    let ?q = "put_byte p b"
    have q: "tls_wf ?q" "record_header_used ?q = 5" using put_byte_inside [OF wf u 2(1)] 2(2) by auto
    have "bs \<noteq> []" using 2(1) by (auto simp: copy_count_def)
    then have "feed_loop p (b # bs) hs = feed_loop ?q bs hs"
      using copy_handshake_more [OF wf u 2(1)] body(1) u q wf_body(1) [OF q]
      by (intro feed_loop_cong_round) (simp_all add: feed_round_body)
    then show ?thesis
      using u by (simp add: feed_byte_def stream_then_def after_copy_idle [OF q])
  next
    case 3
    have l: "length (client_hello p) = TLS_CLIENT_HELLO_MAX_SIZE" using wf by (simp add: tls_wf_def)
    have "copy_count p (b # bs) \<le> wanted_bytes p" by (simp add: copy_count_def)
    then have "copy_count p (b # bs) \<le> length (client_hello p)" using body(3) by simp
    from bad_first_byte [OF 3(1) l 3(2) pos this u body(1), of hs] obtain q where
      "feed_round p (b # bs) hs = Some (Inl (q, TLS_SNI_PARSE_INVALID, []))"
      "finished q" "ech_present q = ech_present p" by blast
    then show ?thesis
      using 3 u l by (simp add: feed_loop_unfold feed_byte_def stream_then_def feed_view_def
          after_copy_def put_byte_def byte_at_def TLS_CLIENT_HELLO_MAX_SIZE_def)
  qed
qed

lemma feed_loop_Cons:
  assumes wf: "tls_wf p"
  shows "map_option feed_view (feed_loop p (b # bs) hs) =
         map_option feed_view (feed_then (feed_byte p b hs) (\<lambda>p'. feed_loop p' bs hs))"
proof -
  from wf have "record_header_used p \<le> 5" by (simp add: tls_wf_def)
  then consider "record_header_used p < 4" | "record_header_used p = 4" | "record_header_used p = 5"
    by linarith
  then show ?thesis
    using wf by cases (simp_all only: feed_loop_header feed_loop_header_end feed_loop_body)
qed

primrec feed_bytes ::
  "bytes \<Rightarrow> tls_sni_parser \<Rightarrow> nat \<Rightarrow> (tls_sni_parser \<times> tls_sni_parse_result \<times> string) option" where
  "feed_bytes [] p hs = Some (p, TLS_SNI_PARSE_NEED_MORE, [])"
| "feed_bytes (b # bs) p hs = feed_then (feed_byte p b hs) (\<lambda>p'. feed_bytes bs p' hs)"

lemma feed_then_view_cong:
  assumes "feed_ok out" "\<And>p. tls_wf p \<Longrightarrow> map_option feed_view (k p) = map_option feed_view (k' p)"
  shows "map_option feed_view (feed_then out k) = map_option feed_view (feed_then out k')"
  using assms(1) by (cases rule: feed_ok_cases) (simp_all add: stream_then_def assms(2))

lemma feed_then_ok:
  assumes "feed_ok out" "\<And>p. tls_wf p \<Longrightarrow> feed_ok (k p)"
  shows "feed_ok (feed_then out k)"
  using assms(1) by (cases rule: feed_ok_cases) (simp_all add: stream_then_def assms(2))

lemma feed_bytes_ok: "tls_wf p \<Longrightarrow> feed_ok (feed_bytes bs p hs)"
proof (induction bs arbitrary: p)
  case Nil
  then show ?case by (simp add: feed_ok_def)
next
  case (Cons b bs)
  then show ?case by (simp add: feed_then_ok feed_byte_ok)
qed

lemma feed_loop_bytes:
  "tls_wf p \<Longrightarrow> map_option feed_view (feed_loop p bs hs) = map_option feed_view (feed_bytes bs p hs)"
proof (induction bs arbitrary: p)
  case (Cons b bs)
  have "map_option feed_view (feed_loop p (b # bs) hs) =
        map_option feed_view (feed_then (feed_byte p b hs) (\<lambda>p'. feed_loop p' bs hs))"
    using Cons.prems by (rule feed_loop_Cons)
  also have "\<dots> = map_option feed_view (feed_then (feed_byte p b hs) (\<lambda>p'. feed_bytes bs p' hs))"
    using feed_byte_ok [OF Cons.prems] Cons.IH by (rule feed_then_view_cong)
  finally show ?case by simp
qed simp


lemma stream_then_assoc:
  "stream_then m (stream_then m out k) k' = stream_then m out (\<lambda>s. stream_then m (k s) k')"
  by (simp add: stream_then_def split: option.splits prod.splits)

lemma feed_bytes_append:
  "feed_bytes (xs @ ys) p hs = feed_then (feed_bytes xs p hs) (\<lambda>p'. feed_bytes ys p' hs)"
  by (induction xs arbitrary: p) (simp_all add: stream_then_assoc, simp add: stream_then_def)

lemma feed_view_more:
  "map_option feed_view out = Some (feed_view (p, tls_more)) \<Longrightarrow> out = Some (p, tls_more)"
  by (auto simp: feed_view_def split: if_splits)

text \<open>A result and another one with the same view continue in the same way.\<close>

lemma feed_view_then:
  assumes "feed_ok out'" "map_option feed_view out = map_option feed_view out'"
  shows "map_option feed_view (feed_then out k) = map_option feed_view (feed_then out' k)"
  using assms(1)
proof (cases rule: feed_ok_cases)
  case (more p)
  with assms(2) have "out = Some (p, tls_more)" using feed_view_more [of out p] by simp
  with more show ?thesis by simp
next
  case (final p r h)
  with assms(2) obtain q where "out = Some (q, r, h)" "feed_view (q, r, h) = feed_view (p, r, h)"
    by (auto simp: feed_view_def)
  with final show ?thesis by (simp add: stream_then_def)
qed

lemma feed_loop_ok:
  assumes "tls_wf p"
  shows "feed_ok (feed_loop p bs hs)"
  using feed_bytes_ok [OF assms, of bs hs]
proof (cases rule: feed_ok_cases)
  case (more q)
  then have "feed_loop p bs hs = Some (q, tls_more)"
    using feed_loop_bytes [OF assms, of bs hs] feed_view_more [of "feed_loop p bs hs" q] by simp
  with more show ?thesis by simp
next
  case (final q r h)
  with feed_loop_bytes [OF assms, of bs hs] show ?thesis
    by (auto simp: feed_view_def split: option.splits)
qed

lemma feed_loop_append:
  assumes "tls_wf p"
  shows "map_option feed_view (feed_loop p (xs @ ys) hs) =
         map_option feed_view (feed_then (feed_loop p xs hs) (\<lambda>p'. feed_loop p' ys hs))"
proof -
  have "map_option feed_view (feed_loop p (xs @ ys) hs) =
        map_option feed_view (feed_then (feed_bytes xs p hs) (\<lambda>p'. feed_bytes ys p' hs))"
    using assms by (simp add: feed_loop_bytes feed_bytes_append)
  also have "\<dots> = map_option feed_view (feed_then (feed_bytes xs p hs) (\<lambda>p'. feed_loop p' ys hs))"
    using feed_bytes_ok [OF assms] by (rule feed_then_view_cong) (simp add: feed_loop_bytes)
  also have "\<dots> = map_option feed_view (feed_then (feed_loop p xs hs) (\<lambda>p'. feed_loop p' ys hs))"
    using feed_loop_ok [OF assms]
    by (rule feed_view_then) (use assms in \<open>simp add: feed_loop_bytes\<close>)
  finally show ?thesis .
qed

lemma feed_ok_returns:
  "feed_ok out \<Longrightarrow> \<exists>p' r. out = Some (p', r) \<and> (r = tls_more \<longrightarrow> tls_wf p')"
  by (erule feed_ok_cases) auto

interpretation tls: stream_machine
  "\<lambda>p bs. tls_sni_parser_feed p (Some bs) (Suc n)" tls_more tls_wf feed_view for n
proof unfold_locales
  fix p :: tls_sni_parser and xs ys :: bytes
  assume wf: "tls_wf p"
  then have feed: "\<And>zs. tls_sni_parser_feed p (Some zs) (Suc n) = feed_loop p zs (Suc n)"
    by (simp add: tls_sni_parser_feed_def tls_wf_def)
  show "tls_sni_parser_feed p (Some []) (Suc n) = Some (p, tls_more)"
    by (simp add: feed)
  show "\<exists>p' r. tls_sni_parser_feed p (Some xs) (Suc n) = Some (p', r) \<and> (r = tls_more \<longrightarrow> tls_wf p')"
    unfolding feed using feed_loop_ok [OF wf] by (rule feed_ok_returns)
  have "map_option feed_view (feed_then (feed_loop p xs (Suc n)) (\<lambda>p'. feed_loop p' ys (Suc n))) =
        map_option feed_view (feed_then (feed_loop p xs (Suc n))
          (\<lambda>p'. tls_sni_parser_feed p' (Some ys) (Suc n)))"
    using feed_loop_ok [OF wf]
    by (rule feed_then_view_cong) (simp add: tls_sni_parser_feed_def tls_wf_def)
  then show "map_option feed_view (tls_sni_parser_feed p (Some (xs @ ys)) (Suc n)) =
        map_option feed_view (feed_then (tls_sni_parser_feed p (Some xs) (Suc n))
          (\<lambda>p'. tls_sni_parser_feed p' (Some ys) (Suc n)))"
    by (simp add: feed feed_loop_append [OF wf])
qed

end
