(* ===== verification/Tls_Hello.thy ===== *)
theory Tls_Hello
  imports Tls_Stream
begin

text \<open>
  The structure of a ClientHello as data (version and random, session id, cipher suites, compression
  methods, extensions with their lists of server names), how it is written as bytes, and what the firmware
  takes it to mean. The parser of the message computes that meaning from the bytes.
\<close>

section \<open>Reading what was written\<close>

definition enc16 :: "nat \<Rightarrow> bytes" where
  "enc16 n = [of_nat (n div 256), of_nat n]"

lemma length_enc16 [simp]: "length (enc16 n) = 2"
  by (simp add: enc16_def)

lemma be16_enc16:
  assumes "n < 65536"
  shows "be16 (of_nat (n div 256)) (of_nat n) = of_nat n"
proof -
  have "unat (be16 (of_nat (n div 256)) (of_nat n)) = unat (of_nat n :: u16)"
    using assms by (simp add: unat_be16 unat_of_nat)
  then show ?thesis by (simp only: word_unat_eq_iff)
qed

lemma byte_at_append [buf_simps]: "byte_at (pre @ b # rest) (length pre) = Some b"
  by (simp add: byte_at_def)

lemma u16_at_append [buf_simps]:
  "n < 65536 \<Longrightarrow> u16_at (pre @ enc16 n @ rest) (length pre) = Some (of_nat n)"
  by (simp add: u16_at_def byte_at_def enc16_def nth_append be16_enc16)

lemma unat_of_nat_u16: "n < 65536 \<Longrightarrow> unat (of_nat n :: u16) = n"
  by (simp add: unat_of_nat)

section \<open>The structure of a ClientHello\<close>

text \<open>A ServerNameList entry is a name type and a name.\<close>

type_synonym server_name = "u8 \<times> bytes"

datatype extension = Server_Name "server_name list" | Other u16 bytes

definition enc_name :: "server_name \<Rightarrow> bytes" where
  "enc_name x = fst x # enc16 (length (snd x)) @ snd x"

definition enc_names :: "server_name list \<Rightarrow> bytes" where
  "enc_names ns = concat (map enc_name ns)"

fun ext_type :: "extension \<Rightarrow> u16" where
  "ext_type (Server_Name ns) = TLS_EXTENSION_SERVER_NAME"
| "ext_type (Other t b) = t"

fun ext_body :: "extension \<Rightarrow> bytes" where
  "ext_body (Server_Name ns) = enc16 (length (enc_names ns)) @ enc_names ns"
| "ext_body (Other t b) = b"

definition enc_ext :: "extension \<Rightarrow> bytes" where
  "enc_ext e = enc16 (unat (ext_type e)) @ enc16 (length (ext_body e)) @ ext_body e"

definition enc_exts :: "extension list \<Rightarrow> bytes" where
  "enc_exts es = concat (map enc_ext es)"

fun ext_ok :: "extension \<Rightarrow> bool" where
  "ext_ok (Server_Name ns) \<longleftrightarrow> (\<forall>x \<in> set ns. length (snd x) < 65536)"
| "ext_ok (Other t b) \<longleftrightarrow> t \<noteq> TLS_EXTENSION_SERVER_NAME"

record client_hello_msg =
  version_random :: bytes
  session_id :: bytes
  cipher_suites :: bytes
  compression :: bytes
  extensions :: "extension list option"

definition hello_ok :: "client_hello_msg \<Rightarrow> bool" where
  "hello_ok m \<longleftrightarrow>
     length (version_random m) = 34 \<and> length (session_id m) < 256 \<and>
     2 \<le> length (cipher_suites m) \<and> even (length (cipher_suites m)) \<and> length (cipher_suites m) < 65536 \<and>
     1 \<le> length (compression m) \<and> length (compression m) < 256 \<and>
     (\<forall>es. extensions m = Some es \<longrightarrow> length (enc_exts es) < 65536 \<and> (\<forall>e \<in> set es. ext_ok e))"

definition enc_body :: "client_hello_msg \<Rightarrow> bytes" where
  "enc_body m =
     version_random m @ of_nat (length (session_id m)) # session_id m @
     enc16 (length (cipher_suites m)) @ cipher_suites m @
     of_nat (length (compression m)) # compression m @
     (case extensions m of None \<Rightarrow> [] | Some es \<Rightarrow> enc16 (length (enc_exts es)) @ enc_exts es)"

definition enc_hello :: "client_hello_msg \<Rightarrow> bytes" where
  "enc_hello m =
     1 # of_nat (length (enc_body m) div 65536) # enc16 (length (enc_body m)) @ enc_body m"

section \<open>What the extensions mean\<close>

definition hostname_byte :: "u8 \<Rightarrow> bool" where
  "hostname_byte b \<longleftrightarrow> 0x21 \<le> b \<and> b \<le> 0x7E"

definition lower_name :: "bytes \<Rightarrow> string" where
  "lower_name n = map (\<lambda>b. char_of (c_tolower (unat b))) n"

fun names_meaning :: "nat \<Rightarrow> server_name list \<Rightarrow> bool \<Rightarrow> string \<Rightarrow> unit + bool \<times> string" where
  "names_meaning hs [] found host = Inr (found, host)"
| "names_meaning hs ((t, n) # ns) found host =
     (if t = 0 then
        if found \<or> n = [] \<or> hs \<le> length n \<or> \<not> list_all hostname_byte n then Inl ()
        else names_meaning hs ns True (lower_name n)
      else names_meaning hs ns found host)"

fun exts_meaning ::
  "nat \<Rightarrow> extension list \<Rightarrow> bool \<Rightarrow> string \<Rightarrow> bool \<Rightarrow> bool + bool \<times> string \<times> bool" where
  "exts_meaning hs [] found host ech = Inr (found, host, ech)"
| "exts_meaning hs (Server_Name ns # es) found host ech =
     (if ns = [] then Inl ech
      else case names_meaning hs ns found host of
             Inl u \<Rightarrow> Inl ech
           | Inr (found, host) \<Rightarrow> exts_meaning hs es found host ech)"
| "exts_meaning hs (Other t b # es) found host ech =
     exts_meaning hs es found host (ech \<or> t = TLS_EXTENSION_ECH)"

definition hello_meaning ::
  "nat \<Rightarrow> client_hello_msg \<Rightarrow> bool \<Rightarrow> tls_sni_parse_result \<times> bool \<times> string" where
  "hello_meaning hs m ech =
     (case extensions m of
        None \<Rightarrow> (TLS_SNI_PARSE_NO_SNI, ech, [])
      | Some es \<Rightarrow>
          (case exts_meaning hs es False [] ech of
             Inl ech \<Rightarrow> (TLS_SNI_PARSE_INVALID, ech, [])
           | Inr (found, host, ech) \<Rightarrow>
               if found then (TLS_SNI_PARSE_FOUND, ech, host) else (TLS_SNI_PARSE_NO_SNI, ech, [])))"

section \<open>The parser computes the meaning\<close>

lemma invalid_byte: "(v = 0 \<or> v < 0x21 \<or> v > (0x7E :: u8)) \<longleftrightarrow> \<not> hostname_byte v"
  by (auto simp: hostname_byte_def not_le)

lemma copy_hostname_enc:
  "copy_hostname (length n) (pre @ n @ rest) (length pre) =
     Some (if list_all hostname_byte n then Some (lower_name n) else None)"
proof (induction n arbitrary: pre)
  case Nil
  then show ?case by (simp add: lower_name_def)
next
  case (Cons b n)
  from Cons.IH [of "pre @ [b]"] show ?case
    by (simp add: byte_at_append invalid_byte lower_name_def)
qed

lemma server_name_step_enc:
  assumes n: "length n < 65536"
  shows "server_name_step (pre @ enc_name (t, n) @ rest) hs (length pre) (length pre + (3 + length n) + k) found host =
     Some (if t = 0 \<and> (found \<or> n = [] \<or> hs \<le> length n \<or> \<not> list_all hostname_byte n) then Inl ()
           else Inr (length pre + (3 + length n), if t = 0 then (True, lower_name n) else (found, host)))"
proof -
  define m where "m = pre @ enc_name (t, n) @ rest"
  have b: "byte_at m (length pre) = Some t" by (simp add: m_def enc_name_def byte_at_append)
  have l: "u16_at m (length pre + 1) = Some (of_nat (length n))"
    using u16_at_append [OF n, of "pre @ [t]" "n @ rest"] by (simp add: m_def enc_name_def)
  have c: "copy_hostname (length n) m (length pre + 3) =
      Some (if list_all hostname_byte n then Some (lower_name n) else None)"
    using copy_hostname_enc [of n "pre @ t # enc16 (length n)" rest] by (simp add: m_def enc_name_def)
  have u: "unat (of_nat (length n) :: u16) = length n" using n by (rule unat_of_nat_u16)
  then have z: "of_nat (length n) = (0 :: u16) \<longleftrightarrow> n = []"
    by (simp only: word_unat_eq_iff unat_0 length_0_conv)
  have e1: "\<not> length pre + (3 + length n) + k - length pre < 3" by simp
  have e2: "\<not> length n > length pre + (3 + length n) + k - (length pre + 3)" by simp
  show ?thesis
    unfolding m_def [symmetric] server_name_step_def Let_def b l bind.bind_lunit u z if_not_P [OF e1] if_not_P [OF e2]
    by (simp add: c add.assoc)
qed


lemma enc_names_Cons: "enc_names (x # ns) = enc_name x @ enc_names ns"
  by (simp add: enc_names_def)

lemma enc_names_Nil: "enc_names [] = []"
  by (simp add: enc_names_def)

lemma length_enc_name: "length (enc_name x) = 3 + length (snd x)"
  by (simp add: enc_name_def)

lemma server_name_loop_enc:
  "\<forall>x \<in> set ns. length (snd x) < 65536 \<Longrightarrow>
   server_name_loop (pre @ enc_names ns @ rest) hs (length pre) (length pre + length (enc_names ns)) found host =
     Some (case names_meaning hs ns found host of
             Inl u \<Rightarrow> Inl u
           | Inr (f, h) \<Rightarrow> Inr (length pre + length (enc_names ns), f, h))"
proof (induction ns arbitrary: pre found host)
  case Nil
  then show ?case by (simp add: server_name_loop.simps enc_names_Nil)
next
  case (Cons x ns)
  obtain t n where x: "x = (t, n)" by (cases x)
  with Cons.prems have n: "length n < 65536" by simp
  define e where "e = enc_name (t, n)"
  have le: "length e = 3 + length n" by (simp add: e_def length_enc_name)
  have IH: "server_name_loop (pre @ e @ enc_names ns @ rest) hs (length pre + (3 + length n))
       (length pre + (3 + length n) + length (enc_names ns)) found host =
     Some (case names_meaning hs ns found host of
             Inl u \<Rightarrow> Inl u
           | Inr (f, h) \<Rightarrow> Inr (length pre + (3 + length n) + length (enc_names ns), f, h))" for found host
    using Cons.IH [of "pre @ e" found host] Cons.prems
    by (simp add: le add.assoc cong: sum.case_cong)
  have l: "length pre + length (enc_names (x # ns)) = length pre + (3 + length n) + length (enc_names ns)"
    by (simp add: enc_names_Cons length_enc_name x)
  have lt: "length pre < length pre + (3 + length n) + length (enc_names ns)" by simp
  show ?case
    unfolding l unfolding enc_names_Cons x append_assoc e_def [symmetric]
    by (subst server_name_loop.simps)
      (simp only: lt if_True server_name_step_enc [OF n, where t = t, folded e_def] option.case, auto simp: IH)
qed

lemma enc_names_short: "length (enc_names ns) < 3 \<longleftrightarrow> ns = []"
  by (cases ns) (simp_all add: enc_names_Nil enc_names_Cons length_enc_name)

lemma read_server_names_enc:
  assumes "\<forall>x \<in> set ns. length (snd x) < 65536" "length (enc_names ns) + 2 < 65536"
  shows "read_server_names (pre @ ext_body (Server_Name ns) @ rest) hs (length pre)
       (of_nat (length (ext_body (Server_Name ns)))) found host =
     Some (if ns = [] then Inl () else names_meaning hs ns found host)"
proof -
  let ?l = "length (enc_names ns)"
  have u: "unat (of_nat (?l + 2) :: u16) = ?l + 2" "unat (of_nat ?l :: u16) = ?l"
    using assms(2) unat_of_nat_u16 [of "?l + 2"] unat_of_nat_u16 [of ?l] by auto
  have lb: "length (ext_body (Server_Name ns)) = ?l + 2" by simp
  have r: "u16_at (pre @ ext_body (Server_Name ns) @ rest) (length pre) = Some (of_nat ?l)"
    using u16_at_append [of ?l pre "enc_names ns @ rest"] assms(2) by simp
  have s: "of_nat (?l + 2) < (5 :: u16) \<longleftrightarrow> ns = []"
    unfolding word_less_nat_alt u enc_names_short [symmetric] by simp
  have lp: "server_name_loop (pre @ ext_body (Server_Name ns) @ rest) hs (length pre + 2) (length pre + 2 + ?l) found host =
     Some (case names_meaning hs ns found host of
             Inl u \<Rightarrow> Inl u
           | Inr (f, h) \<Rightarrow> Inr (length pre + 2 + ?l, f, h))"
    using server_name_loop_enc [OF assms(1), of "pre @ enc16 ?l"]
    by (simp add: add.assoc cong: sum.case_cong)
  show ?thesis
    unfolding read_server_names_def lb s r bind.bind_lunit u Let_def lp
    by (simp split: sum.split)
qed

lemma extension_step_enc:
  assumes ok: "ext_ok e" "length (ext_body e) < 65536"
  shows "extension_step (pre @ enc_ext e @ rest) hs (length pre) (length pre + length (enc_ext e) + k) found host ech =
     Some (case e of
             Server_Name ns \<Rightarrow>
               if ns = [] then Inl ech
               else (case names_meaning hs ns found host of
                       Inl u \<Rightarrow> Inl ech
                     | Inr (f, h) \<Rightarrow> Inr (length pre + length (enc_ext e), f, h, ech))
           | Other t b \<Rightarrow>
               Inr (length pre + length (enc_ext e), found, host, ech \<or> t = TLS_EXTENSION_ECH))"
proof -
  define m where "m = pre @ enc_ext e @ rest"
  let ?b = "ext_body e"
  have t: "u16_at m (length pre) = Some (ext_type e)"
    using u16_at_append [of "unat (ext_type e)" pre "enc16 (length ?b) @ ?b @ rest"]
    by (simp add: m_def enc_ext_def)
  have l: "u16_at m (length pre + 2) = Some (of_nat (length ?b))"
    using u16_at_append [OF ok(2), of "pre @ enc16 (unat (ext_type e))" "?b @ rest"]
    by (simp add: m_def enc_ext_def)
  have u: "unat (of_nat (length ?b) :: u16) = length ?b" using ok(2) by (rule unat_of_nat_u16)
  have le: "length (enc_ext e) = 4 + length ?b" by (simp add: enc_ext_def)
  have e1: "\<not> length pre + length (enc_ext e) + k - length pre < 4" by (simp add: le)
  have e2: "\<not> length ?b > length pre + length (enc_ext e) + k - (length pre + 4)" by (simp add: le)
  have r: "read_server_names m hs (length pre + 4) (of_nat (length ?b)) found host =
      Some (if ns = [] then Inl () else names_meaning hs ns found host)" if "e = Server_Name ns" for ns
    using read_server_names_enc [of ns "pre @ enc16 (unat (ext_type e)) @ enc16 (length ?b)" rest hs found host] ok that
    by (simp add: m_def enc_ext_def)
  note step = extension_step_def Let_def t l bind.bind_lunit u if_not_P [OF e1] if_not_P [OF e2]
  show ?thesis
  proof (cases e)
    case (Server_Name ns)
    show ?thesis
      unfolding m_def [symmetric] step r [OF Server_Name]
      by (auto simp: Server_Name le [unfolded Server_Name] TLS_EXTENSION_SERVER_NAME_def TLS_EXTENSION_ECH_def
          simp del: ext_body.simps split: sum.split)
  next
    case (Other t b)
    with ok(1) show ?thesis
      unfolding m_def [symmetric] step by (simp add: enc_ext_def add.assoc)
  qed
qed


lemma enc_exts_simps: "enc_exts [] = []" "enc_exts (e # es) = enc_ext e @ enc_exts es"
  by (simp_all add: enc_exts_def)

lemma enc_ext_nonempty: "0 < length (enc_ext e)"
  by (simp add: enc_ext_def)

lemma ext_body_le: "e \<in> set es \<Longrightarrow> length (ext_body e) \<le> length (enc_exts es)"
  by (induction es) (auto simp: enc_exts_simps enc_ext_def)

lemma extensions_loop_enc:
  "\<forall>e \<in> set es. ext_ok e \<and> length (ext_body e) < 65536 \<Longrightarrow>
   extensions_loop (pre @ enc_exts es @ rest) hs (length pre) (length pre + length (enc_exts es)) found host ech =
     Some (case exts_meaning hs es found host ech of
             Inl u \<Rightarrow> Inl u
           | Inr r \<Rightarrow> Inr (length pre + length (enc_exts es), r))"
proof (induction es arbitrary: pre found host ech)
  case Nil
  then show ?case by (simp add: extensions_loop.simps enc_exts_simps)
next
  case (Cons x es)
  then have x: "ext_ok x" "length (ext_body x) < 65536" by auto
  define e where "e = enc_ext x"
  have IH: "extensions_loop (pre @ e @ enc_exts es @ rest) hs (length pre + length e)
       (length pre + length e + length (enc_exts es)) found host ech =
     Some (case exts_meaning hs es found host ech of
             Inl u \<Rightarrow> Inl u
           | Inr r \<Rightarrow> Inr (length pre + length e + length (enc_exts es), r))" for found host ech
    using Cons.IH [of "pre @ e" found host ech] Cons.prems
    by (simp add: add.assoc cong: sum.case_cong)
  have l: "length pre + length (enc_exts (x # es)) = length pre + length e + length (enc_exts es)"
    by (simp add: enc_exts_simps e_def)
  have lt: "length pre < length pre + length e + length (enc_exts es)"
    using enc_ext_nonempty [of x] by (simp add: e_def)
  show ?case
    unfolding l unfolding enc_exts_simps append_assoc e_def [symmetric]
    by (subst extensions_loop.simps)
      (simp only: lt if_True extension_step_enc [OF x, folded e_def] option.case,
       auto simp: IH split: extension.split sum.split)
qed

lemma even_of_nat_u16:
  assumes "n < 65536"
  shows "(of_nat n :: u16) AND 1 = 0 \<longleftrightarrow> even n"
proof -
  have "unat ((of_nat n :: u16) AND 1) = n mod 2"
    using assms by (simp add: unat_of_nat_u16 and_one_eq unat_mod_distrib)
  then show ?thesis by (auto simp: word_unat_eq_iff even_iff_mod_2_eq_zero)
qed

lemma parse_client_hello_enc:
  assumes ok: "hello_ok m"
  shows "parse_client_hello (enc_hello m @ tail) (length (enc_hello m)) hs ech = Some (hello_meaning hs m ech)"
proof -
  define sid where "sid = session_id m"
  define cs where "cs = cipher_suites m"
  define cm where "cm = compression m"
  define head where "head = 1 # of_nat (length (enc_body m) div 65536) # enc16 (length (enc_body m)) @ version_random m"
  define tl where "tl = (case extensions m of None \<Rightarrow> [] | Some es \<Rightarrow> enc16 (length (enc_exts es)) @ enc_exts es)"
  define p1 where "p1 = head @ of_nat (length sid) # sid"
  define p2 where "p2 = p1 @ enc16 (length cs) @ cs"
  define p3 where "p3 = p2 @ of_nat (length cm) # cm"
  have hh: "enc_hello m = head @ of_nat (length sid) # sid @ enc16 (length cs) @ cs @ of_nat (length cm) # cm @ tl"
    by (simp add: enc_hello_def enc_body_def head_def sid_def cs_def cm_def tl_def)
  define all where "all = enc_hello m @ tail"
  have lens: "length sid < 256" "2 \<le> length cs" "even (length cs)" "length cs < 65536"
      "1 \<le> length cm" "length cm < 256"
    and head: "length head = 38"
    using ok by (simp_all add: hello_ok_def sid_def cs_def cm_def head_def)
  have a1: "all = head @ of_nat (length sid) # (sid @ enc16 (length cs) @ cs @ of_nat (length cm) # cm @ tl @ tail)"
    and a2: "all = p1 @ enc16 (length cs) @ (cs @ of_nat (length cm) # cm @ tl @ tail)"
    and a3: "all = p2 @ of_nat (length cm) # (cm @ tl @ tail)"
    and a4: "all = p3 @ tl @ tail"
    by (simp_all add: all_def hh p1_def p2_def p3_def)
  have l1: "length p1 = 38 + 1 + length sid" and l2: "length p2 = 38 + 1 + length sid + 2 + length cs"
    and l3: "length p3 = 38 + 1 + length sid + 2 + length cs + 1 + length cm"
    by (simp_all add: p1_def p2_def p3_def head)
  have b1: "byte_at all 38 = Some (of_nat (length sid))"
    unfolding a1 by (subst head [symmetric]) (rule byte_at_append)
  have b2: "u16_at all (38 + 1 + length sid) = Some (of_nat (length cs))"
    unfolding a2 l1 [symmetric] using lens(4) by (rule u16_at_append)
  have b3: "byte_at all (38 + 1 + length sid + 2 + length cs) = Some (of_nat (length cm))"
    unfolding a3 l2 [symmetric] by (rule byte_at_append)
  have u1: "unat (of_nat (length sid) :: u8) = length sid" "unat (of_nat (length cm) :: u8) = length cm"
    "unat (of_nat (length cs) :: u16) = length cs"
    using lens by (simp_all add: unat_of_nat)
  have c1: "\<not> (of_nat (length cs) :: u16) < 2"
    using lens(2) by (simp add: word_less_nat_alt u1)
  have c2: "(of_nat (length cs) :: u16) AND 1 = 0"
    using lens(3,4) by (simp add: even_of_nat_u16)
  have c3: "(of_nat (length cm) :: u8) \<noteq> 0"
    using lens(5) u1(2) by (metis not_one_le_zero unat_0)
  have len: "length (enc_hello m) = length p3 + length tl" using a4 by (simp add: all_def)
  have n1: "\<not> length p3 + length tl < 4 + 34" "\<not> 4 + 34 \<ge> length p3 + length tl"
      "\<not> 38 + 1 + length sid > length p3 + length tl"
      "\<not> 38 + 1 + length sid + 2 > length p3 + length tl"
      "\<not> 38 + 1 + length sid + 2 + length cs > length p3 + length tl"
      "\<not> 38 + 1 + length sid + 2 + length cs \<ge> length p3 + length tl"
      "\<not> 38 + 1 + length sid + 2 + length cs + 1 + length cm > length p3 + length tl"
    by (simp_all add: l3)
  have step: "parse_client_hello all (length (enc_hello m)) hs ech =
     (if tl = [] then Some (TLS_SNI_PARSE_NO_SNI, ech, [])
      else if length tl < 2 then Some (TLS_SNI_PARSE_INVALID, ech, [])
      else do {
        extensions_length \<leftarrow> u16_at all (length p3);
        if unat extensions_length \<noteq> length tl - 2 then Some (TLS_SNI_PARSE_INVALID, ech, [])
        else do {
          r \<leftarrow> extensions_loop all hs (length p3 + 2) (length p3 + 2 + unat extensions_length) False [] ech;
          Some (case r of
                  Inl ech \<Rightarrow> (TLS_SNI_PARSE_INVALID, ech, [])
                | Inr (off, found, host, ech) \<Rightarrow>
                    if off \<noteq> length p3 + 2 + unat extensions_length then (TLS_SNI_PARSE_INVALID, ech, [])
                    else if found then (TLS_SNI_PARSE_FOUND, ech, host)
                    else (TLS_SNI_PARSE_NO_SNI, ech, []))
        }
      })"
    unfolding parse_client_hello_def Let_def len
    using n1 b1 b2 b3 u1 c1 c2 c3
    by (simp add: l3 cong: if_cong sum.case_cong prod.case_cong)
  show ?thesis
  proof (cases "extensions m")
    case None
    then show ?thesis using step by (simp add: tl_def hello_meaning_def all_def)
  next
    case (Some es)
    let ?n = "length (enc_exts es)"
    have tl: "tl = enc16 ?n @ enc_exts es" using Some by (simp add: tl_def)
    have es: "?n < 65536" "\<forall>e \<in> set es. ext_ok e \<and> length (ext_body e) < 65536"
      using ok Some ext_body_le [of _ es] by (auto simp: hello_ok_def intro: le_less_trans)
    have u: "unat (of_nat ?n :: u16) = ?n" using es(1) by (rule unat_of_nat_u16)
    have r: "u16_at all (length p3) = Some (of_nat ?n)"
      unfolding a4 tl append_assoc using es(1) by (rule u16_at_append)
    have lp: "extensions_loop all hs (length p3 + 2) (length p3 + 2 + ?n) False [] ech =
      Some (case exts_meaning hs es False [] ech of
             Inl u \<Rightarrow> Inl u
           | Inr r \<Rightarrow> Inr (length p3 + 2 + ?n, r))"
      using extensions_loop_enc [OF es(2), of "p3 @ enc16 ?n" tail hs False "[]" ech]
      by (simp add: a4 tl add.assoc cong: sum.case_cong)
    show ?thesis
      unfolding all_def [symmetric] step r bind.bind_lunit u lp
      by (simp add: tl hello_meaning_def Some enc16_def [of ?n] split: sum.split)
  qed
qed

end
