(* ===== verification/Tls_Records.thy ===== *)
theory Tls_Records
  imports Tls_Hello
begin

text \<open>
  The record layer: a ClientHello cut into TLS records, the records cut into TCP segments, and
  the properties of the parser as its callers see it.
\<close>

definition enc_record :: "u8 \<times> u8 \<Rightarrow> bytes \<Rightarrow> bytes" where
  "enc_record v fr = 22 # fst v # snd v # enc16 (length fr) @ fr"

definition enc_records :: "((u8 \<times> u8) \<times> bytes) list \<Rightarrow> bytes" where
  "enc_records rs = concat (map (\<lambda>(v, fr). enc_record v fr) rs)"

definition fragments :: "((u8 \<times> u8) \<times> bytes) list \<Rightarrow> bytes" where
  "fragments rs = concat (map snd rs)"

definition record_ok :: "(u8 \<times> u8) \<times> bytes \<Rightarrow> bool" where
  "record_ok r \<longleftrightarrow> snd r \<noteq> [] \<and> length (snd r) < 65536"

definition at_message :: "bytes \<Rightarrow> nat \<Rightarrow> nat \<Rightarrow> tls_sni_parser \<Rightarrow> bool" where
  "at_message msg u n p \<longleftrightarrow>
     tls_wf p \<and> client_hello_used p = u \<and> take u (client_hello p) = take u msg \<and>
     client_hello_expected p = (if u < 4 then 0 else length msg) \<and>
     unat (record_remaining p) = n \<and> \<not> ech_present p \<and> (n = 0 \<longrightarrow> record_header_used p = 0)"

definition message_ok :: "bytes \<Rightarrow> bool" where
  "message_ok msg \<longleftrightarrow>
     4 < length msg \<and> length msg \<le> TLS_CLIENT_HELLO_MAX_SIZE \<and> msg ! 0 = 1 \<and> msg ! 1 = 0 \<and>
     unat (be16 (msg ! 2) (msg ! 3)) + 4 = length msg"

lemma join_length:
  "push_bit 16 (unat (0 :: u8)) OR push_bit 8 (unat b2) OR unat b3 = unat (be16 b2 b3)" for b2 b3 :: u8
proof -
  have "push_bit 8 (unat b2) < 65536" by (simp add: push_bit_eq_mult)
  then have "take_bit 16 (push_bit 8 (unat b2)) = push_bit 8 (unat b2)"
    by (simp add: take_bit_nat_eq_self)
  moreover have "take_bit 16 (unat b) = unat b" for b :: u8
    by (intro take_bit_nat_eq_self less_trans [OF unat_u8_lt]) simp
  ultimately show ?thesis
    by (simp add: be16_def unsigned_or_eq unsigned_push_bit_eq unsigned_ucast_eq)
qed

lemma put_byte_at:
  assumes at: "at_message msg u n p" and n: "0 < n" and m: "message_ok msg" "u < length msg"
  shows "length (client_hello (put_byte p (msg ! u))) = TLS_CLIENT_HELLO_MAX_SIZE"
    "take (u + 1) (client_hello (put_byte p (msg ! u))) = take (u + 1) msg"
    "record_header_used p = 5"
    "unat (record_remaining (put_byte p (msg ! u))) = n - 1"
proof -
  have wf: "tls_wf p" and u: "client_hello_used p = u" "take u (client_hello p) = take u msg"
    and r: "unat (record_remaining p) = n" using at by (simp_all add: at_message_def)
  have l: "length (client_hello p) = TLS_CLIENT_HELLO_MAX_SIZE" using wf by (simp add: tls_wf_def)
  show "length (client_hello (put_byte p (msg ! u))) = TLS_CLIENT_HELLO_MAX_SIZE"
    using l by (simp add: put_byte_def)
  have "u < length (client_hello p)" using m l by (simp add: message_ok_def)
  then show "take (u + 1) (client_hello (put_byte p (msg ! u))) = take (u + 1) msg"
    using u m(2) by (simp add: put_byte_def take_Suc_conv_app_nth)
  have "record_remaining p \<noteq> 0" using r n by auto
  then show "record_header_used p = 5" using wf by (auto simp: tls_wf_def)
  show "unat (record_remaining (put_byte p (msg ! u))) = n - 1"
    using \<open>record_remaining p \<noteq> 0\<close> r by (simp add: put_byte_def unat_minus_one)
qed

lemma take_nth: "take n xs = take n ys \<Longrightarrow> i < n \<Longrightarrow> xs ! i = ys ! i"
  by (metis nth_take)

lemma check_length_at:
  assumes q: "length (client_hello q) = TLS_CLIENT_HELLO_MAX_SIZE" "client_hello_used q = u + 1"
      "take (u + 1) (client_hello q) = take (u + 1) msg" "client_hello_expected q = (if u < 4 then 0 else length msg)"
    and m: "message_ok msg"
  shows "check_length q = Some (Inr (q\<lparr>client_hello_expected := if u + 1 < 4 then 0 else length msg\<rparr>))"
proof (cases "u = 3")
  case True
  have e: "client_hello q ! Suc 0 = 0" "client_hello q ! 2 = msg ! 2" "client_hello q ! 3 = msg ! 3"
    using take_nth [OF q(3)] True m by (auto simp: message_ok_def)
  have "(push_bit 16 (unat (msg ! 1)) OR push_bit 8 (unat (msg ! 2)) OR unat (msg ! 3)) + 4 = length msg"
    using m join_length [of "msg ! 2" "msg ! 3"] by (simp add: message_ok_def)
  then show ?thesis
    using q m True
    by (simp add: check_length_def byte_at_def e TLS_CLIENT_HELLO_MAX_SIZE_def message_ok_def Let_def)
next
  case False
  then show ?thesis using q by (cases q) (auto simp: check_length_def)
qed


lemma nth0_of_take: "take (u + 1) xs = take (u + 1) ys \<Longrightarrow> xs ! 0 = ys ! 0"
  by (erule take_nth) simp

lemma body_byte:
  assumes at: "at_message msg u n p" and n: "0 < n" and m: "message_ok msg" "u + 1 < length msg"
  obtains p' where "feed_byte p (msg ! u) hs = Some (p', tls_more)" "at_message msg (u + 1) (n - 1) p'"
proof -
  define q where "q = put_byte p (msg ! u)"
  define q' where "q' = q\<lparr>client_hello_expected := if u + 1 < 4 then 0 else length msg\<rparr>"
  define q'' where "q'' = (if record_remaining q' = 0
    then q'\<lparr>record_header_used := 0, record_header := replicate 5 0\<rparr> else q')"
  note put = put_byte_at [OF at n m(1), folded q_def]
  have ul: "u < length msg" using m(2) by simp
  have wf: "tls_wf p" using at by (simp add: at_message_def)
  have q: "client_hello_used q = u + 1" "client_hello_expected q = (if u < 4 then 0 else length msg)"
    "\<not> ech_present q" "record_header_used q = 5" "\<not> finished q" "length (record_header q) = 5"
    using at put(3) [OF ul] wf by (simp_all add: q_def put_byte_def at_message_def tls_wf_def)
  have c: "check_length q = Some (Inr q')"
    unfolding q'_def by (rule check_length_at) (use put(1,2) [OF ul] q m in simp_all)
  have z: "client_hello q ! 0 = 1" using nth0_of_take [OF put(2) [OF ul]] m(1) by (simp add: message_ok_def)
  have "after_copy q hs = Some (Inr q'')"
    using c z put(1) [OF ul] m(2) q(1)
    by (auto simp: after_copy_def byte_at_def TLS_CLIENT_HELLO_MAX_SIZE_def q'_def q''_def)
  then have f: "feed_byte p (msg ! u) hs = Some (q'', tls_more)"
    using put(3) [OF ul] by (simp add: feed_byte_def q_def)
  have "feed_ok (feed_byte p (msg ! u) hs)" using wf by (rule feed_byte_ok)
  then have "tls_wf q''" by (simp add: f)
  then have "at_message msg (u + 1) (n - 1) q''"
    using put [OF ul] q by (auto simp: at_message_def q''_def q'_def unat_eq_0 simp del: One_nat_def)
  with f show ?thesis by (rule that)
qed

lemma last_byte:
  assumes at: "at_message msg u n p" and n: "0 < n" and m: "message_ok msg" "u + 1 = length msg"
    and parse: "\<And>tl. parse_client_hello (msg @ tl) (length msg) hs False = Some (r, ech, h)"
  obtains p' where "feed_byte p (msg ! u) hs = Some (p', r, h)" "ech_present p' = ech"
proof -
  define q where "q = put_byte p (msg ! u)"
  note put = put_byte_at [OF at n m(1), folded q_def]
  have ul: "u < length msg" and u4: "4 \<le> u" using m by (simp_all add: message_ok_def)
  have q: "client_hello_used q = u + 1" "client_hello_expected q = length msg" "\<not> ech_present q"
    using at u4 by (simp_all add: q_def put_byte_def at_message_def)
  have c: "check_length q = Some (Inr q)" using q u4 by (simp add: check_length_def)
  have z: "client_hello q ! 0 = 1" using nth0_of_take [OF put(2) [OF ul]] m(1) by (simp add: message_ok_def)
  have "client_hello q = msg @ drop (length msg) (client_hello q)"
    using put(2) [OF ul] m(2) by (metis append_take_drop_id take_all order_refl)
  then have "parse_client_hello (client_hello q) (length msg) hs False = Some (r, ech, h)"
    using parse by metis
  then have "after_copy q hs = Some (Inl (q\<lparr>finished := True, ech_present := ech\<rparr>, r, h))"
    using c z put(1) [OF ul] m ul q
    by (auto simp: after_copy_def byte_at_def TLS_CLIENT_HELLO_MAX_SIZE_def message_ok_def)
  then show ?thesis
    using put(3) [OF ul] that [of "q\<lparr>finished := True, ech_present := ech\<rparr>"]
    by (simp add: feed_byte_def q_def)
qed


lemma feed_bytes_more_append:
  "feed_bytes xs p hs = Some (q, tls_more) \<Longrightarrow> feed_bytes (xs @ ys) p hs = feed_bytes ys q hs"
  unfolding feed_bytes_append by (simp add: stream_then_def)

lemma feed_bytes_final_append:
  "feed_bytes xs p hs = Some (q, r, h) \<Longrightarrow> r \<noteq> TLS_SNI_PARSE_NEED_MORE \<Longrightarrow>
   feed_bytes (xs @ ys) p hs = Some (q, r, h)"
  unfolding feed_bytes_append by (simp add: stream_then_def)

lemma header_bytes:
  assumes at: "at_message msg u 0 p" and n: "0 < n" "n < 65536"
  obtains p' where "feed_bytes (22 # a # b # enc16 n) p hs = Some (p', tls_more)" "at_message msg u n p'"
proof -
  have wf: "tls_wf p" and u: "record_header_used p = 0" "record_remaining p = 0"
    using at by (simp_all add: at_message_def unat_eq_0)
  have "length (record_header p) = 5" using wf by (simp add: tls_wf_def)
  then obtain x0 x1 x2 x3 x4 where h: "record_header p = [x0, x1, x2, x3, x4]"
    by (auto simp: length_Suc_conv numeral_eq_Suc)
  define q where "q = p\<lparr>record_header := [22, a, b, of_nat (n div 256), of_nat n], record_header_used := Suc (Suc (Suc (Suc (Suc 0))))\<rparr>"
  define q' where "q' = q\<lparr>record_remaining := of_nat n\<rparr>"
  have un: "unat (of_nat n :: u16) = n" using n(2) by (rule unat_of_nat_u16)
  then have "(of_nat n :: u16) \<noteq> 0" using n(1) by (simp add: word_unat_eq_iff)
  then have "open_record q = Some (Inr q')"
    using u n(2) by (simp add: open_record_def q_def q'_def byte_at_def u16_at_def be16_enc16)
  then have f: "feed_bytes (22 # a # b # enc16 n) p hs = Some (q', tls_more)"
    using u h by (simp add: enc16_def feed_byte_def push_header_def stream_then_def q_def)
  have "feed_ok (feed_bytes (22 # a # b # enc16 n) p hs)" using wf by (rule feed_bytes_ok)
  then have "tls_wf q'" by (simp only: f feed_ok_more)
  then have "at_message msg u n q'"
    using at un n(1) by (simp add: at_message_def q'_def q_def)
  with f show ?thesis by (rule that)
qed

lemma body_bytes:
  assumes "at_message msg u (length fr) p" "message_ok msg" "drop u msg = fr @ rest" "rest \<noteq> []"
  obtains p' where "feed_bytes fr p hs = Some (p', tls_more)" "at_message msg (u + length fr) 0 p'"
  using assms
proof (induction fr arbitrary: u p thesis)
  case Nil
  then show ?case by simp
next
  case (Cons b fr)
  have u: "b = msg ! u" "drop (u + 1) msg = fr @ rest" "u + 1 < length msg"
  proof -
    have l: "length msg - u = Suc (length fr) + length rest" using Cons.prems(4) by (metis length_append length_drop length_Cons)
    show "u + 1 < length msg" using l Cons.prems(5) by (cases rest) auto
    have "u < length msg" using l by simp
    then have "drop u msg = msg ! u # drop (u + 1) msg" by (simp add: Cons_nth_drop_Suc)
    then show "b = msg ! u" "drop (u + 1) msg = fr @ rest" using Cons.prems(4) by auto
  qed
  obtain q where q: "feed_byte p (msg ! u) hs = Some (q, tls_more)" "at_message msg (u + 1) (length fr) q"
    by (rule body_byte [OF Cons.prems(2) _ Cons.prems(3) u(3), of hs]) auto
  obtain p' where "feed_bytes fr q hs = Some (p', tls_more)" "at_message msg (u + 1 + length fr) 0 p'"
    by (rule Cons.IH [OF _ q(2) Cons.prems(3) u(2) Cons.prems(5)])
  then show ?case using q(1) Cons.prems(1) [of p'] by (simp add: u(1) stream_then_def)
qed

lemma last_bytes:
  assumes at: "at_message msg u (length fr) p" and m: "message_ok msg" and d: "drop u msg = fr" "fr \<noteq> []"
    and parse: "\<And>tl. parse_client_hello (msg @ tl) (length msg) hs False = Some (r, ech, h)"
  obtains p' where "feed_bytes fr p hs = Some (p', r, h)" "ech_present p' = ech"
  using at d
proof (induction fr arbitrary: u p thesis)
  case Nil
  then show ?case by simp
next
  case (Cons b fr)
  have "u < length msg" using Cons.prems(3) by (metis drop_all leI list.discI)
  then have "drop u msg = msg ! u # drop (u + 1) msg" by (simp add: Cons_nth_drop_Suc)
  then have u: "b = msg ! u" "drop (u + 1) msg = fr" using Cons.prems(3) by auto
  show ?case
  proof (cases fr)
    case Nil
    then have "u + 1 = length msg" using u(2) \<open>u < length msg\<close> by simp
    obtain p' where "feed_byte p (msg ! u) hs = Some (p', r, h)" "ech_present p' = ech"
      by (rule last_byte [OF Cons.prems(2) _ m \<open>u + 1 = length msg\<close> parse]) auto
    then show ?thesis using Cons.prems(1) [of p'] parse_client_hello_not_more [of msg "length msg" hs False] parse [of "[]"]
      by (simp add: Nil u(1) stream_then_def)
  next
    case (Cons c cs)
    then have "u + 1 < length msg" using u(2) \<open>u < length msg\<close> by (metis drop_all leI list.discI)
    obtain q where q: "feed_byte p (msg ! u) hs = Some (q, tls_more)" "at_message msg (u + 1) (length fr) q"
      by (rule body_byte [OF Cons.prems(2) _ m \<open>u + 1 < length msg\<close>, of hs]) auto
    obtain p' where "feed_bytes fr q hs = Some (p', r, h)" "ech_present p' = ech"
      by (rule Cons.IH [OF _ q(2) u(2)]) (auto simp: Cons)
    then show ?thesis using q(1) Cons.prems(1) [of p'] by (simp add: u(1) stream_then_def)
  qed
qed

lemma feed_records:
  assumes m: "message_ok msg"
    and parse: "\<And>tl. parse_client_hello (msg @ tl) (length msg) hs False = Some (r, ech, h)"
    and at: "at_message msg u 0 p" and rs: "\<forall>x \<in> set rs. record_ok x"
    and d: "drop u msg = fragments rs" "u < length msg"
  obtains p' where "feed_bytes (enc_records rs) p hs = Some (p', r, h)" "ech_present p' = ech"
  using at rs d
proof (induction rs arbitrary: u p thesis)
  case Nil
  then show ?case by (simp add: fragments_def)
next
  case (Cons x rs)
  obtain v w fr where x: "x = ((v, w), fr)" by (metis surj_pair)
  have fr: "0 < length fr" "length fr < 65536" using Cons.prems(3) by (auto simp: x record_ok_def)
  obtain q where q: "feed_bytes (22 # v # w # enc16 (length fr)) p hs = Some (q, tls_more)"
      "at_message msg u (length fr) q"
    by (rule header_bytes [OF Cons.prems(2) fr])
  have e: "enc_records (x # rs) = (22 # v # w # enc16 (length fr)) @ fr @ enc_records rs"
    by (simp add: enc_records_def enc_record_def x)
  have d: "drop u msg = fr @ fragments rs" using Cons.prems(4) by (simp add: fragments_def x)
  show ?case
  proof (cases "fragments rs = []")
    case True
    obtain p' where p': "feed_bytes fr q hs = Some (p', r, h)" "ech_present p' = ech"
      by (rule last_bytes [OF q(2) m _ _ parse]) (use d True fr in auto)
    have more: "r \<noteq> TLS_SNI_PARSE_NEED_MORE"
      using parse_client_hello_not_more [of msg "length msg" hs False] parse [of "[]"] by auto
    show ?thesis
      by (rule Cons.prems(1) [of p'])
        (simp_all only: e feed_bytes_more_append [OF q(1)] feed_bytes_final_append [OF p'(1) more] p'(2))
  next
    case False
    obtain q' where q': "feed_bytes fr q hs = Some (q', tls_more)" "at_message msg (u + length fr) 0 q'"
      by (rule body_bytes [OF q(2) m d False])
    have d': "drop (u + length fr) msg = fragments rs" using d by (metis add.commute append_eq_conv_conj drop_drop)
    then have "u + length fr < length msg" using False by (metis drop_all leI)
    obtain p' where "feed_bytes (enc_records rs) q' hs = Some (p', r, h)" "ech_present p' = ech"
      by (rule Cons.IH [OF _ q'(2) _ d' \<open>u + length fr < length msg\<close>]) (use Cons.prems(3) in auto)
    then show ?thesis
      using Cons.prems(1) [of p']
      by (simp only: e feed_bytes_more_append [OF q(1)] feed_bytes_more_append [OF q'(1)])
  qed
qed


section \<open>From the wire to the server name\<close>

lemma message_ok_enc_hello:
  assumes "hello_ok m" "length (enc_hello m) \<le> TLS_CLIENT_HELLO_MAX_SIZE"
  shows "message_ok (enc_hello m)"
proof -
  have l: "length (enc_hello m) = 4 + length (enc_body m)" by (simp add: enc_hello_def)
  have b: "0 < length (enc_body m)" using assms(1) by (simp add: enc_body_def)
  have s: "length (enc_body m) < 65536" using assms(2) l by (simp add: TLS_CLIENT_HELLO_MAX_SIZE_def)
  then have "unat (be16 (of_nat (length (enc_body m) div 256)) (of_nat (length (enc_body m)))) = length (enc_body m)"
    by (simp add: be16_enc16 unat_of_nat_u16)
  with s show ?thesis
    using assms(2) b l by (simp add: message_ok_def enc_hello_def enc16_def)
qed

lemma at_message_init: "at_message msg 0 0 tls_sni_parser_init"
  using tls_wf_init by (simp add: at_message_def) (simp add: tls_sni_parser_init_def)

lemma feed_bytes_hello:
  assumes m: "hello_ok m" "length (enc_hello m) \<le> TLS_CLIENT_HELLO_MAX_SIZE"
    and rs: "\<forall>x \<in> set rs. record_ok x" "fragments rs = enc_hello m"
  obtains p' r h where "feed_bytes (enc_records rs @ rest) tls_sni_parser_init hs = Some (p', r, h)"
    "hello_meaning hs m False = (r, ech_present p', h)" "r \<noteq> TLS_SNI_PARSE_NEED_MORE"
proof -
  obtain r ech h where mean: "hello_meaning hs m False = (r, ech, h)" by (metis prod_cases3)
  have parse: "parse_client_hello (enc_hello m @ tl) (length (enc_hello m)) hs False = Some (r, ech, h)" for tl
    using parse_client_hello_enc [OF m(1)] mean by simp
  have more: "r \<noteq> TLS_SNI_PARSE_NEED_MORE"
    using parse_client_hello_not_more [of "enc_hello m" "length (enc_hello m)" hs False] parse [of "[]"] by auto
  obtain p' where p': "feed_bytes (enc_records rs) tls_sni_parser_init hs = Some (p', r, h)" "ech_present p' = ech"
    by (rule feed_records [OF message_ok_enc_hello [OF m] parse at_message_init rs(1)])
      (use rs in \<open>auto simp: enc_hello_def\<close>)
  show ?thesis
    using that feed_bytes_final_append [OF p'(1) more] mean p'(2) more by blast
qed

lemma feed_wf: "tls_wf p \<Longrightarrow> tls_sni_parser_feed p (Some bs) (Suc n) = feed_loop p bs (Suc n)"
  by (simp add: tls_sni_parser_feed_def tls_wf_def)

text \<open>
  C7: a ClientHello of at most 2048 bytes that is written on the wire in TLS records of any sizes,
  and read from the TCP stream in pieces of any sizes, gives the result, the ECH flag and the host
  name that its list of extensions determines, whatever follows it in the stream.
\<close>

theorem client_hello_through_records:
  assumes "hello_ok m" "length (enc_hello m) \<le> TLS_CLIENT_HELLO_MAX_SIZE"
    and "\<forall>x \<in> set rs. record_ok x" "fragments rs = enc_hello m"
    and "concat pieces = enc_records rs @ rest"
  shows "\<exists>p r h.
    feed_pieces (\<lambda>p bs. tls_sni_parser_feed p (Some bs) (Suc n)) (TLS_SNI_PARSE_NEED_MORE, [])
      pieces tls_sni_parser_init = Some (p, r, h) \<and>
    hello_meaning (Suc n) m False = (r, ech_present p, h)"
proof -
  obtain p r h where p: "feed_bytes (enc_records rs @ rest) tls_sni_parser_init (Suc n) = Some (p, r, h)"
      "hello_meaning (Suc n) m False = (r, ech_present p, h)" "r \<noteq> TLS_SNI_PARSE_NEED_MORE"
    using feed_bytes_hello [OF assms(1-4)] by metis
  have "map_option feed_view (feed_pieces (\<lambda>p bs. tls_sni_parser_feed p (Some bs) (Suc n)) tls_more pieces
          tls_sni_parser_init) = Some (feed_view (p, r, h))"
    using tls.pieces_eq_whole [OF tls_wf_init, of n pieces] feed_loop_bytes [OF tls_wf_init, of "concat pieces" "Suc n"]
    unfolding feed_wf [OF tls_wf_init] assms(5) p(1) by simp
  then obtain q where "feed_pieces (\<lambda>p bs. tls_sni_parser_feed p (Some bs) (Suc n)) tls_more pieces
          tls_sni_parser_init = Some (q, r, h)" "ech_present q = ech_present p"
    by (auto simp: feed_view_def)
  with p(2) show ?thesis by auto
qed

text \<open>
  C18: however a TCP stream is cut into segments, the parser answers the same: two ways to cut the
  same bytes give the same result, host name and flags, and the same parser state while
  more input is wanted.
\<close>

theorem tls_segmentation_irrelevant:
  assumes "tls_wf p" "concat cs = concat ds"
  shows "map_option feed_view
           (feed_pieces (\<lambda>p bs. tls_sni_parser_feed p (Some bs) (Suc n)) (TLS_SNI_PARSE_NEED_MORE, []) cs p) =
         map_option feed_view
           (feed_pieces (\<lambda>p bs. tls_sni_parser_feed p (Some bs) (Suc n)) (TLS_SNI_PARSE_NEED_MORE, []) ds p)"
  using assms by (rule tls.pieces_irrelevant)

text \<open>
  From a well-formed parser, a call returns for every input, reads and writes only inside of
  its arrays (no \<open>None\<close>), and either asks for more and stays well-formed, with no host name
  written, or finishes.
\<close>

lemma tls_feed_total:
  assumes "tls_wf p"
  shows "\<exists>p' r h. tls_sni_parser_feed p (Some bs) (Suc n) = Some (p', r, h) \<and>
    (if r = TLS_SNI_PARSE_NEED_MORE then tls_wf p' \<and> h = [] else finished p')"
  using feed_loop_ok [OF assms, of bs "Suc n"] feed_wf [OF assms, of bs n] by (auto elim!: feed_ok_cases)

lemma copy_hostname_good:
  "copy_hostname n hello off = Some (Some h) \<Longrightarrow>
   length h = n \<and> (\<forall>c \<in> set h. 0x21 \<le> char_code c \<and> char_code c \<le> 0x7E \<and> char_lower c = c)"
proof (induction n arbitrary: off h)
  case (Suc n)
  then obtain v k where v: "byte_at hello off = Some v" "\<not> (v = 0 \<or> v < 0x21 \<or> v > 0x7E)"
    "copy_hostname n hello (Suc off) = Some (Some k)" "h = char_of (c_tolower (unat v)) # k"
    by (auto simp: bind_eq_Some_conv split: if_splits)
  have "0x21 \<le> unat v" "unat v \<le> 0x7E" using v(2) by (auto simp: word_less_nat_alt not_less)
  then have "0x21 \<le> c_tolower (unat v)" "c_tolower (unat v) \<le> 0x7E" by (auto simp: c_tolower_def)
  then show ?case using Suc.IH [OF v(3)] v(4) by (auto simp: char_lower_def)
qed simp

definition good_host :: "nat \<Rightarrow> string \<Rightarrow> bool" where
  "good_host hs h \<longleftrightarrow> h \<noteq> [] \<and> length h < hs \<and>
     (\<forall>c \<in> set h. 0x21 \<le> char_code c \<and> char_code c \<le> 0x7E \<and> char_lower c = c)"

lemma server_name_step_good:
  assumes "server_name_step hello hs off e found host = Some (Inr (off', found', host'))"
    "found \<longrightarrow> good_host hs host"
  shows "found' \<longrightarrow> good_host hs host'"
  using assms
  by (auto simp: server_name_step_def Let_def result_convs good_host_def unat_eq_0 not_le
      dest!: copy_hostname_good split: if_split_asm)

lemma server_name_loop_good:
  "server_name_loop hello hs off e found host = Some (Inr (off', found', host')) \<Longrightarrow>
   found \<longrightarrow> good_host hs host \<Longrightarrow> found' \<longrightarrow> good_host hs host'"
proof (induction hello hs off e found host rule: server_name_loop.induct)
  case (1 hello hs off e found host)
  from 1(2,3) show ?case
    by (subst (asm) server_name_loop.simps)
      (auto split: if_split_asm option.split_asm sum.split_asm prod.split_asm
        dest: 1(1) server_name_step_good)
qed

lemma read_server_names_good:
  "read_server_names hello hs off el found host = Some (Inr (found', host')) \<Longrightarrow>
   found \<longrightarrow> good_host hs host \<Longrightarrow> found' \<longrightarrow> good_host hs host'"
  by (auto simp: read_server_names_def Let_def result_convs dest: server_name_loop_good
      split: if_split_asm)

lemma extension_step_good:
  "extension_step hello hs off e found host ech = Some (Inr (off', found', host', ech')) \<Longrightarrow>
   found \<longrightarrow> good_host hs host \<Longrightarrow> found' \<longrightarrow> good_host hs host'"
  by (auto simp: extension_step_def Let_def result_convs dest: read_server_names_good
      split: if_split_asm)

lemma extensions_loop_good:
  "extensions_loop hello hs off e found host ech = Some (Inr (off', found', host', ech')) \<Longrightarrow>
   found \<longrightarrow> good_host hs host \<Longrightarrow> found' \<longrightarrow> good_host hs host'"
proof (induction hello hs off e found host ech rule: extensions_loop.induct)
  case (1 hello hs off e found host ech)
  from 1(2,3) show ?case
    by (subst (asm) extensions_loop.simps)
      (auto split: if_split_asm option.split_asm sum.split_asm prod.split_asm
        dest: 1(1) extension_step_good)
qed

lemma parse_client_hello_good:
  "parse_client_hello hello len hs ech = Some (TLS_SNI_PARSE_FOUND, ech', h) \<Longrightarrow> good_host hs h"
  by (auto simp: parse_client_hello_def Let_def result_convs split_sum_ex dest: extensions_loop_good
      split: if_split_asm)

lemma after_copy_good:
  "after_copy p hs = Some (Inl (p', TLS_SNI_PARSE_FOUND, h)) \<Longrightarrow> good_host hs h"
  by (auto simp: after_copy_def Let_def result_convs split_sum_ex dest: parse_client_hello_good
      split: if_split_asm)

lemma feed_round_good:
  "feed_round p bs hs = Some (Inl (p', TLS_SNI_PARSE_FOUND, h)) \<Longrightarrow> good_host hs h"
  by (auto simp: feed_round_def Let_def result_convs split_sum_ex dest: after_copy_good
      split: if_split_asm prod.split_asm)

lemma feed_loop_good:
  assumes "feed_loop p bs hs = Some (p', TLS_SNI_PARSE_FOUND, h)"
  shows "good_host hs h"
proof -
  have "fst (snd out) = TLS_SNI_PARSE_FOUND \<longrightarrow> good_host hs (snd (snd out))"
    if "feed_loop p bs hs = Some out" for out
    using that
  proof (rule feed_loop.raw_induct [rotated])
    fix f p data hs y
    assume "\<And>p data hs y. f p data hs = Some y \<Longrightarrow>
        fst (snd y) = TLS_SNI_PARSE_FOUND \<longrightarrow> good_host hs (snd (snd y))"
      and "(if data = [] then Some (p, TLS_SNI_PARSE_NEED_MORE, [])
        else case feed_round p data hs of None \<Rightarrow> None | Some (Inl out) \<Rightarrow> Some out
             | Some (Inr (p', data')) \<Rightarrow> f p' data' hs) = Some y"
    then show "fst (snd y) = TLS_SNI_PARSE_FOUND \<longrightarrow> good_host hs (snd (snd y))"
      by (cases y) (auto split: if_split_asm option.split_asm sum.split_asm dest: feed_round_good)
  qed
  with assms show ?thesis by force
qed

text \<open>
  C28: a host name that the parser reports is not empty, fits into the caller's buffer with its
  terminating NUL, and consists of lower-case printable ASCII characters without spaces; this holds for every
  state of the parser and every input.
\<close>

theorem tls_found_host_valid:
  assumes "tls_sni_parser_feed p data hs = Some (p', TLS_SNI_PARSE_FOUND, h)"
  shows "h \<noteq> [] \<and> length h < hs \<and>
    (\<forall>c \<in> set h. 0x21 \<le> char_code c \<and> char_code c \<le> 0x7E \<and> char_lower c = c)"
  using assms feed_loop_good [of p _ hs p' h]
  by (auto simp: tls_sni_parser_feed_def good_host_def split: option.splits if_splits)


section \<open>A concrete ClientHello\<close>

definition sample_hello :: client_hello_msg where
  "sample_hello =
     \<lparr>version_random = replicate 34 7, session_id = [1, 2], cipher_suites = [0x13, 1], compression = [0],
      extensions = Some [Other TLS_EXTENSION_ECH [9], Server_Name [(0, [0x41, 0x62, 0x2E, 0x63])]]\<rparr>"

definition sample_records :: "((u8 \<times> u8) \<times> bytes) list" where
  "sample_records = [((3, 1), take 50 (enc_hello sample_hello)), ((3, 3), drop 50 (enc_hello sample_hello))]"

lemma sample_hello_ok: "hello_ok sample_hello"
  by (simp add: hello_ok_def sample_hello_def enc_exts_def enc_ext_def enc_names_def enc_name_def
      TLS_EXTENSION_ECH_def TLS_EXTENSION_SERVER_NAME_def)

lemma sample_hello_length: "length (enc_hello sample_hello) = 67"
  by (simp add: sample_hello_def enc_hello_def enc_body_def enc_exts_def enc_ext_def enc_names_def enc_name_def)

lemma sample_records_ok:
  "\<forall>x \<in> set sample_records. record_ok x" "fragments sample_records = enc_hello sample_hello"
  using sample_hello_length by (auto simp: sample_records_def record_ok_def fragments_def)

lemma sample_hello_meaning: "hello_meaning (Suc n) sample_hello False =
    (if n < 4 then (TLS_SNI_PARSE_INVALID, True, []) else (TLS_SNI_PARSE_FOUND, True, ''ab.c''))"
  by (simp add: hello_meaning_def sample_hello_def hostname_byte_def lower_name_def c_tolower_def char_of_def bit_Suc_0_iff)

lemma client_hello_through_records_witness:
  "\<exists>p. feed_pieces (\<lambda>p bs. tls_sni_parser_feed p (Some bs) (Suc 253)) (TLS_SNI_PARSE_NEED_MORE, [])
      [take 3 (enc_records sample_records), drop 3 (enc_records sample_records)] tls_sni_parser_init =
      Some (p, TLS_SNI_PARSE_FOUND, ''ab.c'') \<and> ech_present p"
proof -
  note r = sample_records_ok
  show ?thesis
    using client_hello_through_records [OF sample_hello_ok _ r, of
        "[take 3 (enc_records sample_records), drop 3 (enc_records sample_records)]" "[]" 253]
    by (auto simp: sample_hello_length sample_hello_meaning [of 253, simplified] TLS_CLIENT_HELLO_MAX_SIZE_def
        simp del: feed_pieces.simps)
qed

lemma tls_segmentation_irrelevant_witness:
  "map_option feed_view
     (feed_pieces (\<lambda>p bs. tls_sni_parser_feed p (Some bs) (Suc 9)) (TLS_SNI_PARSE_NEED_MORE, [])
        [[22, 3], [1]] tls_sni_parser_init) =
   map_option feed_view
     (feed_pieces (\<lambda>p bs. tls_sni_parser_feed p (Some bs) (Suc 9)) (TLS_SNI_PARSE_NEED_MORE, [])
        [[22], [3, 1], []] tls_sni_parser_init)"
  by (rule tls_segmentation_irrelevant [OF tls_wf_init]) simp

lemma tls_found_host_valid_witness:
  "\<exists>p h. tls_sni_parser_feed tls_sni_parser_init (Some (enc_records sample_records)) 254 =
      Some (p, TLS_SNI_PARSE_FOUND, h) \<and> length h < 254"
proof -
  note r = sample_records_ok
  obtain p r h where "feed_bytes (enc_records sample_records @ []) tls_sni_parser_init (Suc 253) = Some (p, r, h)"
      "hello_meaning (Suc 253) sample_hello False = (r, ech_present p, h)"
    by (rule feed_bytes_hello [OF sample_hello_ok _ r, of "[]" "Suc 253"]) (auto simp: sample_hello_length TLS_CLIENT_HELLO_MAX_SIZE_def)
  then have "map_option feed_view (tls_sni_parser_feed tls_sni_parser_init (Some (enc_records sample_records)) 254) =
      Some (feed_view (p, TLS_SNI_PARSE_FOUND, h))"
    using feed_loop_bytes [OF tls_wf_init, of "enc_records sample_records" "Suc 253"]
      feed_wf [OF tls_wf_init, of _ 253]
    by (simp add: sample_hello_meaning [of 253, simplified])
  then obtain q where "tls_sni_parser_feed tls_sni_parser_init (Some (enc_records sample_records)) 254 =
      Some (q, TLS_SNI_PARSE_FOUND, h)"
    by (auto simp: feed_view_def)
  then show ?thesis using tls_found_host_valid by blast
qed

end
