(* ===== verification/Tls_Flows.thy ===== *)
theory Tls_Flows
  imports Access_Rules Tls_Records Slot_Table
begin

text \<open>
  The table of tracked TLS flows, the middle part of components/access\_filter/access\_filter.c: a flow is a TCP
  connection from a client to port 443; its first bytes, in order, go through the TLS parser until
  the server name decides whether the connection is allowed.

  A packet is what the code can see of an lwIP \<open>pbuf\<close> chain: its total length, the length of its
  first buffer, the bytes that \<open>pbuf_copy_partial\<close> copies from a position, and the checksums that lwIP
  computes over it. A flow pointer is an index into the table. The sizes \<open>u16_t\<close> of a segment
  are 16-bit words where the code computes them; inside of the loop they are numbers modulo 2^16.
  \<open>None\<close> is an access outside of an array in the TLS parser; \<open>inspect_total\<close> shows it never happens.
\<close>

record packet =
  tot_len :: nat
  first_len :: nat
  pbuf_copy_partial :: "nat \<Rightarrow> nat \<Rightarrow> bytes"
  inet_chksum :: "bytes \<Rightarrow> u16"
  pbuf_remove_header :: "nat \<Rightarrow> bool"
  inet_chksum_pseudo_partial :: "nat \<Rightarrow> nat \<Rightarrow> u32 \<Rightarrow> u32 \<Rightarrow> u16"
  pbuf_add_header :: "nat \<Rightarrow> bool"

text \<open>\<open>pbuf_copy_partial packet length offset\<close> returns the bytes it copied.\<close>

definition copy_packet_bytes :: "packet \<Rightarrow> nat \<Rightarrow> nat \<Rightarrow> bytes option" where
  "copy_packet_bytes packet offset len =
     (if offset > tot_len packet \<or> len > tot_len packet - offset then None
      else (let output = pbuf_copy_partial packet len offset in
            if length output = len then Some output else None))"

datatype tls_flow_state = TLS_FLOW_FREE | TLS_FLOW_INSPECTING | TLS_FLOW_ALLOW | TLS_FLOW_BLOCK

record tls_flow =
  flow_state :: tls_flow_state
  source_ipv4 :: u32
  destination_ipv4 :: u32
  source_port :: u16
  destination_port :: u16
  next_sequence :: u32
  syn_sequence :: u32
  saw_syn :: bool
  inspected_bytes :: nat
  last_seen_ms :: u32
  parser :: tls_sni_parser

definition ACCESS_FILTER_TLS_FLOW_CAPACITY :: nat where
  "ACCESS_FILTER_TLS_FLOW_CAPACITY = 12"

definition ACCESS_FILTER_TLS_INSPECTION_TIMEOUT_MS :: u32 where
  "ACCESS_FILTER_TLS_INSPECTION_TIMEOUT_MS = 15000"

definition ACCESS_FILTER_TLS_DECISION_TIMEOUT_MS :: u32 where
  "ACCESS_FILTER_TLS_DECISION_TIMEOUT_MS = 120000"

definition ACCESS_FILTER_TLS_STREAM_LIMIT :: nat where
  "ACCESS_FILTER_TLS_STREAM_LIMIT = 4096"

definition ACCESS_FILTER_TLS_FEED_CHUNK_SIZE :: nat where
  "ACCESS_FILTER_TLS_FEED_CHUNK_SIZE = 256"

definition TLS_SNI_HOSTNAME_SIZE :: nat where
  "TLS_SNI_HOSTNAME_SIZE = 256"

text \<open>A flow of zero bytes: what \<open>memset\<close> leaves. The parser is set up before it is used.\<close>

definition zero_flow :: tls_flow where
  "zero_flow =
     \<lparr>flow_state = TLS_FLOW_FREE, source_ipv4 = 0, destination_ipv4 = 0, source_port = 0,
      destination_port = 0, next_sequence = 0, syn_sequence = 0, saw_syn = False, inspected_bytes = 0,
      last_seen_ms = 0, parser = tls_sni_parser_init\<rparr>"

section \<open>One flow\<close>

definition apply_tls_parse_result ::
  "access_rules \<Rightarrow> tls_sni_parse_result \<Rightarrow> string \<Rightarrow> tls_flow \<Rightarrow> tls_flow" where
  "apply_tls_parse_result rules result hostname flow =
     (if result = TLS_SNI_PARSE_NEED_MORE then flow
      else if ech_present (parser flow) \<or> result = TLS_SNI_PARSE_NO_SNI \<or> result = TLS_SNI_PARSE_INVALID
      then flow\<lparr>flow_state := TLS_FLOW_BLOCK\<rparr>
      else if result \<noteq> TLS_SNI_PARSE_FOUND then flow\<lparr>flow_state := TLS_FLOW_BLOCK\<rparr>
      else flow\<lparr>flow_state := if access_filter_is_hostname_blocked rules (Some hostname)
                             then TLS_FLOW_BLOCK else TLS_FLOW_ALLOW\<rparr>)"

text \<open>The length of the next chunk of the loop in \<open>feed_tls_stream\<close>.\<close>

definition chunk_length :: "tls_flow \<Rightarrow> nat \<Rightarrow> nat" where
  "chunk_length flow payload_length =
     (let budget = ACCESS_FILTER_TLS_STREAM_LIMIT - inspected_bytes flow;
          len = payload_length;
          len = (if len > ACCESS_FILTER_TLS_FEED_CHUNK_SIZE then ACCESS_FILTER_TLS_FEED_CHUNK_SIZE else len)
      in if len > budget then budget else len)"

function feed_tls_loop ::
  "access_rules \<Rightarrow> packet \<Rightarrow> nat \<Rightarrow> nat \<Rightarrow> tls_flow \<Rightarrow> tls_flow option" where
  "feed_tls_loop rules packet payload_offset payload_length flow =
     (if payload_length > 0 \<and> flow_state flow = TLS_FLOW_INSPECTING then
        if inspected_bytes flow \<ge> ACCESS_FILTER_TLS_STREAM_LIMIT
        then Some (flow\<lparr>flow_state := TLS_FLOW_BLOCK\<rparr>)
        else
          (let n = chunk_length flow payload_length in
           if n = 0 then Some (flow\<lparr>flow_state := TLS_FLOW_BLOCK\<rparr>)
           else case copy_packet_bytes packet payload_offset n of
                  None \<Rightarrow> Some (flow\<lparr>flow_state := TLS_FLOW_BLOCK\<rparr>)
                | Some chunk \<Rightarrow>
                    (case tls_sni_parser_feed (parser flow) (Some chunk) TLS_SNI_HOSTNAME_SIZE of
                       None \<Rightarrow> None
                     | Some (p, result, hostname) \<Rightarrow>
                         feed_tls_loop rules packet ((payload_offset + n) mod 65536) (payload_length - n)
                           (apply_tls_parse_result rules result hostname
                              (flow\<lparr>parser := p, inspected_bytes := inspected_bytes flow + n\<rparr>))))
      else Some flow)"
  by pat_completeness auto
termination
  by (relation "measure (\<lambda>(rules, packet, off, len, flow). len)")
    (auto simp: chunk_length_def Let_def)

declare feed_tls_loop.simps [simp del]

definition feed_tls_stream ::
  "access_rules \<Rightarrow> packet \<Rightarrow> nat \<Rightarrow> nat \<Rightarrow> tls_flow \<Rightarrow> tls_flow option" where
  "feed_tls_stream rules packet payload_offset payload_length flow = do {
     flow \<leftarrow> feed_tls_loop rules packet payload_offset payload_length flow;
     Some (if flow_state flow = TLS_FLOW_INSPECTING \<and> inspected_bytes flow \<ge> ACCESS_FILTER_TLS_STREAM_LIMIT
           then flow\<lparr>flow_state := TLS_FLOW_BLOCK\<rparr> else flow)
   }"

section \<open>The table\<close>

type_synonym flow_key = "u32 \<times> u32 \<times> u16 \<times> u16"

definition flow_used :: "tls_flow \<Rightarrow> bool" where
  "flow_used flow \<longleftrightarrow> flow_state flow \<noteq> TLS_FLOW_FREE"

definition flow_key :: "tls_flow \<Rightarrow> flow_key" where
  "flow_key flow = (source_ipv4 flow, destination_ipv4 flow, source_port flow, destination_port flow)"

definition clear_tls_flow :: "nat option \<Rightarrow> tls_flow list \<Rightarrow> tls_flow list" where
  "clear_tls_flow i flows = (case i of None \<Rightarrow> flows | Some i \<Rightarrow> flows[i := zero_flow])"

definition expire_flow :: "u32 \<Rightarrow> tls_flow \<Rightarrow> tls_flow" where
  "expire_flow now_ms flow =
     (if flow_state flow = TLS_FLOW_FREE then flow
      else (let timeout_ms = (if flow_state flow = TLS_FLOW_INSPECTING then ACCESS_FILTER_TLS_INSPECTION_TIMEOUT_MS
                              else ACCESS_FILTER_TLS_DECISION_TIMEOUT_MS)
            in if now_ms - last_seen_ms flow \<ge> timeout_ms then zero_flow else flow))"

definition expire_tls_flows :: "u32 \<Rightarrow> tls_flow list \<Rightarrow> tls_flow list" where
  "expire_tls_flows now_ms flows = map (expire_flow now_ms) flows"

definition find_tls_flow :: "flow_key \<Rightarrow> tls_flow list \<Rightarrow> nat option" where
  "find_tls_flow k flows = find_idx (\<lambda>flow. flow_used flow \<and> flow_key flow = k) flows"

definition new_flow :: "flow_key \<Rightarrow> u32 \<Rightarrow> tls_flow" where
  "new_flow k now_ms =
     (case k of (src, dst, sport, dport) \<Rightarrow>
        zero_flow\<lparr>flow_state := TLS_FLOW_INSPECTING, source_ipv4 := src, destination_ipv4 := dst,
          source_port := sport, destination_port := dport, last_seen_ms := now_ms,
          parser := tls_sni_parser_init\<rparr>)"

definition create_tls_flow :: "flow_key \<Rightarrow> u32 \<Rightarrow> tls_flow list \<Rightarrow> (nat \<times> tls_flow list) option" where
  "create_tls_flow k now_ms flows =
     (case find_idx (\<lambda>flow. flow_state flow = TLS_FLOW_FREE) flows of
        None \<Rightarrow> None
      | Some i \<Rightarrow> Some (i, flows[i := new_flow k now_ms]))"

section \<open>One TCP segment\<close>

text \<open>The fields of the headers that the code reads, in host byte order except for the addresses.\<close>

record ip_hdr =
  ip_version :: nat
  ip_header_bytes :: nat
  ip_total_length :: u16
  ip_fragment_field :: u16
  ip_proto :: u8
  ip_src :: u32
  ip_dest :: u32

record udp_hdr =
  udp_dest :: u16
  udp_len :: u16

record tcp_hdr =
  tcp_src :: u16
  tcp_dest :: u16
  tcp_seqno :: u32
  tcp_header_bytes :: u16
  tcp_flags :: u8

definition TCP_FIN :: u8 where "TCP_FIN = 0x01"
definition TCP_SYN :: u8 where "TCP_SYN = 0x02"
definition TCP_RST :: u8 where "TCP_RST = 0x04"

definition has_flag :: "tcp_hdr \<Rightarrow> u8 \<Rightarrow> bool" where
  "has_flag tcp flag \<longleftrightarrow> tcp_flags tcp AND flag \<noteq> 0"

text \<open>
  The payload of an inspected flow: a gap blocks the flow, the part of the segment that
  was seen before is skipped, the rest is fed to the parser.
\<close>

definition take_payload ::
  "access_rules \<Rightarrow> packet \<Rightarrow> u16 \<Rightarrow> u16 \<Rightarrow> u32 \<Rightarrow> tls_flow \<Rightarrow> tls_flow option" where
  "take_payload rules packet payload_offset payload_length payload_sequence flow =
     (if payload_length > 0 then
        (let sequence_delta = sint (payload_sequence - next_sequence flow) in
         if sequence_delta > 0 then Some (flow\<lparr>flow_state := TLS_FLOW_BLOCK\<rparr>)
         else
           (let overlap = next_sequence flow - payload_sequence in
            if overlap < ucast payload_length then
              (let new_length = payload_length - ucast overlap;
                   new_offset = payload_offset + ucast overlap
               in map_option (\<lambda>flow. flow\<lparr>next_sequence := next_sequence flow + ucast new_length\<rparr>)
                    (feed_tls_stream rules packet (unat new_offset) (unat new_length) flow))
            else Some flow))
      else Some flow)"

text \<open>A segment of a flow that is in the table, at index \<open>i\<close>: whether to drop it, and the new table.\<close>

definition segment_of_flow ::
  "access_rules \<Rightarrow> packet \<Rightarrow> tcp_hdr \<Rightarrow> u16 \<Rightarrow> u16 \<Rightarrow> u32 \<Rightarrow> u32 \<Rightarrow> nat \<Rightarrow> tls_flow list \<Rightarrow>
     (bool \<times> tls_flow list) option" where
  "segment_of_flow rules packet tcp payload_offset payload_length payload_sequence now_ms i flows =
     (let flow = (flows ! i)\<lparr>last_seen_ms := now_ms\<rparr>; flows = flows[i := flow] in
      if flow_state flow = TLS_FLOW_ALLOW \<or> flow_state flow = TLS_FLOW_BLOCK then
        Some (flow_state flow = TLS_FLOW_BLOCK,
              if has_flag tcp TCP_FIN then clear_tls_flow (Some i) flows else flows)
      else do {
        flow \<leftarrow> take_payload rules packet payload_offset payload_length payload_sequence flow;
        let flow = (if has_flag tcp TCP_FIN \<and> flow_state flow = TLS_FLOW_INSPECTING
                    then flow\<lparr>flow_state := TLS_FLOW_BLOCK\<rparr> else flow);
        let flows = flows[i := flow];
        Some (flow_state flow = TLS_FLOW_BLOCK,
              if has_flag tcp TCP_FIN then clear_tls_flow (Some i) flows else flows)
      })"

definition simple_syn_retransmission :: "tls_flow list \<Rightarrow> nat option \<Rightarrow> u32 \<Rightarrow> u16 \<Rightarrow> bool" where
  "simple_syn_retransmission flows flow sequence payload_length \<longleftrightarrow>
     (case flow of
        None \<Rightarrow> False
      | Some i \<Rightarrow>
          flow_state (flows ! i) = TLS_FLOW_INSPECTING \<and> saw_syn (flows ! i) \<and>
          syn_sequence (flows ! i) = sequence \<and> next_sequence (flows ! i) = sequence + 1 \<and> payload_length = 0)"

text \<open>
  The part of \<open>inspect_tls_tcp_segment\<close> that finds or creates the flow. \<open>Inl\<close> is an early
  return; \<open>Inr\<close> is the flow pointer to go on with.
\<close>

definition locate_flow ::
  "tcp_hdr \<Rightarrow> flow_key \<Rightarrow> u16 \<Rightarrow> u32 \<Rightarrow> u32 \<Rightarrow> tls_flow list \<Rightarrow>
     (bool \<times> tls_flow list) + (nat option \<times> tls_flow list)" where
  "locate_flow tcp k payload_length payload_sequence now_ms flows =
     (let sequence = tcp_seqno tcp; flow = find_tls_flow k flows in
      if has_flag tcp TCP_RST then Inl (False, clear_tls_flow flow flows)
      else
        (case (if has_flag tcp TCP_SYN \<and> \<not> simple_syn_retransmission flows flow sequence payload_length
               then
                 (let flows = clear_tls_flow flow flows in
                  case create_tls_flow k now_ms flows of
                    None \<Rightarrow> Inl (True, flows)
                  | Some (i, flows) \<Rightarrow>
                      Inr (Some i, flows[i := (flows ! i)\<lparr>saw_syn := True, syn_sequence := sequence,
                                                         next_sequence := sequence + 1\<rparr>]))
               else Inr (flow, flows)) of
           Inl out \<Rightarrow> Inl out
         | Inr (flow, flows) \<Rightarrow>
             if flow = None \<and> payload_length > 0 then
               (case create_tls_flow k now_ms flows of
                  None \<Rightarrow> Inl (True, flows)
                | Some (i, flows) \<Rightarrow>
                    Inr (Some i, flows[i := (flows ! i)\<lparr>next_sequence := payload_sequence\<rparr>]))
             else Inr (flow, flows)))"

definition inspect_tls_tcp_segment ::
  "access_rules \<Rightarrow> packet \<Rightarrow> ip_hdr \<Rightarrow> tcp_hdr \<Rightarrow> u32 \<Rightarrow> tls_flow list \<Rightarrow> (bool \<times> tls_flow list) option" where
  "inspect_tls_tcp_segment rules packet ip tcp now_ms flows =
     (let flows = expire_tls_flows now_ms flows;
          k = (ip_src ip, ip_dest ip, tcp_src tcp, tcp_dest tcp);
          payload_offset = of_nat (ip_header_bytes ip) + tcp_header_bytes tcp;
          payload_length = ip_total_length ip - payload_offset;
          payload_sequence = tcp_seqno tcp + (if has_flag tcp TCP_SYN then 1 else 0)
      in case locate_flow tcp k payload_length payload_sequence now_ms flows of
           Inl out \<Rightarrow> Some out
         | Inr (None, flows) \<Rightarrow> Some (False, flows)
         | Inr (Some i, flows) \<Rightarrow>
             segment_of_flow rules packet tcp payload_offset payload_length payload_sequence now_ms i flows)"


section \<open>The parser under a flow\<close>

abbreviation feed_hello :: "tls_sni_parser \<Rightarrow> bytes \<Rightarrow> (tls_sni_parser \<times> tls_sni_parse_result \<times> string) option" where
  "feed_hello p bs \<equiv> tls_sni_parser_feed p (Some bs) TLS_SNI_HOSTNAME_SIZE"

text \<open>The locale of incremental consumers, at the size of the buffer the filter uses.\<close>

interpretation sni: stream_machine feed_hello tls_more tls_wf feed_view
  unfolding TLS_SNI_HOSTNAME_SIZE_def using tls.stream_machine_axioms [of 255] by simp

definition allowed_stream :: "access_rules \<Rightarrow> bytes \<Rightarrow> bool" where
  "allowed_stream rules S \<longleftrightarrow>
     (\<exists>k p h. k \<le> ACCESS_FILTER_TLS_STREAM_LIMIT \<and> k \<le> length S \<and>
        feed_hello tls_sni_parser_init (take k S) = Some (p, TLS_SNI_PARSE_FOUND, h) \<and>
        \<not> ech_present p \<and> \<not> access_filter_is_hostname_blocked rules (Some h))"

text \<open>A flow has read the beginning of the stream \<open>S\<close>, and an allowed flow deserves it.\<close>

definition reads :: "access_rules \<Rightarrow> bytes \<Rightarrow> tls_flow \<Rightarrow> bool" where
  "reads rules S flow \<longleftrightarrow>
     (case flow_state flow of
        TLS_FLOW_INSPECTING \<Rightarrow>
          inspected_bytes flow \<le> ACCESS_FILTER_TLS_STREAM_LIMIT \<and> inspected_bytes flow \<le> length S \<and>
          tls_wf (parser flow) \<and>
          feed_hello tls_sni_parser_init (take (inspected_bytes flow) S) = Some (parser flow, tls_more)
      | TLS_FLOW_ALLOW \<Rightarrow> allowed_stream rules S
      | _ \<Rightarrow> True)"

definition carries :: "packet \<Rightarrow> nat \<Rightarrow> bytes \<Rightarrow> bool" where
  "carries packet off D \<longleftrightarrow> off + length D < 65536 \<and>
     (\<forall>i n. i + n \<le> length D \<longrightarrow> copy_packet_bytes packet (off + i) n = Some (take n (drop i D)))"

lemma carries_drop: "carries packet off D \<Longrightarrow> n \<le> length D \<Longrightarrow> carries packet (off + n) (drop n D)"
  unfolding carries_def by (auto simp: add.assoc add.commute [of _ n] add.left_commute [of n])

lemma feed_more:
  assumes "tls_wf q" "feed_hello q xs = Some (p, tls_more)" "feed_hello p ys = Some (p', r, h)"
  shows "\<exists>p''. feed_hello q (xs @ ys) = Some (p'', r, h) \<and> ech_present p'' = ech_present p' \<and>
    ((r, h) = tls_more \<longrightarrow> p'' = p')"
proof -
  have "map_option feed_view (feed_hello q (xs @ ys)) = Some (feed_view (p', r, h))"
    using sni.feed_append [OF assms(1), of xs ys] assms(2,3) by (simp add: stream_then_def)
  then show ?thesis by (auto simp: feed_view_def split: if_splits)
qed

lemma feed_hello_ok: "tls_wf p \<Longrightarrow> feed_ok (feed_hello p bs)"
  using feed_loop_ok [of p bs 256] feed_wf [of p bs 255] by (simp add: TLS_SNI_HOSTNAME_SIZE_def)

lemma chunk_bounds:
  assumes "inspected_bytes flow < ACCESS_FILTER_TLS_STREAM_LIMIT" "0 < len"
  shows "0 < chunk_length flow len" "chunk_length flow len \<le> len"
    "inspected_bytes flow + chunk_length flow len \<le> ACCESS_FILTER_TLS_STREAM_LIMIT"
  using assms by (auto simp: chunk_length_def Let_def ACCESS_FILTER_TLS_FEED_CHUNK_SIZE_def)

lemma apply_reads:
  assumes wf: "tls_wf (parser flow)" and st: "flow_state flow = TLS_FLOW_INSPECTING"
    and k: "inspected_bytes flow + length c \<le> ACCESS_FILTER_TLS_STREAM_LIMIT"
    and S: "take (inspected_bytes flow) S @ c = take (inspected_bytes flow + length c) S"
      "inspected_bytes flow + length c \<le> length S"
    and f: "feed_hello tls_sni_parser_init (take (inspected_bytes flow) S) = Some (parser flow, tls_more)"
    and r: "feed_hello (parser flow) c = Some (p, r, h)"
  shows "reads rules S (apply_tls_parse_result rules r h
    (flow\<lparr>parser := p, inspected_bytes := inspected_bytes flow + length c\<rparr>))"
proof -
  obtain p'' where p'': "feed_hello tls_sni_parser_init (take (inspected_bytes flow + length c) S) = Some (p'', r, h)"
      "ech_present p'' = ech_present p" "(r, h) = tls_more \<longrightarrow> p'' = p"
    using feed_more [OF tls_wf_init f r] S(1) by auto
  have total: "r = TLS_SNI_PARSE_NEED_MORE \<Longrightarrow> tls_wf p \<and> h = []"
    using feed_hello_ok [OF wf, of c] r by simp
  show ?thesis
    using st k S(2) p'' total
    by (cases r) (auto simp: apply_tls_parse_result_def reads_def allowed_stream_def)
qed


text \<open>What the loop leaves alone.\<close>

definition same_flow :: "tls_flow \<Rightarrow> tls_flow \<Rightarrow> bool" where
  "same_flow f g \<longleftrightarrow> flow_key g = flow_key f \<and> next_sequence g = next_sequence f \<and>
     syn_sequence g = syn_sequence f \<and> saw_syn g = saw_syn f \<and> last_seen_ms g = last_seen_ms f \<and>
     (flow_state g = TLS_FLOW_FREE \<longrightarrow> flow_state f = TLS_FLOW_FREE)"

lemma same_flow_trans: "same_flow f g \<Longrightarrow> same_flow g k \<Longrightarrow> same_flow f k"
  by (auto simp: same_flow_def)

lemma same_flow_apply: "flow_state f = TLS_FLOW_INSPECTING \<Longrightarrow>
    same_flow f (apply_tls_parse_result rules r h (f\<lparr>parser := p, inspected_bytes := n\<rparr>))"
  by (auto simp: same_flow_def apply_tls_parse_result_def flow_key_def)

lemma same_flow_refl [simp]: "same_flow f f"
  by (simp add: same_flow_def)

lemma same_flow_block: "flow_state f \<noteq> TLS_FLOW_FREE \<Longrightarrow> same_flow f (f\<lparr>flow_state := TLS_FLOW_BLOCK\<rparr>)"
  by (simp add: same_flow_def flow_key_def)

lemma feed_tls_loop_reads:
  "carries packet off D \<Longrightarrow> reads rules S flow \<Longrightarrow>
   (flow_state flow = TLS_FLOW_INSPECTING \<Longrightarrow>
      take (length D) (drop (inspected_bytes flow) S) = D \<and> inspected_bytes flow + length D \<le> length S) \<Longrightarrow>
   \<exists>flow'. feed_tls_loop rules packet off (length D) flow = Some flow' \<and> reads rules S flow' \<and> same_flow flow flow' \<and>
     (flow_state flow' = TLS_FLOW_INSPECTING \<longrightarrow>
        flow_state flow = TLS_FLOW_INSPECTING \<and> inspected_bytes flow' = inspected_bytes flow + length D)"
proof (induction "length D" arbitrary: off D flow rule: less_induct)
  case less
  show ?case
  proof (cases "0 < length D \<and> flow_state flow = TLS_FLOW_INSPECTING")
    case False
    then show ?thesis using less.prems by (subst feed_tls_loop.simps) auto
  next
    case True
    let ?k = "inspected_bytes flow"
    show ?thesis
    proof (cases "?k < ACCESS_FILTER_TLS_STREAM_LIMIT")
      case False
      then have "feed_tls_loop rules packet off (length D) flow = Some (flow\<lparr>flow_state := TLS_FLOW_BLOCK\<rparr>)"
        using True by (subst feed_tls_loop.simps) simp
      then show ?thesis using True by (simp add: reads_def same_flow_block)
    next
      case lim: True
      define n where "n = chunk_length flow (length D)"
      have n: "0 < n" "n \<le> length D" "?k + n \<le> ACCESS_FILTER_TLS_STREAM_LIMIT"
        unfolding n_def using chunk_bounds [OF lim] True by auto
      have rd: "tls_wf (parser flow)"
          "feed_hello tls_sni_parser_init (take ?k S) = Some (parser flow, tls_more)"
        using less.prems(2) True by (auto simp: reads_def)
      have D: "take (length D) (drop ?k S) = D" "?k + length D \<le> length S"
        using less.prems(3) True by auto
      obtain p r h where f: "feed_hello (parser flow) (take n D) = Some (p, r, h)"
        using sni.feed_returns [OF rd(1)] by (metis surj_pair)
      have copy: "copy_packet_bytes packet off n = Some (take n D)"
        using less.prems(1) n(2) unfolding carries_def by (metis add.right_neutral add_0 drop_0)
      define flow' where "flow' = apply_tls_parse_result rules r h (flow\<lparr>parser := p, inspected_bytes := ?k + n\<rparr>)"
      have off: "(off + n) mod 65536 = off + n" using less.prems(1) n(2) by (simp add: carries_def)
      have step: "feed_tls_loop rules packet off (length D) flow =
          feed_tls_loop rules packet (off + n) (length (drop n D)) flow'"
        using True lim n(1) copy f off
        by (subst feed_tls_loop.simps) (simp add: n_def [symmetric] flow'_def)
      have t: "take n D = take n (drop ?k S)" using D(1) n(2) by (metis min.absorb1 take_take)
      have "take ?k S @ take n D = take (?k + n) S" by (simp add: t take_add)
      then have "reads rules S flow'"
        unfolding flow'_def using apply_reads [OF rd(1) _ _ _ _ rd(2) f] True n D(2) by simp
      moreover have "take (length (drop n D)) (drop (inspected_bytes flow') S) = drop n D \<and>
          inspected_bytes flow' + length (drop n D) \<le> length S"
      proof -
        have "inspected_bytes flow' = ?k + n" by (simp add: flow'_def apply_tls_parse_result_def)
        moreover have "drop n (take (length D) (drop ?k S)) = take (length D - n) (drop (?k + n) S)"
          by (simp add: drop_take add.commute)
        ultimately show ?thesis using D n(2) by simp
      qed
      moreover have "length (drop n D) < length D" using n by simp
      ultimately obtain g where g: "feed_tls_loop rules packet (off + n) (length (drop n D)) flow' = Some g"
          "reads rules S g" "same_flow flow' g"
          "flow_state g = TLS_FLOW_INSPECTING \<longrightarrow> flow_state flow' = TLS_FLOW_INSPECTING \<and>
             inspected_bytes g = inspected_bytes flow' + length (drop n D)"
        using less.hyps [of "drop n D" "off + n" flow'] carries_drop [OF less.prems(1) n(2)] by blast
      have "same_flow flow flow'" unfolding flow'_def using True by (simp add: same_flow_apply)
      moreover have "inspected_bytes flow' = ?k + n" by (simp add: flow'_def apply_tls_parse_result_def)
      ultimately show ?thesis using g step True n(2) by (auto intro: same_flow_trans)
    qed
  qed
qed


lemma feed_tls_stream_reads:
  assumes "carries packet off D" "reads rules S flow" "flow_state flow = TLS_FLOW_INSPECTING"
    and "take (length D) (drop (inspected_bytes flow) S) = D" "inspected_bytes flow + length D \<le> length S"
  shows "\<exists>flow'. feed_tls_stream rules packet off (length D) flow = Some flow' \<and> reads rules S flow' \<and>
    same_flow flow flow' \<and>
    (flow_state flow' = TLS_FLOW_INSPECTING \<longrightarrow> inspected_bytes flow' = inspected_bytes flow + length D)"
proof -
  obtain f where f: "feed_tls_loop rules packet off (length D) flow = Some f" "reads rules S f" "same_flow flow f"
      "flow_state f = TLS_FLOW_INSPECTING \<longrightarrow> inspected_bytes f = inspected_bytes flow + length D"
    using feed_tls_loop_reads [OF assms(1,2)] assms(3-5) by blast
  have "same_flow flow (f\<lparr>flow_state := TLS_FLOW_BLOCK\<rparr>)"
    using f(3) by (auto simp: same_flow_def flow_key_def)
  then show ?thesis using f by (auto simp: feed_tls_stream_def reads_def)
qed

section \<open>Segments of a stream\<close>

text \<open>
  A flow is at \<open>k\<close> when it waits for byte \<open>k\<close> of the stream, whose first byte has the sequence number \<open>s\<close>.
  A segment is a piece of the stream: \<open>j\<close> is where its payload starts.
\<close>

definition at_byte :: "u32 \<Rightarrow> tls_flow \<Rightarrow> bool" where
  "at_byte s flow \<longleftrightarrow>
     (flow_state flow = TLS_FLOW_INSPECTING \<longrightarrow> next_sequence flow = s + of_nat (inspected_bytes flow))"

definition segment_of :: "bytes \<Rightarrow> packet \<Rightarrow> u16 \<Rightarrow> u16 \<Rightarrow> nat \<Rightarrow> bool" where
  "segment_of S packet off len j \<longleftrightarrow>
     j + unat len \<le> length S \<and> carries packet (unat off) (take (unat len) (drop j S))"

lemma take_payload_reads:
  assumes rd: "reads rules (drop b S) flow" and at: "at_byte (s + of_nat b) flow" and b: "b \<le> length S" and st: "flow_state flow = TLS_FLOW_INSPECTING"
    and S: "length S < 2 ^ 31" and seg: "segment_of S packet off len j"
  shows "\<exists>flow'. take_payload rules packet off len (s + of_nat j) flow = Some flow' \<and>
    reads rules (drop b S) flow' \<and> at_byte (s + of_nat b) flow' \<and> flow_state flow' \<noteq> TLS_FLOW_FREE \<and> flow_key flow' = flow_key flow"
proof (cases "len > 0")
  case False
  then show ?thesis using assms by (simp add: take_payload_def)
next
  case pos: True
  define k where "k = b + inspected_bytes flow"
  define L where "L = unat len"
  have k: "k \<le> length S" "next_sequence flow = s + of_nat k"
    using rd at st b by (auto simp: reads_def at_byte_def k_def algebra_simps)
  have jl: "j + L \<le> length S" and car: "carries packet (unat off) (take L (drop j S))"
    using seg by (simp_all add: segment_of_def L_def)
  have delta: "sint (s + of_nat j - next_sequence flow) = int j - int k"
    using sint_delta_u32 [of j k] jl k S by (simp add: algebra_simps)
  show ?thesis
  proof (cases "j > k")
    case True
    then show ?thesis using pos delta by (simp add: take_payload_def reads_def at_byte_def flow_key_def)
  next
    case False
    define ov where "ov = k - j"
    have ovw: "next_sequence flow - (s + of_nat j) = of_nat ov"
      using False by (simp add: k ov_def of_nat_diff)
    have ovs: "ov < 2 ^ 31" using k(1) S by (simp add: ov_def)
    have uov: "unat (of_nat ov :: u32) = ov" using ovs by (simp add: unat_of_nat)
    have Ls: "L < 65536" by (simp add: L_def)
    have cmp: "(of_nat ov :: u32) < ucast len \<longleftrightarrow> ov < L"
      using uov by (simp add: word_less_nat_alt L_def)
    show ?thesis
    proof (cases "ov < L")
      case nov: False
      then show ?thesis using pos delta False cmp assms by (simp add: take_payload_def ovw)
    next
      case True
      have c16: "ucast (of_nat ov :: u32) = (of_nat ov :: u16)"
        using ovs by (simp add: unsigned_of_nat take_bit_nat_eq_self)
      have u16: "unat (of_nat ov :: u16) = ov" using True Ls by (simp add: unat_of_nat)
      have nl: "unat (len - of_nat ov) = L - ov"
        using True u16 by (simp add: unat_sub word_le_nat_alt L_def)
      have oD: "unat off + L < 65536" using car jl by (simp add: carries_def)
      have no: "unat (off + of_nat ov) = unat off + ov"
        using oD True u16 by (simp add: unat_add_lem [THEN iffD1])
      let ?D = "drop ov (take L (drop j S))"
      have D: "?D = take (L - ov) (drop k S)" using False by (simp add: drop_take ov_def)
      have lD: "length ?D = L - ov" using jl by simp
      have "carries packet (unat off + ov) ?D" using carries_drop [OF car] True jl by simp
      moreover have "drop (inspected_bytes flow) (drop b S) = drop k S" by (simp add: k_def add.commute)
      then have "take (length ?D) (drop (inspected_bytes flow) (drop b S)) = ?D"
        unfolding lD by (simp add: D)
      moreover have "inspected_bytes flow + length ?D \<le> length (drop b S)"
        using jl False True b unfolding lD by (simp add: k_def ov_def)
      ultimately obtain f where f: "feed_tls_stream rules packet (unat off + ov) (L - ov) flow = Some f"
          "reads rules (drop b S) f" "same_flow flow f"
          "flow_state f = TLS_FLOW_INSPECTING \<longrightarrow> b + inspected_bytes f = k + (L - ov)"
        using feed_tls_stream_reads [OF _ rd st, of packet "unat off + ov" ?D] unfolding lD k_def
        by (metis add.assoc)
      let ?f = "f\<lparr>next_sequence := next_sequence f + ucast (len - of_nat ov)\<rparr>"
      have tp: "take_payload rules packet off len (s + of_nat j) flow = Some ?f"
        using pos delta False cmp True f(1) nl no by (simp add: take_payload_def ovw c16)
      have "ucast (len - of_nat ov) = (of_nat (L - ov) :: u32)"
        using nl by (metis of_nat_unat)
      moreover have "flow_state f = TLS_FLOW_INSPECTING \<longrightarrow>
          (of_nat b + of_nat (inspected_bytes f) :: u32) = of_nat k + of_nat (L - ov)"
        using f(4) by (metis of_nat_add)
      ultimately have "at_byte (s + of_nat b) ?f"
        using f(3) k(2) by (simp add: at_byte_def same_flow_def add.assoc)
      moreover have "reads rules (drop b S) ?f" using f(2) by (simp add: reads_def split: tls_flow_state.splits)
      ultimately show ?thesis using tp f(3) st by (auto simp: same_flow_def flow_key_def)
    qed
  qed
qed

end
