(* ===== verification/Flow_Table.thy ===== *)
theory Flow_Table
  imports Tls_Flows
begin

text \<open>
  The flow table: no operation leaves the arrays or fails to end, a 4-tuple has at most one
  flow, a segment touches only the flow of its own 4-tuple, and an allowed flow is one whose stream really
  starts with a ClientHello for a name that is not blocked.
\<close>

section \<open>Every flow stays well-formed\<close>

definition flow_wf :: "tls_flow \<Rightarrow> bool" where
  "flow_wf flow \<longleftrightarrow> (flow_state flow = TLS_FLOW_INSPECTING \<longrightarrow> tls_wf (parser flow))"

definition flows_ok :: "tls_flow list \<Rightarrow> bool" where
  "flows_ok flows \<longleftrightarrow> table_ok flow_used flow_key flows \<and> list_all flow_wf flows"

abbreviation flow_map :: "tls_flow list \<Rightarrow> flow_key \<Rightarrow> tls_flow option" where
  "flow_map \<equiv> table_map flow_used flow_key"

interpretation flows: slot_table flow_used flow_key zero_flow
  by unfold_locales (simp add: flow_used_def zero_flow_def)

lemma apply_wf: "flow_state flow = TLS_FLOW_INSPECTING \<Longrightarrow> feed_ok (Some (p, r, h)) \<Longrightarrow>
   flow_wf (apply_tls_parse_result rules r h (flow\<lparr>parser := p, inspected_bytes := n\<rparr>))"
  by (cases r) (auto simp: apply_tls_parse_result_def flow_wf_def)

lemma feed_tls_loop_total:
  "flow_wf flow \<Longrightarrow> \<exists>flow'. feed_tls_loop rules packet off len flow = Some flow' \<and> flow_wf flow' \<and> same_flow flow flow'"
proof (induction rules packet off len flow rule: feed_tls_loop.induct)
  case (1 rules packet off len flow)
  show ?case
  proof (cases "len > 0 \<and> flow_state flow = TLS_FLOW_INSPECTING \<and> inspected_bytes flow < ACCESS_FILTER_TLS_STREAM_LIMIT")
    case False
    then show ?thesis using 1(2) by (subst feed_tls_loop.simps) (auto simp: flow_wf_def same_flow_block)
  next
    case True
    define n where "n = chunk_length flow len"
    show ?thesis
    proof (cases "n = 0 \<or> copy_packet_bytes packet off n = None")
      case stop: True
      then show ?thesis using 1(2) True
        by (subst feed_tls_loop.simps) (auto simp: flow_wf_def same_flow_block n_def [symmetric])
    next
      case False
      then obtain c where c: "copy_packet_bytes packet off n = Some c" "n \<noteq> 0" by auto
      have wf: "tls_wf (parser flow)" using 1(2) True by (simp add: flow_wf_def)
      obtain p r h where f: "feed_hello (parser flow) c = Some (p, r, h)"
        using sni.feed_returns [OF wf] by (metis surj_pair)
      let ?g = "apply_tls_parse_result rules r h (flow\<lparr>parser := p, inspected_bytes := inspected_bytes flow + n\<rparr>)"
      have g: "flow_wf ?g" using feed_hello_ok [OF wf, of c] True f by (intro apply_wf) auto
      have s: "same_flow flow ?g" using True by (simp add: same_flow_apply)
      have step: "feed_tls_loop rules packet off len flow =
          feed_tls_loop rules packet ((off + n) mod 65536) (len - n) ?g"
        using True c f by (subst feed_tls_loop.simps) (simp add: n_def [symmetric])
      have "\<exists>flow'. feed_tls_loop rules packet ((off + n) mod 65536) (len - n) ?g = Some flow' \<and>
          flow_wf flow' \<and> same_flow ?g flow'"
        using 1(1) [of n c "(p, r, h)" p "(r, h)" r h] True c f g n_def by simp
      then show ?thesis using step s by (auto intro: same_flow_trans)
    qed
  qed
qed

lemma take_payload_total:
  assumes "flow_wf flow" "flow_state flow \<noteq> TLS_FLOW_FREE"
  shows "\<exists>flow'. take_payload rules packet off len seq flow = Some flow' \<and> flow_wf flow' \<and>
    flow_key flow' = flow_key flow \<and> flow_state flow' \<noteq> TLS_FLOW_FREE"
proof -
  let ?ov = "next_sequence flow - seq"
  obtain f where f: "feed_tls_loop rules packet (unat (off + ucast ?ov)) (unat (len - ucast ?ov)) flow = Some f"
      "flow_wf f" "same_flow flow f"
    using feed_tls_loop_total [OF assms(1)] by blast
  then show ?thesis
    using assms
    by (auto simp: take_payload_def feed_tls_stream_def Let_def flow_wf_def same_flow_def flow_key_def)
qed

section \<open>Finding and creating flows\<close>

lemma find_tls_flow_slot: "find_tls_flow k flows = slot_of flow_used flow_key flows k"
  by (simp add: find_tls_flow_def slot_of_def)

lemma flows_ok_set:
  assumes "flows_ok flows" "flow_wf f" "table_ok flow_used flow_key (flows[i := f])"
  shows "flows_ok (flows[i := f])"
  using assms by (auto simp: flows_ok_def list_all_iff dest!: set_update_subset_insert [THEN subsetD])

lemma flow_wf_zero: "flow_wf zero_flow" "\<not> flow_used zero_flow"
  by (simp_all add: flow_wf_def flow_used_def zero_flow_def)

lemma flow_map_out: "slot_of flow_used flow_key flows k = None \<Longrightarrow> flow_map flows k = None"
  by (simp add: table_map_def)

lemma clear_tls_flow_spec:
  assumes ok: "flows_ok flows"
  shows "flows_ok (clear_tls_flow (find_tls_flow k flows) flows)"
    "flow_map (clear_tls_flow (find_tls_flow k flows) flows) = (flow_map flows)(k := None)"
    "length (clear_tls_flow (find_tls_flow k flows) flows) = length flows"
proof -
  have t: "table_ok flow_used flow_key flows" using ok by (simp add: flows_ok_def)
  have "flows_ok (clear_tls_flow (find_tls_flow k flows) flows) \<and>
    flow_map (clear_tls_flow (find_tls_flow k flows) flows) = (flow_map flows)(k := None) \<and>
    length (clear_tls_flow (find_tls_flow k flows) flows) = length flows"
  proof (cases "slot_of flow_used flow_key flows k")
    case None
    then show ?thesis using ok
      by (simp add: clear_tls_flow_def find_tls_flow_slot fun_upd_idem flow_map_out)
  next
    case (Some i)
    then show ?thesis
      using ok flows.ok_free [OF t flow_wf_zero(2), of i] flows.map_free [OF t Some flow_wf_zero(2)] flow_wf_zero
      by (simp add: clear_tls_flow_def find_tls_flow_slot flows_ok_set)
  qed
  then show "flows_ok (clear_tls_flow (find_tls_flow k flows) flows)"
    "flow_map (clear_tls_flow (find_tls_flow k flows) flows) = (flow_map flows)(k := None)"
    "length (clear_tls_flow (find_tls_flow k flows) flows) = length flows" by blast+
qed

lemma expire_spec:
  assumes ok: "flows_ok flows"
  shows "flows_ok (expire_tls_flows now flows)"
    "flow_map (expire_tls_flows now flows) k =
       (case flow_map flows k of None \<Rightarrow> None
        | Some f \<Rightarrow> if flow_used (expire_flow now f) then Some f else None)"
proof -
  have t: "table_ok flow_used flow_key flows" using ok by (simp add: flows_ok_def)
  have e: "flow_used (expire_flow now f) \<Longrightarrow> flow_used f \<and> expire_flow now f = f" for f
    by (auto simp: expire_flow_def flow_used_def Let_def zero_flow_def split: if_splits)
  have z: "expire_flow now f = f \<or> expire_flow now f = zero_flow" for f
    by (simp add: expire_flow_def Let_def)
  have t': "table_ok flow_used flow_key (expire_tls_flows now flows)"
    unfolding expire_tls_flows_def by (rule flows.ok_map [OF t]) (metis e)
  show "flows_ok (expire_tls_flows now flows)"
    using ok t' z flow_wf_zero(1) by (simp add: flows_ok_def list_all_iff expire_tls_flows_def) metis
  have "flow_map (expire_tls_flows now flows) k = Some g \<longleftrightarrow>
      flow_map flows k = Some g \<and> flow_used (expire_flow now g)" for g
    unfolding table_map_eq_Some [OF t'] table_map_eq_Some [OF t]
    by (auto simp: expire_tls_flows_def) (metis e nth_map)+
  then show "flow_map (expire_tls_flows now flows) k =
       (case flow_map flows k of None \<Rightarrow> None
        | Some f \<Rightarrow> if flow_used (expire_flow now f) then Some f else None)"
    by (intro option_eqI) (auto split: option.split)
qed

definition fresh_at :: "u32 \<Rightarrow> tls_flow \<Rightarrow> bool" where
  "fresh_at seq f \<longleftrightarrow> flow_state f = TLS_FLOW_INSPECTING \<and> inspected_bytes f = 0 \<and>
     parser f = tls_sni_parser_init \<and> next_sequence f = seq"

lemma create_then:
  assumes ok: "flows_ok flows" and none: "slot_of flow_used flow_key flows k = None"
    and c: "create_tls_flow k now flows = Some (i, flows')"
    and g: "\<And>f. flow_state (g f) = flow_state f" "\<And>f. flow_key (g f) = flow_key f" "\<And>f. parser (g f) = parser f"
  shows "flows_ok (flows'[i := g (flows' ! i)])" "i < length flows'"
    "flows' ! i = new_flow k now" "length flows' = length flows"
    "flow_map (flows'[i := g (flows' ! i)]) = (flow_map flows)(k \<mapsto> g (new_flow k now))"
proof -
  from c have i: "i < length flows" "\<not> flow_used (flows ! i)" "flows' = flows[i := new_flow k now]"
    by (auto simp: create_tls_flow_def flow_used_def split: option.splits dest: find_idx_SomeD)
  have n: "flow_used (new_flow k now)" "flow_key (new_flow k now) = k" "flow_wf (new_flow k now)"
    by (auto simp: new_flow_def flow_used_def flow_key_def flow_wf_def tls_wf_init split: prod.split)
  have gn: "flow_used (g (new_flow k now))" "flow_key (g (new_flow k now)) = k" "flow_wf (g (new_flow k now))"
    using n g by (simp_all add: flow_used_def flow_wf_def)
  have t: "table_ok flow_used flow_key flows" using ok by (simp add: flows_ok_def)
  show "flows' ! i = new_flow k now" "i < length flows'" "length flows' = length flows" using i by simp_all
  have e: "flows'[i := g (flows' ! i)] = flows[i := g (new_flow k now)]" using i by simp
  show "flows_ok (flows'[i := g (flows' ! i)])"
    unfolding e using ok flows.ok_insert [OF t none gn(2)] gn(3) by (simp add: flows_ok_set)
  show "flow_map (flows'[i := g (flows' ! i)]) = (flow_map flows)(k \<mapsto> g (new_flow k now))"
    unfolding e using flows.map_insert [OF t none i(1,2) gn(1,2)] .
qed


section \<open>One segment\<close>

definition first_seq :: "tcp_hdr \<Rightarrow> u32" where
  "first_seq tcp = tcp_seqno tcp + (if has_flag tcp TCP_SYN then 1 else 0)"

lemma new_flow_fresh:
  "fresh_at seq (new_flow k now\<lparr>next_sequence := seq\<rparr>)"
  "fresh_at seq (new_flow k now\<lparr>saw_syn := True, syn_sequence := q, next_sequence := seq\<rparr>)"
  "flow_key (new_flow k now\<lparr>next_sequence := seq\<rparr>) = k"
  "flow_key (new_flow k now\<lparr>saw_syn := True, syn_sequence := q, next_sequence := seq\<rparr>) = k"
  by (cases k; simp add: fresh_at_def new_flow_def zero_flow_def flow_key_def)+

lemma locate_flow_cases:
  assumes ok: "flows_ok flows" and s: "seq = first_seq tcp"
  obtains (finish) b flows' where "locate_flow tcp k len seq now flows = Inl (b, flows')" "flows_ok flows'"
      "\<And>k'. k' \<noteq> k \<Longrightarrow> flow_map flows' k' = flow_map flows k'" "flow_map flows' k = None"
      "b \<longleftrightarrow> \<not> has_flag tcp TCP_RST" "length flows' = length flows"
  | (none) "locate_flow tcp k len seq now flows = Inr (None, flows)" "flow_map flows k = None" "len = 0"
  | (old) i where "locate_flow tcp k len seq now flows = Inr (Some i, flows)" "slot_of flow_used flow_key flows k = Some i"
      "\<not> has_flag tcp TCP_RST"
  | (fresh) i flows' where "locate_flow tcp k len seq now flows = Inr (Some i, flows')" "flows_ok flows'"
      "slot_of flow_used flow_key flows' k = Some i" "fresh_at seq (flows' ! i)"
      "\<And>k'. k' \<noteq> k \<Longrightarrow> flow_map flows' k' = flow_map flows k'" "length flows' = length flows"
proof (cases "has_flag tcp TCP_RST")
  case True
  then show ?thesis
    using finish [of False] clear_tls_flow_spec [OF ok, of k] by (simp add: locate_flow_def)
next
  case rst: False
  let ?c = "clear_tls_flow (find_tls_flow k flows) flows"
  note c = clear_tls_flow_spec [OF ok, of k]
  have slot: "slot_of flow_used flow_key fl k = Some i"
    if "flows_ok fl" "flow_map fl = m(k \<mapsto> f)" "i < length fl" "fl ! i = f" "flow_used f" "flow_key f = k" for fl m f i
    using that by (simp add: flows_ok_def slot_of_eq)
  have used: "flow_used f" if "fresh_at q f" for f q using that by (simp add: fresh_at_def flow_used_def)
  show ?thesis
  proof (cases "has_flag tcp TCP_SYN \<and> \<not> simple_syn_retransmission flows (find_tls_flow k flows) (tcp_seqno tcp) len")
    case True
    have cn: "slot_of flow_used flow_key ?c k = None"
      using c(2) by (metis fun_upd_same option.map_disc_iff table_map_def)
    show ?thesis
    proof (cases "create_tls_flow k now ?c")
      case None
      then show ?thesis using True rst c finish by (simp add: locate_flow_def Let_def)
    next
      case (Some r)
      then obtain i fl where r: "create_tls_flow k now ?c = Some (i, fl)" by (cases r) auto
      let ?g = "\<lambda>f. f\<lparr>saw_syn := True, syn_sequence := tcp_seqno tcp, next_sequence := tcp_seqno tcp + 1\<rparr>"
      note cr = create_then [OF c(1) cn r, of ?g, simplified flow_key_def, simplified]
      have l: "locate_flow tcp k len seq now flows = Inr (Some i, fl[i := ?g (fl ! i)])"
        using True rst r by (simp add: locate_flow_def Let_def)
      have fr: "fresh_at seq (fl[i := ?g (fl ! i)] ! i)" "flow_key (fl[i := ?g (fl ! i)] ! i) = k"
        using cr(2,3) True s new_flow_fresh by (simp_all add: first_seq_def)
      show ?thesis
        by (rule fresh [OF l cr(1) slot [OF cr(1,5)] fr(1)]) (use cr fr used [OF fr(1)] c in auto)
    qed
  next
    case syn: False
    show ?thesis
    proof (cases "slot_of flow_used flow_key flows k")
      case (Some i)
      show ?thesis
        by (rule old [of i]) (use Some syn rst in \<open>auto simp: locate_flow_def Let_def find_tls_flow_slot\<close>)
    next
      case none': None
      then have m: "flow_map flows k = None" by (simp add: table_map_def)
      show ?thesis
      proof (cases "len > 0")
        case False
        show ?thesis
          by (rule none)
            (use False syn rst m none' in \<open>auto simp: not_less word_gt_0 locate_flow_def Let_def find_tls_flow_slot\<close>)
      next
        case True
        show ?thesis
        proof (cases "create_tls_flow k now flows")
          case None
          show ?thesis
            by (rule finish [of True flows])
              (use None True syn rst none' ok m in \<open>auto simp: locate_flow_def Let_def find_tls_flow_slot\<close>)
        next
          case (Some r)
          then obtain i fl where r: "create_tls_flow k now flows = Some (i, fl)" by (cases r) auto
          let ?g = "\<lambda>f. f\<lparr>next_sequence := seq\<rparr>"
          note cr = create_then [OF ok none' r, of ?g, simplified flow_key_def, simplified]
          have l: "locate_flow tcp k len seq now flows = Inr (Some i, fl[i := ?g (fl ! i)])"
            using True syn rst r none' by (auto simp: locate_flow_def Let_def find_tls_flow_slot)
          have fr: "fresh_at seq (fl[i := ?g (fl ! i)] ! i)" "flow_key (fl[i := ?g (fl ! i)] ! i) = k"
            using cr(2,3) new_flow_fresh by simp_all
          show ?thesis
            by (rule fresh [OF l cr(1) slot [OF cr(1,5)] fr(1)]) (use cr fr used [OF fr(1)] in auto)
        qed
      qed
    qed
  qed
qed


definition payload_of :: "ip_hdr \<Rightarrow> tcp_hdr \<Rightarrow> u16 \<times> u16" where
  "payload_of ip tcp =
     (let off = of_nat (ip_header_bytes ip) + tcp_header_bytes tcp in (off, ip_total_length ip - off))"

definition segment_key :: "ip_hdr \<Rightarrow> tcp_hdr \<Rightarrow> flow_key" where
  "segment_key ip tcp = (ip_src ip, ip_dest ip, tcp_src tcp, tcp_dest tcp)"

lemma inspect_alt:
  "inspect_tls_tcp_segment rules packet ip tcp now flows =
     (case locate_flow tcp (segment_key ip tcp) (snd (payload_of ip tcp)) (first_seq tcp) now (expire_tls_flows now flows) of
        Inl out \<Rightarrow> Some out
      | Inr (None, flows) \<Rightarrow> Some (False, flows)
      | Inr (Some i, flows) \<Rightarrow>
          segment_of_flow rules packet tcp (fst (payload_of ip tcp)) (snd (payload_of ip tcp)) (first_seq tcp) now i flows)"
  unfolding inspect_tls_tcp_segment_def payload_of_def segment_key_def first_seq_def Let_def fst_conv snd_conv ..

text \<open>What happens to the flow of the segment: it keeps its key, and a FIN frees it.\<close>

lemma segment_of_flow_cases:
  assumes ok: "flows_ok flows" and i: "slot_of flow_used flow_key flows k = Some i"
  obtains b flows' f where
    "segment_of_flow rules packet tcp off len seq now i flows = Some (b, flows')" "flows_ok flows'"
    "\<And>k'. k' \<noteq> k \<Longrightarrow> flow_map flows' k' = flow_map flows k'" "length flows' = length flows"
    "flow_map flows' k = (if has_flag tcp TCP_FIN then None else Some f)"
    "b \<longleftrightarrow> flow_state f = TLS_FLOW_BLOCK"
    "f = (flows ! i)\<lparr>last_seen_ms := now\<rparr> \<and> flow_state f \<noteq> TLS_FLOW_INSPECTING \<or>
     flow_state (flows ! i) = TLS_FLOW_INSPECTING \<and>
     (\<exists>g. take_payload rules packet off len seq ((flows ! i)\<lparr>last_seen_ms := now\<rparr>) = Some g \<and>
       (f = g \<or> f = g\<lparr>flow_state := TLS_FLOW_BLOCK\<rparr>))"
proof -
  have t: "table_ok flow_used flow_key flows" using ok by (simp add: flows_ok_def)
  have il: "i < length flows" "flow_used (flows ! i)" "flow_key (flows ! i) = k"
    using slot_of_SomeD [OF i] by auto
  have wf: "flow_wf (flows ! i)" using ok il(1) by (simp add: flows_ok_def list_all_length)
  define f0 where "f0 = (flows ! i)\<lparr>last_seen_ms := now\<rparr>"
  have f0: "flow_key f0 = k" "flow_state f0 = flow_state (flows ! i)" "flow_wf f0" "flow_used f0"
    using il wf by (simp_all add: f0_def flow_key_def flow_wf_def flow_used_def)
  have put: "flows_ok (flows[i := f])" "flow_map (flows[i := f]) = (flow_map flows)(k \<mapsto> f)"
    if "flow_key f = k" "flow_used f" "flow_wf f" for f
    using ok flows.ok_replace [OF t i that(1)] flows.map_replace [OF t i that(2,1)] that(3)
    by (simp_all add: flows_ok_set)
  have free: "flows_ok (flows[i := zero_flow])" "flow_map (flows[i := zero_flow]) = (flow_map flows)(k := None)"
    using ok flows.ok_free [OF t flow_wf_zero(2), of i] flows.map_free [OF t i flow_wf_zero(2)] flow_wf_zero
    by (simp_all add: flows_ok_set)
  show ?thesis
  proof (cases "flow_state f0 = TLS_FLOW_ALLOW \<or> flow_state f0 = TLS_FLOW_BLOCK")
    case True
    let ?fl = "if has_flag tcp TCP_FIN then flows[i := zero_flow] else flows[i := f0]"
    have "segment_of_flow rules packet tcp off len seq now i flows = Some (flow_state f0 = TLS_FLOW_BLOCK, ?fl)"
      using True by (auto simp: segment_of_flow_def f0_def [symmetric] clear_tls_flow_def Let_def)
    then show ?thesis
      by (rule that [of _ _ f0]) (use put [OF f0(1,4,3)] free True in \<open>auto simp: f0_def\<close>)
  next
    case False
    then have insp: "flow_state f0 = TLS_FLOW_INSPECTING" using f0(4) by (cases "flow_state f0") (auto simp: flow_used_def)
    obtain g where g: "take_payload rules packet off len seq f0 = Some g" "flow_wf g" "flow_key g = k"
        "flow_state g \<noteq> TLS_FLOW_FREE"
      using take_payload_total [OF f0(3), of rules packet off len seq] insp f0(1) by auto
    define f where "f = (if has_flag tcp TCP_FIN \<and> flow_state g = TLS_FLOW_INSPECTING
      then g\<lparr>flow_state := TLS_FLOW_BLOCK\<rparr> else g)"
    have f: "flow_key f = k" "flow_used f" "flow_wf f"
      using g by (auto simp: f_def flow_key_def flow_used_def flow_wf_def)
    let ?fl = "if has_flag tcp TCP_FIN then flows[i := zero_flow] else flows[i := f]"
    have "segment_of_flow rules packet tcp off len seq now i flows = Some (flow_state f = TLS_FLOW_BLOCK, ?fl)"
      using insp g(1) by (simp add: segment_of_flow_def f0_def [symmetric] clear_tls_flow_def Let_def f_def)
    then show ?thesis
      by (rule that [of _ _ f]) (use put [OF f] free insp g(1) f0 in \<open>auto simp: f_def f0_def\<close>)
  qed
qed


section \<open>Soundness of the decision\<close>

text \<open>
  The flow of \<open>k\<close>, if there is one, has read a part of the stream \<open>S\<close> from some byte on, in order and without a gap,
  and if it is allowed then the server name that was found there is not blocked. The first byte of \<open>S\<close> has the
  sequence number \<open>s\<close>.
\<close>

definition tracks :: "access_rules \<Rightarrow> bytes \<Rightarrow> u32 \<Rightarrow> flow_key \<Rightarrow> tls_flow list \<Rightarrow> bool" where
  "tracks rules S s k flows \<longleftrightarrow>
     (case flow_map flows k of
        None \<Rightarrow> True
      | Some f \<Rightarrow> \<exists>b \<le> length S. reads rules (drop b S) f \<and> at_byte (s + of_nat b) f)"

text \<open>A segment that carries bytes of \<open>S\<close> at their place; a SYN announces the first of them.\<close>

definition carries_stream :: "bytes \<Rightarrow> u32 \<Rightarrow> packet \<Rightarrow> ip_hdr \<Rightarrow> tcp_hdr \<Rightarrow> bool" where
  "carries_stream S s packet ip tcp \<longleftrightarrow>
     (\<exists>j. first_seq tcp = s + of_nat j \<and> j \<le> length S \<and>
        segment_of S packet (fst (payload_of ip tcp)) (snd (payload_of ip tcp)) j)"


lemma fresh_reads:
  assumes "fresh_at (s + of_nat b) f" "b \<le> length S"
  shows "reads rules (drop b S) f" "at_byte (s + of_nat b) f"
  using assms tls_wf_init sni.feed_Nil [OF tls_wf_init]
  by (simp_all add: fresh_at_def reads_def at_byte_def)

lemma reads_seen:
  assumes "reads rules (drop b S) f" "at_byte q f"
  shows "reads rules (drop b S) (f\<lparr>last_seen_ms := now\<rparr>)" "at_byte q (f\<lparr>last_seen_ms := now\<rparr>)"
    "reads rules (drop b S) (f\<lparr>flow_state := TLS_FLOW_BLOCK\<rparr>)" "at_byte q (f\<lparr>flow_state := TLS_FLOW_BLOCK\<rparr>)"
  using assms by (simp_all add: reads_def at_byte_def split: tls_flow_state.splits)

lemma segment_of_flow_tracks:
  assumes ok: "flows_ok flows" and i: "slot_of flow_used flow_key flows k = Some i"
    and rd: "reads rules (drop b S) (flows ! i)" "at_byte (s + of_nat b) (flows ! i)" "b \<le> length S"
    and S: "length S < 2 ^ 31" and seg: "segment_of S packet off len j"
  shows "\<exists>d flows'. segment_of_flow rules packet tcp off len (s + of_nat j) now i flows = Some (d, flows') \<and>
    flows_ok flows' \<and> length flows' = length flows \<and> tracks rules S s k flows' \<and>
    (\<forall>k'. k' \<noteq> k \<longrightarrow> flow_map flows' k' = flow_map flows k')"
proof -
  note seen = reads_seen [OF rd(1,2)]
  show ?thesis
  proof (cases rule: segment_of_flow_cases [where rules = rules and packet = packet and tcp = tcp and off = off
        and len = len and seq = "s + of_nat j" and now = now, OF ok i])
  case f: (1 d flows' f)
  have key: "reads rules (drop b S) g \<and> at_byte (s + of_nat b) g"
    if "flow_state (flows ! i) = TLS_FLOW_INSPECTING"
      "take_payload rules packet off len (s + of_nat j) ((flows ! i)\<lparr>last_seen_ms := now\<rparr>) = Some g" for g
    using take_payload_reads [OF seen(1) [of now] seen(2) [of now] rd(3) _ S seg] that by auto
  from f(7) have "reads rules (drop b S) f \<and> at_byte (s + of_nat b) f"
    using key reads_seen(3,4) seen(1,2) [of now] by (elim disjE conjE exE) blast+
  then show ?thesis using f rd(3) by (auto simp: tracks_def)
  qed
qed

lemma expire_tracks:
  assumes "flows_ok flows" "tracks rules S s k flows"
  shows "tracks rules S s k (expire_tls_flows now flows)"
  using assms(2) expire_spec(2) [OF assms(1), of now k] by (auto simp: tracks_def split: option.splits if_splits)

lemma inspect_tracks_aux:
  assumes ok: "flows_ok flows" and tr: "tracks rules S s (segment_key ip tcp) flows"
    and S: "length S < 2 ^ 31" and seg: "carries_stream S s packet ip tcp"
  shows "\<exists>d flows'. inspect_tls_tcp_segment rules packet ip tcp now flows = Some (d, flows') \<and>
    flows_ok flows' \<and> length flows' = length flows \<and> tracks rules S s (segment_key ip tcp) flows' \<and>
    (\<forall>k'. k' \<noteq> segment_key ip tcp \<longrightarrow> flow_map flows' k' = flow_map (expire_tls_flows now flows) k')"
proof -
  let ?k = "segment_key ip tcp" and ?fl = "expire_tls_flows now flows"
  have ok': "flows_ok ?fl" using expire_spec(1) [OF ok] .
  have tr': "tracks rules S s ?k ?fl" using expire_tracks [OF ok tr] .
  have l: "length ?fl = length flows" by (simp add: expire_tls_flows_def)
  obtain j where j: "first_seq tcp = s + of_nat j" "j \<le> length S"
      "segment_of S packet (fst (payload_of ip tcp)) (snd (payload_of ip tcp)) j"
    using seg by (auto simp: carries_stream_def)
  show ?thesis
  proof (cases rule: locate_flow_cases [where tcp = tcp and k = ?k and len = "snd (payload_of ip tcp)" and now = now, OF ok' refl])
    case (1 b flows')
    then show ?thesis using l by (auto simp: inspect_alt tracks_def)
  next
    case 2
    then show ?thesis using l ok' tr' by (auto simp: inspect_alt)
  next
    case (3 i)
    then have "flow_map ?fl ?k = Some (?fl ! i)" by (simp add: table_map_def)
    then obtain b where b: "b \<le> length S" "reads rules (drop b S) (?fl ! i)" "at_byte (s + of_nat b) (?fl ! i)"
      using tr' by (auto simp: tracks_def)
    show ?thesis
      using segment_of_flow_tracks [OF ok' 3(2) b(2,3,1) S j(3), of tcp now] 3(1) l j(1) by (auto simp: inspect_alt)
  next
    case (4 i flows')
    have f: "reads rules (drop j S) (flows' ! i)" "at_byte (s + of_nat j) (flows' ! i)"
      using fresh_reads [of s j "flows' ! i" S] 4(4) j by auto
    show ?thesis
      using segment_of_flow_tracks [OF 4(2,3) f j(2) S j(3), of tcp now] 4(1,5,6) l j(1) by (auto simp: inspect_alt)
  qed
qed


lemma inspect_frame:
  assumes ok: "flows_ok flows"
  shows "\<exists>d flows'. inspect_tls_tcp_segment rules packet ip tcp now flows = Some (d, flows') \<and>
    flows_ok flows' \<and> length flows' = length flows \<and>
    (\<forall>k'. k' \<noteq> segment_key ip tcp \<longrightarrow> flow_map flows' k' = flow_map (expire_tls_flows now flows) k')"
proof -
  let ?k = "segment_key ip tcp" and ?fl = "expire_tls_flows now flows"
  have ok': "flows_ok ?fl" using expire_spec(1) [OF ok] .
  have l: "length ?fl = length flows" by (simp add: expire_tls_flows_def)
  have seg: "\<exists>d fl'. segment_of_flow rules packet tcp off len seq now i fl = Some (d, fl') \<and> flows_ok fl' \<and>
      length fl' = length fl \<and> (\<forall>k'. k' \<noteq> ?k \<longrightarrow> flow_map fl' k' = flow_map fl k')"
    if "flows_ok fl" "slot_of flow_used flow_key fl ?k = Some i" for fl i off len seq
    by (cases rule: segment_of_flow_cases [where rules = rules and packet = packet and tcp = tcp and off = off
        and len = len and seq = seq and now = now, OF that]) auto
  show ?thesis
  proof (cases rule: locate_flow_cases [where tcp = tcp and k = ?k and len = "snd (payload_of ip tcp)" and now = now, OF ok' refl])
    case (3 i)
    then show ?thesis using seg [OF ok' 3(2), of "fst (payload_of ip tcp)" "snd (payload_of ip tcp)" "first_seq tcp"] l
      by (auto simp: inspect_alt)
  next
    case (4 i flows')
    then show ?thesis using seg [OF 4(2,3), of "fst (payload_of ip tcp)" "snd (payload_of ip tcp)" "first_seq tcp"] l
      by (auto simp: inspect_alt)
  qed (use l ok' in \<open>auto simp: inspect_alt\<close>)
qed

section \<open>Runs of the flow table\<close>

type_synonym segment_event = "u32 \<times> packet \<times> ip_hdr \<times> tcp_hdr"

primrec run_segments ::
  "access_rules \<Rightarrow> segment_event list \<Rightarrow> tls_flow list \<Rightarrow> (bool list \<times> tls_flow list) option" where
  "run_segments rules [] flows = Some ([], flows)"
| "run_segments rules (ev # evs) flows =
     (case ev of (now, packet, ip, tcp) \<Rightarrow> do {
        (d, flows) \<leftarrow> inspect_tls_tcp_segment rules packet ip tcp now flows;
        (ds, flows) \<leftarrow> run_segments rules evs flows;
        Some (d # ds, flows)
      })"

definition boot_flows :: "tls_flow list" where
  "boot_flows = replicate ACCESS_FILTER_TLS_FLOW_CAPACITY zero_flow"

lemma boot_flows_ok: "flows_ok boot_flows" "flow_map boot_flows = Map.empty"
  using flow_wf_zero by (auto simp: boot_flows_def flows_ok_def flows.ok_boot flows.map_boot list_all_iff)

definition carried :: "bytes \<Rightarrow> u32 \<Rightarrow> flow_key \<Rightarrow> segment_event \<Rightarrow> bool" where
  "carried S s k ev \<longleftrightarrow>
     (case ev of (now, packet, ip, tcp) \<Rightarrow> segment_key ip tcp = k \<longrightarrow> carries_stream S s packet ip tcp)"

lemma run_segments_tracks:
  "flows_ok flows \<Longrightarrow> tracks rules S s k flows \<Longrightarrow> length S < 2 ^ 31 \<Longrightarrow> \<forall>ev \<in> set evs. carried S s k ev \<Longrightarrow>
   \<exists>ds flows'. run_segments rules evs flows = Some (ds, flows') \<and> flows_ok flows' \<and>
     length flows' = length flows \<and> tracks rules S s k flows'"
proof (induction evs arbitrary: flows)
  case (Cons ev evs)
  obtain now packet ip tcp where ev: "ev = (now, packet, ip, tcp)" by (cases ev)
  have "\<exists>d fl. inspect_tls_tcp_segment rules packet ip tcp now flows = Some (d, fl) \<and> flows_ok fl \<and>
      length fl = length flows \<and> tracks rules S s k fl"
  proof (cases "segment_key ip tcp = k")
    case True
    then have "carries_stream S s packet ip tcp" using Cons.prems(4) by (simp add: ev carried_def)
    then show ?thesis
      using inspect_tracks_aux [OF Cons.prems(1), of rules S s ip tcp packet now] Cons.prems(2,3) True by auto
  next
    case False
    have "tracks rules S s k (expire_tls_flows now flows)" using expire_tracks Cons.prems(1,2) .
    moreover obtain d fl where "inspect_tls_tcp_segment rules packet ip tcp now flows = Some (d, fl)" "flows_ok fl"
        "length fl = length flows" "flow_map fl k = flow_map (expire_tls_flows now flows) k"
      using inspect_frame [OF Cons.prems(1), of rules packet ip tcp now] False by metis
    ultimately show ?thesis by (simp add: tracks_def)
  qed
  then obtain d fl where i: "inspect_tls_tcp_segment rules packet ip tcp now flows = Some (d, fl)" "flows_ok fl"
      "length fl = length flows" "tracks rules S s k fl" by blast
  show ?case
    using Cons.IH [OF i(2,4) Cons.prems(3)] Cons.prems(4) i by (auto simp: ev)
qed simp

text \<open>
  C2: a TLS connection is allowed only for its own bytes. Take any run of segments of any connections from the boot, in
  which the segments of one connection carry pieces of one stream \<open>S\<close> (any order, repeated, overlapping, with
  gaps): the run ends in a well-formed table, and if that connection is then allowed, the parser found in the first
  4096 bytes of \<open>S\<close>, read from some byte on without a gap, a server name that is not blocked, and no ECH.
\<close>

theorem allowed_connection_sound:
  assumes "length S < 2 ^ 31" "\<forall>ev \<in> set evs. carried S s k ev"
  shows "\<exists>ds flows. run_segments rules evs boot_flows = Some (ds, flows) \<and> flows_ok flows \<and>
    (\<forall>f. flow_map flows k = Some f \<and> flow_state f = TLS_FLOW_ALLOW \<longrightarrow>
      (\<exists>b n p h. b + n \<le> length S \<and> n \<le> ACCESS_FILTER_TLS_STREAM_LIMIT \<and>
         tls_sni_parser_feed tls_sni_parser_init (Some (take n (drop b S))) TLS_SNI_HOSTNAME_SIZE =
           Some (p, TLS_SNI_PARSE_FOUND, h) \<and>
         \<not> ech_present p \<and> \<not> access_filter_is_hostname_blocked rules (Some h)))"
proof -
  have "tracks rules S s k boot_flows" by (simp add: tracks_def boot_flows_ok)
  then obtain ds flows where r: "run_segments rules evs boot_flows = Some (ds, flows)" "flows_ok flows"
      "tracks rules S s k flows"
    using run_segments_tracks [OF boot_flows_ok(1) _ assms] by blast
  have "\<exists>b n p h. b + n \<le> length S \<and> n \<le> ACCESS_FILTER_TLS_STREAM_LIMIT \<and>
         feed_hello tls_sni_parser_init (take n (drop b S)) = Some (p, TLS_SNI_PARSE_FOUND, h) \<and>
         \<not> ech_present p \<and> \<not> access_filter_is_hostname_blocked rules (Some h)"
    if "flow_map flows k = Some f" "flow_state f = TLS_FLOW_ALLOW" for f
  proof -
    from r(3) that obtain b where "b \<le> length S" "allowed_stream rules (drop b S)"
      by (auto simp: tracks_def reads_def)
    then obtain n p h where "n \<le> ACCESS_FILTER_TLS_STREAM_LIMIT" "n \<le> length S - b"
        "feed_hello tls_sni_parser_init (take n (drop b S)) = Some (p, TLS_SNI_PARSE_FOUND, h)"
        "\<not> ech_present p" "\<not> access_filter_is_hostname_blocked rules (Some h)"
      by (auto simp: allowed_stream_def)
    with \<open>b \<le> length S\<close> show ?thesis by (intro exI [of _ b] exI [of _ n] exI [of _ p] exI [of _ h]) auto
  qed
  with r show ?thesis by blast
qed

text \<open>
  C19: no packet makes the flow inspection fail: from a well-formed table, for any packet contents and headers, it
  returns without leaving an array, keeps at most one flow for a 4-tuple and the size of the table, and
  does not touch a flow of another 4-tuple except to expire it.
\<close>

theorem inspect_segment_total:
  assumes "flows_ok flows"
  shows "\<exists>d flows'. inspect_tls_tcp_segment rules packet ip tcp now flows = Some (d, flows') \<and>
    flows_ok flows' \<and> length flows' = length flows \<and>
    (\<forall>k. k \<noteq> (ip_src ip, ip_dest ip, tcp_src tcp, tcp_dest tcp) \<longrightarrow>
       flow_map flows' k = flow_map (expire_tls_flows now flows) k)"
  using inspect_frame [OF assms] unfolding segment_key_def .

section \<open>A concrete connection\<close>

definition sample_packet :: "bytes \<Rightarrow> packet" where
  "sample_packet bs =
     \<lparr>tot_len = length bs, first_len = length bs, pbuf_copy_partial = (\<lambda>n off. take n (drop off bs)),
      inet_chksum = (\<lambda>_. 0), pbuf_remove_header = (\<lambda>_. True), inet_chksum_pseudo_partial = (\<lambda>_ _ _ _. 0),
      pbuf_add_header = (\<lambda>_. True)\<rparr>"

lemma copy_sample_packet:
  "off + n \<le> length bs \<Longrightarrow> copy_packet_bytes (sample_packet bs) off n = Some (take n (drop off bs))"
  by (simp add: copy_packet_bytes_def sample_packet_def)

definition sample_ip :: "u16 \<Rightarrow> ip_hdr" where
  "sample_ip len16 =
     \<lparr>ip_version = 4, ip_header_bytes = 20, ip_total_length = len16, ip_fragment_field = 0, ip_proto = 6,
      ip_src = 33, ip_dest = 99\<rparr>"

definition sample_tcp :: "u32 \<Rightarrow> u8 \<Rightarrow> tcp_hdr" where
  "sample_tcp sequence flags =
     \<lparr>tcp_src = 5000, tcp_dest = 443, tcp_seqno = sequence, tcp_header_bytes = 20, tcp_flags = flags\<rparr>"

lemma carries_sample:
  assumes "off + length D = length bs" "length bs < 65536" "drop off bs = D"
  shows "carries (sample_packet bs) off D"
  unfolding carries_def
proof (intro conjI allI impI)
  show "off + length D < 65536" using assms by simp
  fix i n assume i: "i + n \<le> length D"
  have d: "drop i D = drop (off + i) bs" unfolding assms(3) [symmetric] by (simp add: add.commute)
  have "off + i + n \<le> length bs" using i assms(1) by linarith
  then show "copy_packet_bytes (sample_packet bs) (off + i) n = Some (take n (drop i D))"
    unfolding d by (rule copy_sample_packet)
qed

lemma sample_payload: "payload_of (sample_ip n) (sample_tcp q fl) = (40, n - 40)"
  unfolding payload_of_def sample_ip_def sample_tcp_def Let_def by simp

lemma sample_first_seq: "first_seq (sample_tcp q fl) = q + (if fl AND TCP_SYN \<noteq> 0 then 1 else 0)"
  by (simp add: first_seq_def sample_tcp_def has_flag_def)

lemma sample_carries:
  assumes "n16 - 40 = n" "unat n = length D" "bs = replicate 40 0 @ D" "take (length D) S = D"
    and "q + (if fl AND TCP_SYN \<noteq> 0 then 1 else 0) = s" "length D < 100"
  shows "carries_stream S s (sample_packet bs) (sample_ip n16) (sample_tcp q fl)"
proof -
  have "length D \<le> length S" using assms(4) by (metis length_take min.cobounded1)
  moreover have "carries (sample_packet bs) 40 D" using assms(3,6) by (intro carries_sample) auto
  ultimately show ?thesis
    unfolding carries_stream_def sample_first_seq sample_payload assms(1)
    by (intro exI [of _ 0]) (simp add: assms(2,4,5) segment_of_def)
qed

lemma allowed_connection_sound_witness:
  "\<exists>ds flows. run_segments access_rules_boot
      [(7, sample_packet (replicate 40 0), sample_ip 40, sample_tcp 8 TCP_SYN),
       (9, sample_packet (replicate 40 0 @ [22, 3]), sample_ip 42, sample_tcp 9 0)] boot_flows = Some (ds, flows)"
proof -
  let ?S = "[22, 3, 1]"
  have a: "carries_stream ?S 9 (sample_packet (replicate 40 0)) (sample_ip 40) (sample_tcp 8 TCP_SYN)"
    by (rule sample_carries [where n = 0 and D = "[]"]) (simp_all add: TCP_SYN_def)
  have b: "carries_stream ?S 9 (sample_packet (replicate 40 0 @ [22, 3])) (sample_ip 42) (sample_tcp 9 0)"
    by (rule sample_carries [where n = 2 and D = "[22, 3]"]) simp_all
  show ?thesis
    using allowed_connection_sound [of ?S "[(7, sample_packet (replicate 40 0), sample_ip 40, sample_tcp 8 TCP_SYN),
       (9, sample_packet (replicate 40 0 @ [22, 3]), sample_ip 42, sample_tcp 9 0)]" 9 "(33, 99, 5000, 443)"
       access_rules_boot] a b
    by (auto simp: carried_def)
qed

lemma inspect_segment_total_witness:
  "\<exists>d flows. inspect_tls_tcp_segment access_rules_boot (sample_packet []) (sample_ip 40) (sample_tcp 1 TCP_SYN) 0 boot_flows =
     Some (d, flows)"
  using inspect_segment_total [OF boot_flows_ok(1)] by blast

end
