(* ===== verification/Packet_Filter.thy ===== *)
theory Packet_Filter
  imports Client_Runs Flow_Table
begin

text \<open>
  The packet filter, last part of components/access\_filter/access\_filter.c: the hook that lwIP calls for every
  IPv4 packet before it is routed. It sees the packets that clients of the SoftAP send, and consumes (\<open>True\<close>)
  those that must not pass.

  Parameters: the views of the IP, UDP and TCP headers that lwIP's macros take of the copied bytes
  (\<open>header_api\<close>), the tick counter \<open>now\<close>, \<open>sys_now\<close> (\<open>now_ms\<close>), and lwIP's functions on addresses. The packet
  buffer of a consumed packet is freed; it is not part of the model after that.
\<close>

definition IP_HLEN :: nat where "IP_HLEN = 20"
definition IP_HLEN_MAX :: nat where "IP_HLEN_MAX = 60"
definition UDP_HLEN :: nat where "UDP_HLEN = 8"
definition TCP_HLEN :: nat where "TCP_HLEN = 20"
definition TCP_MAX_OPTION_BYTES :: nat where "TCP_MAX_OPTION_BYTES = 40"
definition IP_PROTO_UDP :: u8 where "IP_PROTO_UDP = 17"
definition IP_PROTO_TCP :: u8 where "IP_PROTO_TCP = 6"
definition IP_MF_OFFMASK :: u16 where "IP_MF_OFFMASK = 0x3FFF"

record header_api =
  ip_hdr_of :: "bytes \<Rightarrow> ip_hdr"
  udp_hdr_of :: "bytes \<Rightarrow> udp_hdr"
  tcp_hdr_of :: "bytes \<Rightarrow> tcp_hdr"

record filter_state =
  filter_clients :: client_access
  tls_flows :: "tls_flow list"

section \<open>Checksums\<close>

definition ipv4_checksum_valid :: "packet \<Rightarrow> nat \<Rightarrow> bool" where
  "ipv4_checksum_valid packet header_length \<longleftrightarrow>
     (case copy_packet_bytes packet 0 header_length of
        None \<Rightarrow> False | Some header \<Rightarrow> inet_chksum packet header = 0)"

definition tcp_checksum_valid :: "packet \<Rightarrow> nat \<Rightarrow> nat \<Rightarrow> ip_hdr \<Rightarrow> bool" where
  "tcp_checksum_valid packet ip_header_length tcp_length ip \<longleftrightarrow>
     (if ip_header_length > first_len packet \<or> \<not> pbuf_remove_header packet ip_header_length then False
      else (let checksum = inet_chksum_pseudo_partial packet tcp_length tcp_length (ip_src ip) (ip_dest ip);
                restored = pbuf_add_header packet ip_header_length
            in restored \<and> checksum = 0))"

section \<open>The hook\<close>

text \<open>The sanity checks of the IPv4 header; packets that fail are left to lwIP.\<close>

definition ip_header_sane :: "packet \<Rightarrow> ip_hdr \<Rightarrow> bool" where
  "ip_header_sane packet ip \<longleftrightarrow>
     \<not> (ip_version ip \<noteq> 4 \<or> ip_header_bytes ip < IP_HLEN \<or> ip_header_bytes ip > IP_HLEN_MAX \<or>
        unat (ip_total_length ip) < ip_header_bytes ip \<or> unat (ip_total_length ip) > tot_len packet)"

text \<open>Destinations that are not filtered: this device, broadcast, multicast, the portal server.\<close>

definition destination_exempt :: "lwip_api \<Rightarrow> netif \<Rightarrow> access_rules \<Rightarrow> u32 \<Rightarrow> bool" where
  "destination_exempt lw nif rules dest \<longleftrightarrow>
     dest = netif_ip4_addr lw nif \<or> ip4_addr_isbroadcast lw dest nif \<or> ip4_addr_ismulticast lw dest \<or>
     s_portal_server_enabled rules \<and> dest = s_portal_server_ipv4 rules"

definition is_fragmented :: "ip_hdr \<Rightarrow> bool" where
  "is_fragmented ip \<longleftrightarrow> ip_fragment_field ip AND IP_MF_OFFMASK \<noteq> 0"

text \<open>The UDP branch: \<open>True\<close> discards the packet.\<close>

definition inspect_udp :: "header_api \<Rightarrow> packet \<Rightarrow> ip_hdr \<Rightarrow> bool" where
  "inspect_udp hdrs packet ip =
     (if is_fragmented ip \<or> unat (ip_total_length ip) < ip_header_bytes ip + UDP_HLEN then True
      else case copy_packet_bytes packet (ip_header_bytes ip) 8 of
             None \<Rightarrow> True
           | Some bs \<Rightarrow>
               (let udp = udp_hdr_of hdrs bs;
                    ip_payload_length = unat (ip_total_length ip) - ip_header_bytes ip
                in if unat (udp_len udp) < UDP_HLEN \<or> unat (udp_len udp) > ip_payload_length then True
                   else udp_dest udp = 443))"

definition inspect_tcp ::
  "header_api \<Rightarrow> u32 \<Rightarrow> packet \<Rightarrow> access_rules \<Rightarrow> ip_hdr \<Rightarrow> tls_flow list \<Rightarrow> (bool \<times> tls_flow list) option" where
  "inspect_tcp hdrs now_ms packet rules ip flows =
     (if is_fragmented ip \<or> unat (ip_total_length ip) < ip_header_bytes ip + TCP_HLEN then Some (True, flows)
      else case copy_packet_bytes packet (ip_header_bytes ip) 20 of
             None \<Rightarrow> Some (True, flows)
           | Some bs \<Rightarrow>
               (let tcp = tcp_hdr_of hdrs bs; hl = unat (tcp_header_bytes tcp) in
                if hl < TCP_HLEN \<or> hl > TCP_HLEN + TCP_MAX_OPTION_BYTES \<or>
                   unat (ip_total_length ip) < ip_header_bytes ip + hl
                then Some (True, flows)
                else if tcp_dest tcp \<noteq> 443 then Some (False, flows)
                else
                  (let tcp_length = unat (ip_total_length ip) - ip_header_bytes ip in
                   if ip_header_bytes ip > first_len packet \<or> \<not> ipv4_checksum_valid packet (ip_header_bytes ip) \<or>
                      \<not> tcp_checksum_valid packet (ip_header_bytes ip) tcp_length ip
                   then Some (True, flows)
                   else inspect_tls_tcp_segment rules packet ip tcp now_ms flows)))"

definition access_filter_lwip_ip4_input ::
  "lwip_api \<Rightarrow> header_api \<Rightarrow> u32 \<Rightarrow> u32 \<Rightarrow> access_rules \<Rightarrow> packet option \<Rightarrow> netif option \<Rightarrow> filter_state \<Rightarrow>
     (bool \<times> filter_state) option" where
  "access_filter_lwip_ip4_input lw hdrs now now_ms rules packet input_netif st =
     (case (packet, input_netif, s_softap_netif rules) of
        (Some packet, Some nif, Some softap) \<Rightarrow>
          if nif \<noteq> softap then Some (False, st)
          else
            (case copy_packet_bytes packet 0 20 of
               None \<Rightarrow> Some (False, st)
             | Some bs \<Rightarrow>
                 (let ip = ip_hdr_of hdrs bs in
                  if \<not> ip_header_sane packet ip then Some (False, st)
                  else if destination_exempt lw nif rules (ip_dest ip) then Some (False, st)
                  else if is_destination_ipv4_blocked rules (ip_dest ip) then Some (True, st)
                  else
                    (case client_access_can_forward_ipv4 now (ip_src ip) (filter_clients st) of (allowed, cs) \<Rightarrow>
                       let st = st\<lparr>filter_clients := cs\<rparr> in
                       if \<not> allowed then Some (True, st)
                       else if \<not> has_hostname_rules rules then Some (False, st)
                       else if ip_proto ip = IP_PROTO_UDP then Some (inspect_udp hdrs packet ip, st)
                       else if ip_proto ip \<noteq> IP_PROTO_TCP then Some (False, st)
                       else map_option (\<lambda>(d, flows). (d, st\<lparr>tls_flows := flows\<rparr>))
                              (inspect_tcp hdrs now_ms packet rules ip (tls_flows st)))))
      | _ \<Rightarrow> Some (False, st))"

section \<open>The policy\<close>

text \<open>A packet that the filter has to judge: from a SoftAP client, with a sane header, to a filtered destination.\<close>

definition judged :: "lwip_api \<Rightarrow> header_api \<Rightarrow> access_rules \<Rightarrow> packet \<Rightarrow> netif \<Rightarrow> ip_hdr \<Rightarrow> bool" where
  "judged lw hdrs rules packet nif ip \<longleftrightarrow>
     s_softap_netif rules = Some nif \<and>
     (\<exists>bs. copy_packet_bytes packet 0 20 = Some bs \<and> ip = ip_hdr_of hdrs bs) \<and>
     ip_header_sane packet ip \<and> \<not> destination_exempt lw nif rules (ip_dest ip)"

lemma filter_judged:
  assumes "judged lw hdrs rules packet nif ip"
  shows "access_filter_lwip_ip4_input lw hdrs now now_ms rules (Some packet) (Some nif) st =
    (if is_destination_ipv4_blocked rules (ip_dest ip) then Some (True, st)
     else
       (case client_access_can_forward_ipv4 now (ip_src ip) (filter_clients st) of (allowed, cs) \<Rightarrow>
          if \<not> allowed then Some (True, st\<lparr>filter_clients := cs\<rparr>)
          else if \<not> has_hostname_rules rules then Some (False, st\<lparr>filter_clients := cs\<rparr>)
          else if ip_proto ip = IP_PROTO_UDP then Some (inspect_udp hdrs packet ip, st\<lparr>filter_clients := cs\<rparr>)
          else if ip_proto ip \<noteq> IP_PROTO_TCP then Some (False, st\<lparr>filter_clients := cs\<rparr>)
          else map_option (\<lambda>(d, flows). (d, st\<lparr>filter_clients := cs, tls_flows := flows\<rparr>))
                 (inspect_tcp hdrs now_ms packet rules ip (tls_flows st))))"
  using assms by (auto simp: judged_def access_filter_lwip_ip4_input_def Let_def split: prod.split)

text \<open>
  Default deny: a packet that the filter judges passes only if its destination is not blocked and its source
  address belongs to a client that is authorized, with time left, at this tick.
\<close>

lemma filter_default_deny:
  assumes "clients_ok (filter_clients st)" "judged lw hdrs rules packet nif ip"
    and "access_filter_lwip_ip4_input lw hdrs now now_ms rules (Some packet) (Some nif) st = Some (False, st')"
  shows "ip_dest ip \<notin> set (s_blocked_destination_ipv4 rules) \<and> ip_src ip \<noteq> 0 \<and>
    (\<exists>e. client_map (filter_clients st) (e_mac e) = Some e \<and> e_ip e = ip_src ip \<and> authorized e \<and>
       \<not> grant_expired now (authorized_at_ticks e) (ttl_ticks e))"
proof -
  obtain a cs where f: "client_access_can_forward_ipv4 now (ip_src ip) (filter_clients st) = (a, cs)" by fastforce
  have b: "\<not> is_destination_ipv4_blocked rules (ip_dest ip)" and a: "a"
    using assms(3) unfolding filter_judged [OF assms(2)] f by (simp_all split: if_split_asm)
  show ?thesis
    by (cases rule: can_forward_spec [OF assms(1), of now "ip_src ip"])
      (use a b f in \<open>auto simp: is_destination_ipv4_blocked_def list_ex_iff authorized_def\<close>)
qed

text \<open>
  C8: with hostname rules installed, an authorized client still cannot get around the inspection of server names: no UDP
  to port 443 (QUIC) passes, no fragment of UDP or TCP, and TCP to port 443 only with a valid checksum of the IP header and
  a valid TCP checksum over all bytes after it, and when the flow table does not block it.
\<close>

theorem filter_no_bypass:
  assumes "judged lw hdrs rules packet nif ip" "has_hostname_rules rules"
    and "access_filter_lwip_ip4_input lw hdrs now now_ms rules (Some packet) (Some nif) st = Some (False, st')"
  shows "(ip_proto ip = IP_PROTO_UDP \<longrightarrow> \<not> is_fragmented ip \<and>
       (\<exists>bs. copy_packet_bytes packet (ip_header_bytes ip) 8 = Some bs \<and> udp_dest (udp_hdr_of hdrs bs) \<noteq> 443)) \<and>
    (ip_proto ip = IP_PROTO_TCP \<longrightarrow> \<not> is_fragmented ip \<and>
       (\<exists>bs. copy_packet_bytes packet (ip_header_bytes ip) 20 = Some bs \<and>
         (tcp_dest (tcp_hdr_of hdrs bs) \<noteq> 443 \<or>
          ipv4_checksum_valid packet (ip_header_bytes ip) \<and>
          tcp_checksum_valid packet (ip_header_bytes ip) (unat (ip_total_length ip) - ip_header_bytes ip) ip \<and>
          inspect_tls_tcp_segment rules packet ip (tcp_hdr_of hdrs bs) now_ms (tls_flows st) = Some (False, tls_flows st'))))"
  using assms(2,3) unfolding filter_judged [OF assms(1)]
  by (auto simp: inspect_udp_def inspect_tcp_def Let_def IP_PROTO_UDP_def IP_PROTO_TCP_def
      split: if_splits prod.splits option.splits)

definition filter_ok :: "filter_state \<Rightarrow> bool" where
  "filter_ok st \<longleftrightarrow> clients_ok (filter_clients st) \<and> flows_ok (tls_flows st)"

lemma can_forward_ok: "clients_ok cs \<Longrightarrow> clients_ok (snd (client_access_can_forward_ipv4 now ip cs))"
  by (cases rule: can_forward_spec [of cs now ip]) auto

text \<open>
  C20: the hook is total: for any packet it returns without an access outside of an array and keeps the client
  table and the flow table well-formed; packets that do not come from the SoftAP pass and change nothing.
\<close>

theorem filter_total:
  assumes "filter_ok st"
  shows "\<exists>d st'. access_filter_lwip_ip4_input lw hdrs now now_ms rules packet nif st = Some (d, st') \<and> filter_ok st' \<and>
    (nif \<noteq> s_softap_netif rules \<longrightarrow> \<not> d \<and> st' = st)"
proof (cases "\<exists>p n ip. packet = Some p \<and> nif = Some n \<and> judged lw hdrs rules p n ip")
  case False
  then have "access_filter_lwip_ip4_input lw hdrs now now_ms rules packet nif st = Some (False, st)"
    by (auto simp: judged_def access_filter_lwip_ip4_input_def Let_def split: option.split)
  then show ?thesis using assms by (intro exI [of _ False] exI [of _ st]) simp
next
  case True
  then obtain p n ip where p: "packet = Some p" "nif = Some n" "judged lw hdrs rules p n ip" by blast
  have n: "nif = s_softap_netif rules" using p by (simp add: judged_def)
  obtain a cs where c: "client_access_can_forward_ipv4 now (ip_src ip) (filter_clients st) = (a, cs)" by fastforce
  have cs: "clients_ok cs" using can_forward_ok [of "filter_clients st" now "ip_src ip"] assms c by (simp add: filter_ok_def)
  have "\<exists>d fl. inspect_tcp hdrs now_ms p rules ip (tls_flows st) = Some (d, fl) \<and> flows_ok fl"
  proof -
    have fl: "flows_ok (tls_flows st)" using assms by (simp add: filter_ok_def)
    show ?thesis
      using fl inspect_frame [OF fl, of rules p ip _ now_ms]
      by (auto simp: inspect_tcp_def Let_def split: option.split) blast
  qed
  then show ?thesis
    using p(1,2) filter_judged [OF p(3), of now now_ms st] c cs assms n by (auto simp: filter_ok_def)
qed


section \<open>A concrete packet\<close>

definition sample_headers :: header_api where
  "sample_headers =
     \<lparr>ip_hdr_of = (\<lambda>_. (sample_ip 60)\<lparr>ip_proto := IP_PROTO_UDP\<rparr>),
      udp_hdr_of = (\<lambda>_. \<lparr>udp_dest = 53, udp_len = 20\<rparr>), tcp_hdr_of = (\<lambda>_. sample_tcp 1 0)\<rparr>"

definition sample_rules :: access_rules where
  "sample_rules = access_rules_boot\<lparr>s_softap_netif := Some 1, s_blocked_hostnames := [''ads.example.com'']\<rparr>"

definition sample_filter :: filter_state where
  "sample_filter = \<lparr>filter_clients = sample_clients, tls_flows = boot_flows\<rparr>"

lemma sample_udp: "copy_packet_bytes (sample_packet (replicate 60 0)) 20 8 = Some (replicate 8 0)"
    "copy_packet_bytes (sample_packet (replicate 60 0)) 0 20 = Some (replicate 20 0)"
  by (simp_all add: copy_sample_packet)

lemma sample_judged:
  "judged sample_lwip sample_headers sample_rules (sample_packet (replicate 60 0)) 1 ((sample_ip 60)\<lparr>ip_proto := IP_PROTO_UDP\<rparr>)"
  unfolding judged_def sample_udp
  by (simp add: sample_headers_def sample_rules_def access_rules_boot_def ip_header_sane_def sample_ip_def IP_HLEN_def
      IP_HLEN_MAX_def destination_exempt_def sample_lwip_def sample_packet_def)

lemma sample_forward: "client_access_can_forward_ipv4 6 33 sample_clients = (True, sample_clients)"
  by (simp add: client_access_can_forward_ipv4_def sample_clients_eq has_ip_def)

lemma sample_passes:
  "access_filter_lwip_ip4_input sample_lwip sample_headers 6 0 sample_rules (Some (sample_packet (replicate 60 0))) (Some 1)
     sample_filter = Some (False, sample_filter)"
  unfolding filter_judged [OF sample_judged]
  by (simp add: sample_filter_def sample_ip_def sample_forward sample_rules_def access_rules_boot_def
      is_destination_ipv4_blocked_def has_hostname_rules_def inspect_udp_def is_fragmented_def UDP_HLEN_def
      sample_udp sample_headers_def)

lemma filter_no_bypass_witness:
  "\<exists>bs. copy_packet_bytes (sample_packet (replicate 60 0)) 20 8 = Some bs \<and> udp_dest (udp_hdr_of sample_headers bs) \<noteq> 443"
proof -
  have "has_hostname_rules sample_rules" by (simp add: has_hostname_rules_def sample_rules_def)
  from filter_no_bypass [OF sample_judged this sample_passes] show ?thesis
    by (simp add: sample_ip_def)
qed

lemma filter_total_witness:
  "\<exists>d st. access_filter_lwip_ip4_input sample_lwip sample_headers 6 0 sample_rules None (Some 1) sample_filter = Some (d, st) \<and>
     filter_ok st"
proof -
  have "filter_ok sample_filter"
    by (simp add: filter_ok_def sample_filter_def sample_clients_ok boot_flows_ok)
  from filter_total [OF this] show ?thesis by blast
qed

end
