(* ===== verification/App_Storage.thy ===== *)
theory App_Storage
  imports Prelude
begin

text \<open>
  The persistent configuration, components/app\_storage/app\_storage.c: the current upstream credentials, a
  candidate configuration that a command stages, the metadata of both, and the recovery marks, all
  in one NVS namespace behind a mutex.

  The NVS library is a parameter: \<open>'s\<close> is its state, the record \<open>nvs_api\<close> its calls; \<open>nvs_contract\<close>
  states what its documentation promises, in terms of the values a reader sees. A call that writes
  returns its error and the new state. An array of characters is the list of its characters without the zero bytes at
  its end; it lacks a terminator when the list is as long as the array. Error codes of the output parameters are sums.
\<close>

datatype nvs_value = Nvs_Str string | Nvs_U32 u32 | Nvs_U8 u8

record 's nvs_api =
  nvs_open :: "bool \<Rightarrow> 's \<Rightarrow> esp_err \<times> 's"
  nvs_get_str :: "'s \<Rightarrow> string \<Rightarrow> nat \<Rightarrow> esp_err + string"
  nvs_get_u32 :: "'s \<Rightarrow> string \<Rightarrow> esp_err + u32"
  nvs_get_u8 :: "'s \<Rightarrow> string \<Rightarrow> esp_err + u8"
  nvs_set :: "string \<Rightarrow> nvs_value \<Rightarrow> 's \<Rightarrow> esp_err \<times> 's"
  nvs_erase_key :: "string \<Rightarrow> 's \<Rightarrow> esp_err \<times> 's"
  nvs_commit :: "'s \<Rightarrow> esp_err \<times> 's"
  xSemaphoreTake :: bool

text \<open>The state of the component: the NVS, and whether the mutex exists.\<close>

record 's app_storage =
  nvs :: 's
  s_wifi_config_mutex :: bool

definition APP_STORAGE_WIFI_SSID_SIZE :: nat where "APP_STORAGE_WIFI_SSID_SIZE = 33"
definition APP_STORAGE_WIFI_PASSWORD_SIZE :: nat where "APP_STORAGE_WIFI_PASSWORD_SIZE = 64"
definition APP_STORAGE_WIFI_REQUEST_ID_SIZE :: nat where "APP_STORAGE_WIFI_REQUEST_ID_SIZE = 64"

definition SSID_KEY :: string where "SSID_KEY = ''sta_ssid''"
definition PASSWORD_KEY :: string where "PASSWORD_KEY = ''sta_password''"
definition CANDIDATE_SSID_KEY :: string where "CANDIDATE_SSID_KEY = ''cand_ssid''"
definition CANDIDATE_PASSWORD_KEY :: string where "CANDIDATE_PASSWORD_KEY = ''cand_pass''"
definition CANDIDATE_REQUEST_ID_KEY :: string where "CANDIDATE_REQUEST_ID_KEY = ''cand_req''"
definition CANDIDATE_VERSION_KEY :: string where "CANDIDATE_VERSION_KEY = ''cand_ver''"
definition ACTIVE_REQUEST_ID_KEY :: string where "ACTIVE_REQUEST_ID_KEY = ''active_req''"
definition ACTIVE_VERSION_KEY :: string where "ACTIVE_VERSION_KEY = ''active_ver''"
definition RECOVERY_TRIGGERED_KEY :: string where "RECOVERY_TRIGGERED_KEY = ''recv_trig''"
definition RECOVERY_RETRY_KEY :: string where "RECOVERY_RETRY_KEY = ''recv_retry''"

lemmas storage_keys =
  SSID_KEY_def PASSWORD_KEY_def CANDIDATE_SSID_KEY_def CANDIDATE_PASSWORD_KEY_def CANDIDATE_REQUEST_ID_KEY_def
  CANDIDATE_VERSION_KEY_def ACTIVE_REQUEST_ID_KEY_def ACTIVE_VERSION_KEY_def RECOVERY_TRIGGERED_KEY_def
  RECOVERY_RETRY_KEY_def

record wifi_credentials =
  ssid :: string
  password :: string

record wifi_config =
  credentials :: wifi_credentials
  request_id :: string
  config_version :: u32

record wifi_config_status =
  active_request_id :: string
  active_version :: u32
  pending_request_id :: string
  pending_version :: u32

datatype wifi_stage_result =
    APP_STORAGE_WIFI_STAGE_STORED
  | APP_STORAGE_WIFI_STAGE_IDEMPOTENT
  | APP_STORAGE_WIFI_STAGE_STALE_VERSION
  | APP_STORAGE_WIFI_STAGE_VERSION_CONFLICT

section \<open>Validation\<close>

definition validate_wifi_credentials :: "wifi_credentials option \<Rightarrow> esp_err" where
  "validate_wifi_credentials given =
     (case given of
        None \<Rightarrow> ESP_ERR_INVALID_ARG
      | Some c \<Rightarrow>
          (let ssid_length = c_strnlen (ssid c) APP_STORAGE_WIFI_SSID_SIZE;
               password_length = c_strnlen (password c) APP_STORAGE_WIFI_PASSWORD_SIZE
           in if ssid_length = 0 \<or> ssid_length \<ge> APP_STORAGE_WIFI_SSID_SIZE then ESP_ERR_INVALID_ARG
              else if password_length \<ge> APP_STORAGE_WIFI_PASSWORD_SIZE then ESP_ERR_INVALID_ARG
              else if password_length > 0 \<and> password_length < 8 then ESP_ERR_INVALID_ARG
              else ESP_OK))"

definition validate_wifi_config :: "wifi_config option \<Rightarrow> esp_err" where
  "validate_wifi_config config =
     (case config of
        None \<Rightarrow> ESP_ERR_INVALID_ARG
      | Some c \<Rightarrow>
          if config_version c = 0 then ESP_ERR_INVALID_ARG
          else (let n = c_strnlen (request_id c) APP_STORAGE_WIFI_REQUEST_ID_SIZE in
                if n = 0 \<or> n \<ge> APP_STORAGE_WIFI_REQUEST_ID_SIZE then ESP_ERR_INVALID_ARG
                else validate_wifi_credentials (Some (credentials c))))"

section \<open>Erasing and locking\<close>

definition erase_key_if_present :: "'s nvs_api \<Rightarrow> string \<Rightarrow> 's \<Rightarrow> esp_err \<times> 's" where
  "erase_key_if_present api key s =
     (case nvs_erase_key api key s of (err, s) \<Rightarrow>
        if err = ESP_ERR_NVS_NOT_FOUND then (ESP_OK, s) else (err, s))"

text \<open>Whether \<open>erase_key_if_present\<close> sets \<open>*changed\<close>.\<close>

definition erase_changes :: "'s nvs_api \<Rightarrow> string \<Rightarrow> 's \<Rightarrow> bool" where
  "erase_changes api key s \<longleftrightarrow> fst (nvs_erase_key api key s) = ESP_OK"

definition erase_candidate_from_handle :: "'s nvs_api \<Rightarrow> 's \<Rightarrow> esp_err \<times> 's" where
  "erase_candidate_from_handle api s =
     fold (\<lambda>key. if_ok (erase_key_if_present api key))
       [CANDIDATE_SSID_KEY, CANDIDATE_PASSWORD_KEY, CANDIDATE_REQUEST_ID_KEY, CANDIDATE_VERSION_KEY] (ESP_OK, s)"

definition lock_wifi_config :: "'s nvs_api \<Rightarrow> 's app_storage \<Rightarrow> esp_err" where
  "lock_wifi_config api st =
     (if \<not> s_wifi_config_mutex st then ESP_ERR_INVALID_STATE
      else if xSemaphoreTake api then ESP_OK else ESP_ERR_TIMEOUT)"

section \<open>Loading\<close>

definition read_candidate :: "'s nvs_api \<Rightarrow> 's \<Rightarrow> esp_err + wifi_config" where
  "read_candidate api s =
     (case nvs_get_str api s CANDIDATE_SSID_KEY APP_STORAGE_WIFI_SSID_SIZE of
        Inl err \<Rightarrow> Inl (if err = ESP_ERR_NVS_NOT_FOUND then ESP_ERR_NOT_FOUND else err)
      | Inr i \<Rightarrow>
          (case nvs_get_str api s CANDIDATE_PASSWORD_KEY APP_STORAGE_WIFI_PASSWORD_SIZE of
             Inl err \<Rightarrow> Inl (if err = ESP_ERR_NVS_NOT_FOUND then ESP_ERR_INVALID_STATE else err)
           | Inr p \<Rightarrow>
               (case nvs_get_str api s CANDIDATE_REQUEST_ID_KEY APP_STORAGE_WIFI_REQUEST_ID_SIZE of
                  Inl err \<Rightarrow> Inl (if err = ESP_ERR_NVS_NOT_FOUND then ESP_ERR_INVALID_STATE else err)
                | Inr r \<Rightarrow>
                    (case nvs_get_u32 api s CANDIDATE_VERSION_KEY of
                       Inl err \<Rightarrow> Inl (if err = ESP_ERR_NVS_NOT_FOUND then ESP_ERR_INVALID_STATE else err)
                     | Inr v \<Rightarrow>
                         Inr \<lparr>credentials = \<lparr>ssid = i, password = p\<rparr>, request_id = r, config_version = v\<rparr>))))"

definition load_candidate_from_handle :: "'s nvs_api \<Rightarrow> 's \<Rightarrow> esp_err + wifi_config" where
  "load_candidate_from_handle api s =
     (case read_candidate api s of
        Inl err \<Rightarrow> Inl err
      | Inr config \<Rightarrow>
          (let err = validate_wifi_config (Some config) in if err \<noteq> ESP_OK then Inl err else Inr config))"

text \<open>\<open>Inr None\<close>: neither key is present. \<open>Inr (Some (request id, version))\<close>: both are.\<close>

definition load_metadata_pair ::
  "'s nvs_api \<Rightarrow> string \<Rightarrow> string \<Rightarrow> nat \<Rightarrow> 's \<Rightarrow> esp_err + (string \<times> u32) option" where
  "load_metadata_pair api request_id_key version_key request_id_size s =
     (if request_id_size = 0 then Inl ESP_ERR_INVALID_ARG
      else
        (case (nvs_get_str api s request_id_key request_id_size, nvs_get_u32 api s version_key) of
           (Inr r, Inr v) \<Rightarrow> if r = [] \<or> v = 0 then Inl ESP_ERR_INVALID_STATE else Inr (Some (r, v))
         | (Inl re, Inl ve) \<Rightarrow>
             if re = ESP_ERR_NVS_NOT_FOUND \<and> ve = ESP_ERR_NVS_NOT_FOUND then Inr None
             else Inl (if re \<noteq> ESP_ERR_NVS_NOT_FOUND then re
                       else if ve \<noteq> ESP_ERR_NVS_NOT_FOUND then ve else ESP_ERR_INVALID_STATE)
         | (Inl re, Inr v) \<Rightarrow> Inl (if re \<noteq> ESP_ERR_NVS_NOT_FOUND then re else ESP_ERR_INVALID_STATE)
         | (Inr r, Inl ve) \<Rightarrow> Inl (if ve \<noteq> ESP_ERR_NVS_NOT_FOUND then ve else ESP_ERR_INVALID_STATE)))"

definition read_credentials :: "'s nvs_api \<Rightarrow> 's \<Rightarrow> esp_err + wifi_credentials" where
  "read_credentials api s =
     (case nvs_get_str api s SSID_KEY APP_STORAGE_WIFI_SSID_SIZE of
        Inl err \<Rightarrow> Inl err
      | Inr i \<Rightarrow>
          (case nvs_get_str api s PASSWORD_KEY APP_STORAGE_WIFI_PASSWORD_SIZE of
             Inl err \<Rightarrow> Inl err
           | Inr p \<Rightarrow> Inr \<lparr>ssid = i, password = p\<rparr>))"

definition app_storage_load_wifi_credentials ::
  "'s nvs_api \<Rightarrow> 's app_storage \<Rightarrow> (esp_err + wifi_credentials) \<times> 's app_storage" where
  "app_storage_load_wifi_credentials api st =
     (case nvs_open api False (nvs st) of (err, s) \<Rightarrow>
        let st = st\<lparr>nvs := s\<rparr> in
        if err \<noteq> ESP_OK then (Inl (if err = ESP_ERR_NVS_NOT_FOUND then ESP_ERR_NOT_FOUND else err), st)
        else case read_credentials api s of
               Inl err \<Rightarrow> (Inl (if err = ESP_ERR_NVS_NOT_FOUND then ESP_ERR_NOT_FOUND else err), st)
             | Inr c \<Rightarrow>
                 (let err = validate_wifi_credentials (Some c) in
                  if err \<noteq> ESP_OK then (Inl err, st) else (Inr c, st)))"

definition app_storage_load_candidate_wifi_config ::
  "'s nvs_api \<Rightarrow> 's app_storage \<Rightarrow> (esp_err + wifi_config) \<times> 's app_storage" where
  "app_storage_load_candidate_wifi_config api st =
     (let err = lock_wifi_config api st in
      if err \<noteq> ESP_OK then (Inl err, st)
      else
        (case nvs_open api False (nvs st) of (err, s) \<Rightarrow>
           let st = st\<lparr>nvs := s\<rparr> in
           if err = ESP_ERR_NVS_NOT_FOUND then (Inl ESP_ERR_NOT_FOUND, st)
           else if err \<noteq> ESP_OK then (Inl err, st)
           else (load_candidate_from_handle api s, st)))"

definition empty_status :: wifi_config_status where
  "empty_status = \<lparr>active_request_id = [], active_version = 0, pending_request_id = [], pending_version = 0\<rparr>"

definition app_storage_load_wifi_config_status ::
  "'s nvs_api \<Rightarrow> 's app_storage \<Rightarrow> (esp_err + wifi_config_status) \<times> 's app_storage" where
  "app_storage_load_wifi_config_status api st =
     (let err = lock_wifi_config api st in
      if err \<noteq> ESP_OK then (Inl err, st)
      else
        (case nvs_open api False (nvs st) of (err, s) \<Rightarrow>
           let st = st\<lparr>nvs := s\<rparr> in
           if err = ESP_ERR_NVS_NOT_FOUND then (Inr empty_status, st)
           else if err \<noteq> ESP_OK then (Inl err, st)
           else
             (case load_metadata_pair api ACTIVE_REQUEST_ID_KEY ACTIVE_VERSION_KEY
                     APP_STORAGE_WIFI_REQUEST_ID_SIZE s of
                Inl err \<Rightarrow> (Inl err, st)
              | Inr active \<Rightarrow>
                  (let status = (case active of None \<Rightarrow> empty_status
                                 | Some (r, v) \<Rightarrow> empty_status\<lparr>active_request_id := r, active_version := v\<rparr>) in
                   case load_candidate_from_handle api s of
                     Inr pending \<Rightarrow>
                       (Inr (status\<lparr>pending_request_id := take (APP_STORAGE_WIFI_REQUEST_ID_SIZE - 1) (c_str (request_id pending)),
                                    pending_version := config_version pending\<rparr>), st)
                   | Inl err \<Rightarrow> if err \<noteq> ESP_ERR_NOT_FOUND then (Inl err, st) else (Inr status, st)))))"

section \<open>Saving, staging and promoting\<close>

definition save_writes :: "'s nvs_api \<Rightarrow> wifi_credentials \<Rightarrow> 's \<Rightarrow> esp_err \<times> 's" where
  "save_writes api c s =
     fold if_ok
       [nvs_set api SSID_KEY (Nvs_Str (c_str (ssid c))),
        nvs_set api PASSWORD_KEY (Nvs_Str (c_str (password c))),
        erase_candidate_from_handle api,
        erase_key_if_present api ACTIVE_REQUEST_ID_KEY,
        erase_key_if_present api ACTIVE_VERSION_KEY,
        erase_key_if_present api RECOVERY_TRIGGERED_KEY,
        erase_key_if_present api RECOVERY_RETRY_KEY,
        nvs_commit api] (ESP_OK, s)"

definition app_storage_save_wifi_credentials ::
  "'s nvs_api \<Rightarrow> wifi_credentials option \<Rightarrow> 's app_storage \<Rightarrow> esp_err \<times> 's app_storage" where
  "app_storage_save_wifi_credentials api c st =
     (let err = validate_wifi_credentials c in
      if err \<noteq> ESP_OK then (err, st)
      else (let err = lock_wifi_config api st in
            if err \<noteq> ESP_OK then (err, st)
            else (case nvs_open api True (nvs st) of (err, s) \<Rightarrow>
                    if err \<noteq> ESP_OK then (err, st\<lparr>nvs := s\<rparr>)
                    else (case save_writes api (the c) s of (err, s) \<Rightarrow> (err, st\<lparr>nvs := s\<rparr>)))))"

definition candidate_writes :: "'s nvs_api \<Rightarrow> wifi_config \<Rightarrow> 's \<Rightarrow> esp_err \<times> 's" where
  "candidate_writes api c s =
     fold if_ok
       [nvs_set api CANDIDATE_SSID_KEY (Nvs_Str (c_str (ssid (credentials c)))),
        nvs_set api CANDIDATE_PASSWORD_KEY (Nvs_Str (c_str (password (credentials c)))),
        nvs_set api CANDIDATE_REQUEST_ID_KEY (Nvs_Str (c_str (request_id c))),
        nvs_set api CANDIDATE_VERSION_KEY (Nvs_U32 (config_version c)),
        nvs_commit api] (ESP_OK, s)"

text \<open>
  The decision of \<open>app_storage_stage_candidate_wifi_config\<close> on what is stored: \<open>pending\<close> is the
  candidate, \<open>active\<close> the metadata of the current configuration.
\<close>

definition stage_decision ::
  "wifi_config option \<Rightarrow> (string \<times> u32) option \<Rightarrow> wifi_config \<Rightarrow> wifi_stage_result" where
  "stage_decision pending active c =
     (if (case pending of None \<Rightarrow> False
          | Some p \<Rightarrow> config_version p = config_version c \<and> c_str (request_id p) = c_str (request_id c))
      then APP_STORAGE_WIFI_STAGE_IDEMPOTENT
      else if (case active of None \<Rightarrow> False
               | Some (r, v) \<Rightarrow> v = config_version c \<and> c_str r = c_str (request_id c))
      then APP_STORAGE_WIFI_STAGE_IDEMPOTENT
      else
        (let highest_version = (case pending of None \<Rightarrow> 0
                                | Some p \<Rightarrow> if config_version p > 0 then config_version p else 0);
             highest_version = (case active of None \<Rightarrow> highest_version
                                | Some (r, v) \<Rightarrow> if v > highest_version then v else highest_version)
         in if config_version c < highest_version then APP_STORAGE_WIFI_STAGE_STALE_VERSION
            else if config_version c = highest_version \<and> highest_version \<noteq> 0
            then APP_STORAGE_WIFI_STAGE_VERSION_CONFLICT
            else APP_STORAGE_WIFI_STAGE_STORED))"

text \<open>The result is the error code and \<open>*stage_result\<close>.\<close>

definition app_storage_stage_candidate_wifi_config ::
  "'s nvs_api \<Rightarrow> wifi_config option \<Rightarrow> 's app_storage \<Rightarrow> (esp_err \<times> wifi_stage_result) \<times> 's app_storage" where
  "app_storage_stage_candidate_wifi_config api config st =
     (let stored = APP_STORAGE_WIFI_STAGE_STORED; err = validate_wifi_config config in
      if err \<noteq> ESP_OK then ((err, stored), st)
      else (let err = lock_wifi_config api st in
            if err \<noteq> ESP_OK then ((err, stored), st)
            else
              (case nvs_open api True (nvs st) of (err, s) \<Rightarrow>
                 let st = st\<lparr>nvs := s\<rparr> in
                 if err \<noteq> ESP_OK then ((err, stored), st)
                 else
                   (case (case load_candidate_from_handle api s of
                            Inr p \<Rightarrow> Inr (Some p)
                          | Inl err \<Rightarrow> if err = ESP_ERR_NOT_FOUND then Inr None else Inl err) of
                      Inl err \<Rightarrow> ((err, stored), st)
                    | Inr pending \<Rightarrow>
                        (case load_metadata_pair api ACTIVE_REQUEST_ID_KEY ACTIVE_VERSION_KEY
                                APP_STORAGE_WIFI_REQUEST_ID_SIZE s of
                           Inl err \<Rightarrow> ((err, stored), st)
                         | Inr active \<Rightarrow>
                             (let result = stage_decision pending active (the config) in
                              if result \<noteq> stored then ((ESP_OK, result), st)
                              else (case candidate_writes api (the config) s of (err, s) \<Rightarrow>
                                      ((err, stored), st\<lparr>nvs := s\<rparr>))))))))"

definition promote_writes :: "'s nvs_api \<Rightarrow> wifi_config \<Rightarrow> 's \<Rightarrow> esp_err \<times> 's" where
  "promote_writes api p s =
     fold if_ok
       [nvs_set api SSID_KEY (Nvs_Str (c_str (ssid (credentials p)))),
        nvs_set api PASSWORD_KEY (Nvs_Str (c_str (password (credentials p)))),
        nvs_set api ACTIVE_REQUEST_ID_KEY (Nvs_Str (c_str (request_id p))),
        nvs_set api ACTIVE_VERSION_KEY (Nvs_U32 (config_version p)),
        erase_candidate_from_handle api,
        erase_key_if_present api RECOVERY_TRIGGERED_KEY,
        erase_key_if_present api RECOVERY_RETRY_KEY,
        nvs_commit api] (ESP_OK, s)"

definition app_storage_promote_candidate_wifi_config ::
  "'s nvs_api \<Rightarrow> string option \<Rightarrow> u32 \<Rightarrow> 's app_storage \<Rightarrow> esp_err \<times> 's app_storage" where
  "app_storage_promote_candidate_wifi_config api expected_request_id expected_version st =
     (case expected_request_id of
        None \<Rightarrow> (ESP_ERR_INVALID_ARG, st)
      | Some expected \<Rightarrow>
          if expected = [] \<or> expected_version = 0 then (ESP_ERR_INVALID_ARG, st)
          else (let err = lock_wifi_config api st in
                if err \<noteq> ESP_OK then (err, st)
                else
                  (case nvs_open api True (nvs st) of (err, s) \<Rightarrow>
                     let st = st\<lparr>nvs := s\<rparr> in
                     if err \<noteq> ESP_OK then (err, st)
                     else case load_candidate_from_handle api s of
                            Inl err \<Rightarrow> (err, st)
                          | Inr p \<Rightarrow>
                              if config_version p \<noteq> expected_version \<or> c_str (request_id p) \<noteq> expected
                              then (ESP_ERR_INVALID_STATE, st)
                              else (case promote_writes api p s of (err, s) \<Rightarrow> (err, st\<lparr>nvs := s\<rparr>)))))"

definition clear_writes :: "'s nvs_api \<Rightarrow> 's \<Rightarrow> esp_err \<times> 's" where
  "clear_writes api s =
     (let step = (\<lambda>key (changed, r). (changed \<or> fst r = ESP_OK \<and> erase_changes api key (snd r),
                                       if_ok (erase_key_if_present api key) r));
          (changed, r) = fold step [SSID_KEY, PASSWORD_KEY, ACTIVE_REQUEST_ID_KEY, ACTIVE_VERSION_KEY]
                           (False, (ESP_OK, s))
      in if changed then if_ok (nvs_commit api) r else r)"

definition app_storage_clear_wifi_credentials :: "'s nvs_api \<Rightarrow> 's app_storage \<Rightarrow> esp_err \<times> 's app_storage" where
  "app_storage_clear_wifi_credentials api st =
     (let err = lock_wifi_config api st in
      if err \<noteq> ESP_OK then (err, st)
      else
        (case nvs_open api True (nvs st) of (err, s) \<Rightarrow>
           let st = st\<lparr>nvs := s\<rparr> in
           if err = ESP_ERR_NVS_NOT_FOUND then (ESP_OK, st)
           else if err \<noteq> ESP_OK then (err, st)
           else (case clear_writes api s of (err, s) \<Rightarrow> (err, st\<lparr>nvs := s\<rparr>))))"

section \<open>Recovery marks and start\<close>

definition app_storage_increment_recovery_retry :: "'s nvs_api \<Rightarrow> 's app_storage \<Rightarrow> esp_err \<times> 's app_storage" where
  "app_storage_increment_recovery_retry api st =
     (case nvs_open api True (nvs st) of (err, s) \<Rightarrow>
        let st = st\<lparr>nvs := s\<rparr> in
        if err \<noteq> ESP_OK then (err, st)
        else
          (case nvs_get_u8 api s RECOVERY_RETRY_KEY of
             Inl err \<Rightarrow>
               if err \<noteq> ESP_ERR_NVS_NOT_FOUND then (err, st)
               else (case if_ok (nvs_commit api) (nvs_set api RECOVERY_RETRY_KEY (Nvs_U8 1) s) of
                       (err, s) \<Rightarrow> (err, st\<lparr>nvs := s\<rparr>))
           | Inr count \<Rightarrow>
               (let count = (if count < 255 then count + 1 else count) in
                case if_ok (nvs_commit api) (nvs_set api RECOVERY_RETRY_KEY (Nvs_U8 count) s) of
                  (err, s) \<Rightarrow> (err, st\<lparr>nvs := s\<rparr>))))"

definition app_storage_get_recovery_retry_count :: "'s nvs_api \<Rightarrow> 's app_storage \<Rightarrow> u8 \<times> 's app_storage" where
  "app_storage_get_recovery_retry_count api st =
     (case nvs_open api False (nvs st) of (err, s) \<Rightarrow>
        let st = st\<lparr>nvs := s\<rparr> in
        if err \<noteq> ESP_OK then (0, st)
        else (case nvs_get_u8 api s RECOVERY_RETRY_KEY of Inl _ \<Rightarrow> 0 | Inr count \<Rightarrow> count, st))"

definition app_storage_set_recovery_triggered :: "'s nvs_api \<Rightarrow> 's app_storage \<Rightarrow> esp_err \<times> 's app_storage" where
  "app_storage_set_recovery_triggered api st =
     (case nvs_open api True (nvs st) of (err, s) \<Rightarrow>
        if err \<noteq> ESP_OK then (err, st\<lparr>nvs := s\<rparr>)
        else (case if_ok (nvs_commit api) (nvs_set api RECOVERY_TRIGGERED_KEY (Nvs_U8 1) s) of
                (err, s) \<Rightarrow> (err, st\<lparr>nvs := s\<rparr>)))"

definition app_storage_clear_recovery_triggered :: "'s nvs_api \<Rightarrow> 's app_storage \<Rightarrow> esp_err \<times> 's app_storage" where
  "app_storage_clear_recovery_triggered api st =
     (case nvs_open api True (nvs st) of (err, s) \<Rightarrow>
        if err \<noteq> ESP_OK then (if err = ESP_ERR_NVS_NOT_FOUND then ESP_OK else err, st\<lparr>nvs := s\<rparr>)
        else (case if_ok (nvs_commit api) (erase_key_if_present api RECOVERY_TRIGGERED_KEY s) of
                (err, s) \<Rightarrow> (err, st\<lparr>nvs := s\<rparr>)))"

definition app_storage_is_recovery_triggered :: "'s nvs_api \<Rightarrow> 's app_storage \<Rightarrow> bool \<times> 's app_storage" where
  "app_storage_is_recovery_triggered api st =
     (case nvs_open api False (nvs st) of (err, s) \<Rightarrow>
        (err = ESP_OK \<and> nvs_get_u8 api s RECOVERY_TRIGGERED_KEY = Inr 1, st\<lparr>nvs := s\<rparr>))"

text \<open>\<open>nvs_flash_init\<close>, \<open>nvs_flash_erase\<close> and the creation of the mutex are parameters.\<close>

definition app_storage_init_nvs ::
  "('s \<Rightarrow> esp_err \<times> 's) \<Rightarrow> ('s \<Rightarrow> esp_err \<times> 's) \<Rightarrow> bool \<Rightarrow> 's app_storage \<Rightarrow> esp_err \<times> 's app_storage" where
  "app_storage_init_nvs nvs_flash_init nvs_flash_erase mutex_created st =
     (case (case nvs_flash_init (nvs st) of (err, s) \<Rightarrow>
              if err = ESP_ERR_NVS_NO_FREE_PAGES \<or> err = ESP_ERR_NVS_NEW_VERSION_FOUND
              then (case nvs_flash_erase s of (err, s) \<Rightarrow>
                      if err \<noteq> ESP_OK then ((err, True), s)
                      else (case nvs_flash_init s of (err, s) \<Rightarrow> ((err, False), s)))
              else ((err, False), s)) of
        ((err, returned), s) \<Rightarrow>
          let st = st\<lparr>nvs := s\<rparr> in
          if returned then (err, st)
          else if err = ESP_OK \<and> \<not> s_wifi_config_mutex st
          then if mutex_created then (ESP_OK, st\<lparr>s_wifi_config_mutex := True\<rparr>) else (ESP_ERR_NO_MEM, st)
          else (err, st))"

end
