(* ===== verification/Config_Store.thy ===== *)
theory Config_Store
  imports App_Storage
begin

text \<open>
  What the persistent configuration promises, given what the NVS library documents. \<open>nvs_contract\<close>
  is that documentation: a reader sees the store as a map from keys to values, a write that succeeds updates one key,
  a write that fails leaves that key with its old or its new value and no other key changed, committing and
  opening change no value.

  A sequence of writes is described by the list of its updates (\<open>performs\<close>); everything else follows from the updates.
\<close>

type_synonym nvs_view = "string \<Rightarrow> nvs_value option"
type_synonym updates = "(string \<times> nvs_value option) list"

section \<open>The contract of the NVS library\<close>

definition c_value :: "nvs_value \<Rightarrow> bool" where
  "c_value v \<longleftrightarrow> (case v of Nvs_Str s \<Rightarrow> NUL \<notin> set s | _ \<Rightarrow> True)"

definition nvs_reads :: "('s \<Rightarrow> nvs_view) \<Rightarrow> 's nvs_api \<Rightarrow> bool" where
  "nvs_reads view api \<longleftrightarrow>
     (\<forall>s k v. view s k = Some v \<longrightarrow> c_value v) \<and>
     (\<forall>s k n v. nvs_get_str api s k n = Inr v \<longrightarrow> view s k = Some (Nvs_Str v) \<and> length v < n) \<and>
     (\<forall>s k n v. view s k = Some (Nvs_Str v) \<and> length v < n \<longrightarrow> nvs_get_str api s k n = Inr v) \<and>
     (\<forall>s k n. view s k = None \<longrightarrow> nvs_get_str api s k n = Inl ESP_ERR_NVS_NOT_FOUND) \<and>
     (\<forall>s k v. nvs_get_u32 api s k = Inr v \<longleftrightarrow> view s k = Some (Nvs_U32 v)) \<and>
     (\<forall>s k. view s k = None \<longrightarrow> nvs_get_u32 api s k = Inl ESP_ERR_NVS_NOT_FOUND) \<and>
     (\<forall>s k n. nvs_get_str api s k n \<noteq> Inl ESP_OK) \<and> (\<forall>s k. nvs_get_u32 api s k \<noteq> Inl ESP_OK)"

text \<open>A call that writes performs updates: all of them if it returns \<open>ESP_OK\<close>, otherwise any of them.\<close>

definition upd :: "updates \<Rightarrow> nvs_view \<Rightarrow> nvs_view" where
  "upd us v = (\<lambda>k. case map_of us k of None \<Rightarrow> v k | Some x \<Rightarrow> x)"

definition performs :: "('s \<Rightarrow> nvs_view) \<Rightarrow> updates \<Rightarrow> ('s \<Rightarrow> esp_err \<times> 's) \<Rightarrow> bool" where
  "performs view us call \<longleftrightarrow>
     (\<forall>s err s'. call s = (err, s') \<longrightarrow>
        (err = ESP_OK \<longrightarrow> view s' = upd us (view s)) \<and>
        (\<forall>k. view s' k = view s k \<or> view s' k = upd us (view s) k))"

definition nvs_contract :: "('s \<Rightarrow> nvs_view) \<Rightarrow> 's nvs_api \<Rightarrow> bool" where
  "nvs_contract view api \<longleftrightarrow>
     nvs_reads view api \<and>
     (\<forall>w. performs view [] (nvs_open api w)) \<and>
     (\<forall>k v. c_value v \<longrightarrow> performs view [(k, Some v)] (nvs_set api k v)) \<and>
     (\<forall>k s err s'. nvs_erase_key api k s = (err, s') \<longrightarrow>
        (if err = ESP_ERR_NVS_NOT_FOUND then view s k = None \<and> view s' = view s
         else (err = ESP_OK \<longrightarrow> view s' = (view s)(k := None)) \<and> (view s' = view s \<or> view s' = (view s)(k := None)))) \<and>
     performs view [] (nvs_commit api)"

section \<open>Sequences of writes\<close>

named_theorems writes \<open>which updates a call performs\<close>

lemma upd_Nil [simp]: "upd [] v = v"
  by (simp add: upd_def)

lemma upd_Cons [simp]: "upd ((k, x) # us) v j = (if j = k then x else upd us v j)"
  by (simp add: upd_def)

lemma upd_notin: "k \<notin> fst ` set us \<Longrightarrow> upd us v k = v k"
  by (simp add: upd_def map_of_eq_None_iff [THEN iffD2])

lemma performsD:
  "performs view us call \<Longrightarrow> call s = (err, s') \<Longrightarrow> view s' k = view s k \<or> view s' k = upd us (view s) k"
  "performs view us call \<Longrightarrow> call s = (ESP_OK, s') \<Longrightarrow> view s' = upd us (view s)"
  unfolding performs_def by blast+

lemma performs_none: "performs view [] call \<Longrightarrow> call s = (err, s') \<Longrightarrow> view s' = view s"
  unfolding performs_def upd_Nil by (metis ext)

lemma performs_chain_Nil [writes]: "performs view [] (\<lambda>s. fold if_ok [] (ESP_OK, s))"
  by (simp add: performs_def)

lemma upd_append: "upd (us @ ws) v = upd us (upd ws v)"
  by (rule ext, induction us) auto

lemma upd_in: "k \<in> fst ` set us \<Longrightarrow> upd us v k = upd us w k"
proof (induction us)
  case (Cons u us)
  obtain a x where u: "u = (a, x)" by (cases u)
  show ?case unfolding u upd_Cons using Cons u by (cases "k = a") simp_all
qed simp

lemma upd_cases: "upd us v k = v k \<or> upd us v k = upd us w k"
  using upd_in upd_notin by metis

lemma upd_swap:
  assumes "fst ` set us \<inter> fst ` set ws = {}"
  shows "upd ws (upd us v) = upd us (upd ws v)"
proof
  fix k
  consider "k \<notin> fst ` set ws" | "k \<in> fst ` set ws" "k \<notin> fst ` set us" using assms by blast
  then show "upd ws (upd us v) k = upd us (upd ws v) k"
  proof cases
    case 1
    then have e: "upd ws v k = v k" by (rule upd_notin)
    show ?thesis
      by (cases "k \<in> fst ` set us") (simp_all add: upd_notin 1 e upd_in [of k us "upd ws v" v])
  next
    case 2
    then show ?thesis by (simp add: upd_notin upd_in [of k ws "upd us v" v])
  qed
qed

lemma performs_chain_Cons:
  assumes c: "performs view us c" and cs: "performs view ws (\<lambda>s. fold if_ok cs (ESP_OK, s))"
    and d: "fst ` set us \<inter> fst ` set ws = {}"
  shows "performs view (us @ ws) (\<lambda>s. fold if_ok (c # cs) (ESP_OK, s))"
  unfolding performs_def fold_if_ok_Cons
proof (intro allI impI)
  fix s err2 s2 assume f: "fold if_ok cs (c s) = (err2, s2)"
  obtain err s1 where e: "c s = (err, s1)" by fastforce
  have pw: "\<forall>k. view s1 k = view s k \<or> view s1 k = upd us (view s) k" using performsD(1) [OF c e] by blast
  show "(err2 = ESP_OK \<longrightarrow> view s2 = upd (us @ ws) (view s)) \<and>
    (\<forall>k. view s2 k = view s k \<or> view s2 k = upd (us @ ws) (view s) k)"
  proof (cases "err = ESP_OK")
    case False
    then have "s2 = s1" "err2 \<noteq> ESP_OK" using f e fold_if_ok_error [of err cs s1] by auto
    moreover have "view s1 k = view s k \<or> view s1 k = upd us (upd ws (view s)) k" for k
      using pw [rule_format, of k] upd_cases [of us "view s" k "upd ws (view s)"] by (elim disjE) simp_all
    ultimately show ?thesis by (simp add: upd_append)
  next
    case True
    then have g: "fold if_ok cs (ESP_OK, s1) = (err2, s2)" and v: "view s1 = upd us (view s)"
      using f e performsD(2) [OF c, of s s1] by simp_all
    have both: "upd ws (view s1) = upd us (upd ws (view s))" by (simp add: v upd_swap [OF d])
    have "view s2 k = view s k \<or> view s2 k = upd us (upd ws (view s)) k" for k
      using performsD(1) [OF cs g, of k]
    proof (elim disjE)
      assume "view s2 k = view s1 k"
      then show ?thesis unfolding v using upd_cases [of us "view s" k "upd ws (view s)"] by simp
    qed (simp add: both)
    moreover have "err2 = ESP_OK \<longrightarrow> view s2 = upd us (upd ws (view s))"
      using performsD(2) [OF cs, of s1 s2] g both by simp
    ultimately show ?thesis by (simp add: upd_append)
  qed
qed

lemma performs_set: "nvs_contract view api \<Longrightarrow> c_value v \<Longrightarrow> performs view [(k, Some v)] (nvs_set api k v)"
  by (simp add: nvs_contract_def)

lemma performs_commit: "nvs_contract view api \<Longrightarrow> performs view [] (nvs_commit api)"
  by (simp add: nvs_contract_def)

lemma performs_open: "nvs_contract view api \<Longrightarrow> performs view [] (nvs_open api w)"
  by (simp add: nvs_contract_def)

lemma open_view: "nvs_contract view api \<Longrightarrow> nvs_open api w s = (err, s') \<Longrightarrow> view s' = view s"
  by (rule performs_none [OF performs_open])

lemma performs_erase:
  assumes "nvs_contract view api"
  shows "performs view [(k, None)] (erase_key_if_present api k)"
  unfolding performs_def
proof (intro allI impI)
  fix s err s' assume e: "erase_key_if_present api k s = (err, s')"
  obtain err1 s1 where c: "nvs_erase_key api k s = (err1, s1)" by fastforce
  have s: "s' = s1" "err = (if err1 = ESP_ERR_NVS_NOT_FOUND then ESP_OK else err1)"
    using e by (auto simp: erase_key_if_present_def c split: if_split_asm)
  have u: "upd [(k, None)] v = v(k := None)" for v by auto
  note erase = assms [unfolded nvs_contract_def, THEN conjunct2, THEN conjunct2, THEN conjunct2, THEN conjunct1]
  have "if err1 = ESP_ERR_NVS_NOT_FOUND then view s k = None \<and> view s1 = view s
         else (err1 = ESP_OK \<longrightarrow> view s1 = (view s)(k := None)) \<and> (view s1 = view s \<or> view s1 = (view s)(k := None))"
    using erase c by simp
  then show "(err = ESP_OK \<longrightarrow> view s' = upd [(k, None)] (view s)) \<and>
    (\<forall>j. view s' j = view s j \<or> view s' j = upd [(k, None)] (view s) j)"
    unfolding s u by (cases "err1 = ESP_ERR_NVS_NOT_FOUND") (auto simp: fun_upd_idem)
qed

definition erased :: "string list \<Rightarrow> updates" where
  "erased ks = map (\<lambda>k. (k, None)) ks"

lemma candidate_keys_distinct: "distinct [SSID_KEY, PASSWORD_KEY, CANDIDATE_SSID_KEY, CANDIDATE_PASSWORD_KEY,
    CANDIDATE_REQUEST_ID_KEY, CANDIDATE_VERSION_KEY, ACTIVE_REQUEST_ID_KEY, ACTIVE_VERSION_KEY, RECOVERY_TRIGGERED_KEY,
    RECOVERY_RETRY_KEY]"
  by (simp add: storage_keys)

text \<open>The updates of each routine of the code that writes.\<close>

definition erase_updates :: updates where
  "erase_updates = erased [CANDIDATE_SSID_KEY, CANDIDATE_PASSWORD_KEY, CANDIDATE_REQUEST_ID_KEY, CANDIDATE_VERSION_KEY]"

definition credential_updates :: "wifi_credentials \<Rightarrow> updates" where
  "credential_updates c = [(SSID_KEY, Some (Nvs_Str (c_str (ssid c)))), (PASSWORD_KEY, Some (Nvs_Str (c_str (password c))))]"

definition save_updates :: "wifi_credentials \<Rightarrow> updates" where
  "save_updates c = credential_updates c @ erase_updates @
     erased [ACTIVE_REQUEST_ID_KEY, ACTIVE_VERSION_KEY, RECOVERY_TRIGGERED_KEY, RECOVERY_RETRY_KEY]"

definition candidate_updates :: "wifi_config \<Rightarrow> updates" where
  "candidate_updates c =
     [(CANDIDATE_SSID_KEY, Some (Nvs_Str (c_str (ssid (credentials c))))),
      (CANDIDATE_PASSWORD_KEY, Some (Nvs_Str (c_str (password (credentials c))))),
      (CANDIDATE_REQUEST_ID_KEY, Some (Nvs_Str (c_str (request_id c)))),
      (CANDIDATE_VERSION_KEY, Some (Nvs_U32 (config_version c)))]"

definition promote_updates :: "wifi_config \<Rightarrow> updates" where
  "promote_updates c =
     credential_updates (credentials c) @
     [(ACTIVE_REQUEST_ID_KEY, Some (Nvs_Str (c_str (request_id c)))), (ACTIVE_VERSION_KEY, Some (Nvs_U32 (config_version c)))] @
     erase_updates @ erased [RECOVERY_TRIGGERED_KEY, RECOVERY_RETRY_KEY]"

lemma c_value_simps [simp]: "c_value (Nvs_Str (c_str s))" "c_value (Nvs_U32 n)" "c_value (Nvs_U8 m)"
  by (simp_all add: c_value_def NUL_notin_c_str)

lemma performs_last: "performs view us c \<Longrightarrow> performs view us (\<lambda>s. fold if_ok [c] (ESP_OK, s))"
  by (simp add: if_ok_def)

lemma performs_cong: "performs view us f \<Longrightarrow> us = ws \<Longrightarrow> f = g \<Longrightarrow> performs view ws g"
  by simp

lemmas update_defs = erase_updates_def credential_updates_def save_updates_def candidate_updates_def
  promote_updates_def erased_def

lemma performs_fold:
  "list_all2 (performs view) uss cs \<Longrightarrow> distinct (map fst (concat uss)) \<Longrightarrow>
   performs view (concat uss) (\<lambda>s. fold if_ok cs (ESP_OK, s))"
proof (induction rule: list_all2_induct)
  case Nil
  show ?case unfolding concat.simps by (rule performs_chain_Nil)
next
  case (Cons us uss c cs)
  then show ?case
    by (simp only: concat.simps map_append distinct_append set_map) (rule performs_chain_Cons, simp_all)
qed

lemma performs_by:
  assumes "\<And>s. call s = fold if_ok cs (ESP_OK, s)" "list_all2 (performs view) uss cs" "distinct (map fst (concat uss))"
    "us = concat uss"
  shows "performs view us call"
  using performs_fold [OF assms(2,3)] assms(1,4) by (simp add: performs_def)

lemma erase_candidate_performs:
  assumes "nvs_contract view api"
  shows "performs view erase_updates (erase_candidate_from_handle api)"
  by (rule performs_by [where uss = "map (\<lambda>k. [(k, None)]) [CANDIDATE_SSID_KEY, CANDIDATE_PASSWORD_KEY,
        CANDIDATE_REQUEST_ID_KEY, CANDIDATE_VERSION_KEY]" and cs = "map (erase_key_if_present api) [CANDIDATE_SSID_KEY,
        CANDIDATE_PASSWORD_KEY, CANDIDATE_REQUEST_ID_KEY, CANDIDATE_VERSION_KEY]"])
     (simp_all add: erase_candidate_from_handle_def performs_erase [OF assms] update_defs storage_keys)

lemma save_performs:
  assumes "nvs_contract view api"
  shows "performs view (save_updates c) (save_writes api c)"
  by (rule performs_by [where uss = "[[(SSID_KEY, Some (Nvs_Str (c_str (ssid c))))],
      [(PASSWORD_KEY, Some (Nvs_Str (c_str (password c))))], erase_updates, [(ACTIVE_REQUEST_ID_KEY, None)],
      [(ACTIVE_VERSION_KEY, None)], [(RECOVERY_TRIGGERED_KEY, None)], [(RECOVERY_RETRY_KEY, None)], []]",
      OF save_writes_def])
     (simp_all add: performs_erase [OF assms] performs_set [OF assms] performs_commit [OF assms]
       erase_candidate_performs [OF assms], simp_all add: update_defs storage_keys)

lemma candidate_performs:
  assumes "nvs_contract view api"
  shows "performs view (candidate_updates c) (candidate_writes api c)"
  by (rule performs_by [where uss = "map (\<lambda>u. [u]) (candidate_updates c) @ [[]]", OF candidate_writes_def])
     (simp_all add: performs_set [OF assms] performs_commit [OF assms] update_defs storage_keys)

lemma promote_performs:
  assumes "nvs_contract view api"
  shows "performs view (promote_updates c) (promote_writes api c)"
  by (rule performs_by [where uss = "[[(SSID_KEY, Some (Nvs_Str (c_str (ssid (credentials c)))))],
      [(PASSWORD_KEY, Some (Nvs_Str (c_str (password (credentials c)))))],
      [(ACTIVE_REQUEST_ID_KEY, Some (Nvs_Str (c_str (request_id c))))], [(ACTIVE_VERSION_KEY, Some (Nvs_U32 (config_version c)))],
      erase_updates, [(RECOVERY_TRIGGERED_KEY, None)], [(RECOVERY_RETRY_KEY, None)], []]", OF promote_writes_def])
     (simp_all add: performs_erase [OF assms] performs_set [OF assms] performs_commit [OF assms]
       erase_candidate_performs [OF assms], simp_all add: update_defs storage_keys)

lemma clear_performs:
  assumes c: "nvs_contract view api" and r: "clear_writes api s = (err, s')"
  shows "view s' k = view s k \<or>
    k \<in> {SSID_KEY, PASSWORD_KEY, ACTIVE_REQUEST_ID_KEY, ACTIVE_VERSION_KEY} \<and> view s' k = None"
    "err = ESP_OK \<Longrightarrow> k \<in> {SSID_KEY, PASSWORD_KEY, ACTIVE_REQUEST_ID_KEY, ACTIVE_VERSION_KEY} \<Longrightarrow> view s' k = None"
proof -
  define ks where "ks = [SSID_KEY, PASSWORD_KEY, ACTIVE_REQUEST_ID_KEY, ACTIVE_VERSION_KEY]"
  define step where "step = (\<lambda>key (changed, r). (changed \<or> fst r = ESP_OK \<and> erase_changes api key (snd r),
    if_ok (erase_key_if_present api key) r))"
  have p: "snd (fold step ks (b, r)) = fold if_ok (map (erase_key_if_present api) ks) r" for ks b r
    by (induction ks arbitrary: b r) (auto simp: step_def)
  obtain b err1 s1 where f: "fold step ks (False, (ESP_OK, s)) = (b, (err1, s1))" by (metis prod.exhaust)
  have e: "fold if_ok (map (erase_key_if_present api) ks) (ESP_OK, s) = (err1, s1)"
    using p [where ks = ks and b = False and r = "(ESP_OK, s)"] f by simp
  have pf: "performs view (erased ks) (\<lambda>s. fold if_ok (map (erase_key_if_present api) ks) (ESP_OK, s))"
    by (rule performs_by [where uss = "map (\<lambda>k. [(k, None)]) ks", OF refl])
       (simp_all add: ks_def performs_erase [OF c] update_defs storage_keys)
  have v: "view s' = view s1" and ok: "err = ESP_OK \<Longrightarrow> err1 = ESP_OK"
  proof -
    have r': "(if b then if_ok (nvs_commit api) (err1, s1) else (err1, s1)) = (err, s')"
    proof -
      have "clear_writes api s = (case fold step ks (False, (ESP_OK, s)) of (b, r) \<Rightarrow> if b then if_ok (nvs_commit api) r else r)"
        unfolding clear_writes_def ks_def step_def Let_def ..
      then show ?thesis using r f by simp
    qed
    show "view s' = view s1"
      using r' performs_none [OF performs_commit [OF c]] by (auto simp: if_ok_def split: if_split_asm)
    show "err1 = ESP_OK" if "err = ESP_OK" using r' that by (auto simp: if_ok_def split: if_split_asm)
  qed
  have u: "upd (erased ks) w k = (if k \<in> set ks then None else w k)" for w
    by (simp add: erased_def ks_def)
  show "view s' k = view s k \<or>
    k \<in> {SSID_KEY, PASSWORD_KEY, ACTIVE_REQUEST_ID_KEY, ACTIVE_VERSION_KEY} \<and> view s' k = None"
    using performsD(1) [OF pf e, of k] unfolding v u by (auto simp: ks_def split: if_split_asm)
  show "view s' k = None" if "err = ESP_OK" "k \<in> {SSID_KEY, PASSWORD_KEY, ACTIVE_REQUEST_ID_KEY, ACTIVE_VERSION_KEY}"
    using performsD(2) [OF pf, of s s1] e ok that(1) u [of "view s"] that(2) by (simp add: v) (auto simp: ks_def)
qed

section \<open>What is stored\<close>

text \<open>The current credentials, the active version and the candidate, read off the view.\<close>

definition active_version_of :: "nvs_view \<Rightarrow> u32 option" where
  "active_version_of v = (case v ACTIVE_VERSION_KEY of Some (Nvs_U32 n) \<Rightarrow> Some n | _ \<Rightarrow> None)"

definition candidate_version_of :: "nvs_view \<Rightarrow> u32 option" where
  "candidate_version_of v = (case v CANDIDATE_VERSION_KEY of Some (Nvs_U32 n) \<Rightarrow> Some n | _ \<Rightarrow> None)"

definition holds_candidate :: "nvs_view \<Rightarrow> wifi_config \<Rightarrow> bool" where
  "holds_candidate v c \<longleftrightarrow> (\<forall>k \<in> fst ` set (candidate_updates c). Some (v k) = map_of (candidate_updates c) k)"

lemma contract_reads: "nvs_contract view api \<Longrightarrow> nvs_reads view api"
  by (simp add: nvs_contract_def)

lemma nvs_readsD:
  assumes "nvs_reads view api"
  shows "view s k = Some w \<Longrightarrow> c_value w"
    and "nvs_get_str api s k n = Inr v \<Longrightarrow> view s k = Some (Nvs_Str v) \<and> length v < n"
    and "view s k = Some (Nvs_Str v) \<and> length v < n \<Longrightarrow> nvs_get_str api s k n = Inr v"
    and "view s k = None \<Longrightarrow> nvs_get_str api s k n = Inl ESP_ERR_NVS_NOT_FOUND"
    and "nvs_get_u32 api s k = Inr x \<longleftrightarrow> view s k = Some (Nvs_U32 x)"
    and "view s k = None \<Longrightarrow> nvs_get_u32 api s k = Inl ESP_ERR_NVS_NOT_FOUND"
    and "nvs_get_str api s k n \<noteq> Inl ESP_OK"
    and "nvs_get_u32 api s k \<noteq> Inl ESP_OK"
proof -
  note c = assms [unfolded nvs_reads_def]
  show "c_value w" if "view s k = Some w" using that by (rule c [THEN conjunct1, rule_format])
  show "view s k = Some (Nvs_Str v) \<and> length v < n" if "nvs_get_str api s k n = Inr v" using that by (rule c [THEN conjunct2, THEN conjunct1, rule_format])
  show "nvs_get_str api s k n = Inr v" if "view s k = Some (Nvs_Str v) \<and> length v < n" using that by (rule c [THEN conjunct2, THEN conjunct2, THEN conjunct1, rule_format])
  show "nvs_get_str api s k n = Inl ESP_ERR_NVS_NOT_FOUND" if "view s k = None" using that by (rule c [THEN conjunct2, THEN conjunct2, THEN conjunct2, THEN conjunct1, rule_format])
  show "nvs_get_u32 api s k = Inr x \<longleftrightarrow> view s k = Some (Nvs_U32 x)" by (rule c [THEN conjunct2, THEN conjunct2, THEN conjunct2, THEN conjunct2, THEN conjunct1, rule_format])
  show "nvs_get_u32 api s k = Inl ESP_ERR_NVS_NOT_FOUND" if "view s k = None" using that by (rule c [THEN conjunct2, THEN conjunct2, THEN conjunct2, THEN conjunct2, THEN conjunct2, THEN conjunct1, rule_format])
  show "nvs_get_str api s k n \<noteq> Inl ESP_OK" by (rule c [THEN conjunct2, THEN conjunct2, THEN conjunct2, THEN conjunct2, THEN conjunct2, THEN conjunct2, THEN conjunct1, rule_format])
  show "nvs_get_u32 api s k \<noteq> Inl ESP_OK" by (rule c [THEN conjunct2, THEN conjunct2, THEN conjunct2, THEN conjunct2, THEN conjunct2, THEN conjunct2, THEN conjunct2, rule_format])
qed

lemma get_str:
  assumes "nvs_contract view api" "nvs_get_str api s k n = Inr v"
  shows "view s k = Some (Nvs_Str v) \<and> length v < n \<and> NUL \<notin> set v"
proof -
  note r = contract_reads [OF assms(1)]
  note v = nvs_readsD(2) [OF r assms(2)]
  show ?thesis using v nvs_readsD(1) [OF r v [THEN conjunct1]] by (simp add: c_value_def)
qed

lemma get_str_stored:
  "nvs_contract view api \<Longrightarrow> view s k = Some (Nvs_Str v) \<Longrightarrow> length v < n \<Longrightarrow> nvs_get_str api s k n = Inr v"
  by (rule nvs_readsD(3) [OF contract_reads]) (assumption, rule conjI)

lemmas get_u32 = nvs_readsD(5) [OF contract_reads]
lemmas get_missing = nvs_readsD(4,6) [OF contract_reads]
lemmas get_errors = nvs_readsD(7,8) [OF contract_reads]

text \<open>Loading the candidate.\<close>

lemma load_candidate_sound:
  assumes "nvs_contract view api" "load_candidate_from_handle api s = Inr p"
  shows "holds_candidate (view s) p \<and> validate_wifi_config (Some p) = ESP_OK \<and> c_str (request_id p) = request_id p \<and>
    c_str (ssid (credentials p)) = ssid (credentials p) \<and> c_str (password (credentials p)) = password (credentials p)"
proof -
  obtain i q r v where g: "nvs_get_str api s CANDIDATE_SSID_KEY APP_STORAGE_WIFI_SSID_SIZE = Inr i"
      "nvs_get_str api s CANDIDATE_PASSWORD_KEY APP_STORAGE_WIFI_PASSWORD_SIZE = Inr q"
      "nvs_get_str api s CANDIDATE_REQUEST_ID_KEY APP_STORAGE_WIFI_REQUEST_ID_SIZE = Inr r"
      "nvs_get_u32 api s CANDIDATE_VERSION_KEY = Inr v"
    and p: "p = \<lparr>credentials = \<lparr>ssid = i, password = q\<rparr>, request_id = r, config_version = v\<rparr>"
      "validate_wifi_config (Some p) = ESP_OK"
    using assms(2) unfolding load_candidate_from_handle_def read_candidate_def
    by (auto simp: Let_def split: sum.splits if_split_asm)
  note s = g(1-3) [THEN get_str [OF assms(1)]] g(4) [unfolded get_u32 [OF assms(1)]]
  show ?thesis using s p(2) unfolding p(1) by (simp add: holds_candidate_def candidate_updates_def storage_keys c_str_noNUL)
qed

lemma load_candidate_stored:
  assumes "nvs_contract view api" "holds_candidate (view s) p" "validate_wifi_config (Some p) = ESP_OK"
    and c: "c_str (request_id p) = request_id p" "c_str (ssid (credentials p)) = ssid (credentials p)"
      "c_str (password (credentials p)) = password (credentials p)"
  shows "load_candidate_from_handle api s = Inr p"
proof -
  have l: "length (ssid (credentials p)) < APP_STORAGE_WIFI_SSID_SIZE"
      "length (password (credentials p)) < APP_STORAGE_WIFI_PASSWORD_SIZE"
      "length (request_id p) < APP_STORAGE_WIFI_REQUEST_ID_SIZE"
    using assms(3) c c_strnlen_less [of "ssid (credentials p)"] c_strnlen_less [of "password (credentials p)"]
      c_strnlen_less [of "request_id p"]
    by (auto simp: validate_wifi_config_def validate_wifi_credentials_def Let_def not_le split: if_split_asm)
  have v: "view s CANDIDATE_SSID_KEY = Some (Nvs_Str (ssid (credentials p)))"
      "view s CANDIDATE_PASSWORD_KEY = Some (Nvs_Str (password (credentials p)))"
      "view s CANDIDATE_REQUEST_ID_KEY = Some (Nvs_Str (request_id p))"
      "view s CANDIDATE_VERSION_KEY = Some (Nvs_U32 (config_version p))"
    using assms(2) c by (simp_all add: holds_candidate_def candidate_updates_def storage_keys)
  show ?thesis
    using assms(3) unfolding load_candidate_from_handle_def read_candidate_def
    by (cases p, cases "credentials p")
       (simp add: Let_def get_str_stored [OF assms(1) v(1) l(1)] get_str_stored [OF assms(1) v(2) l(2)]
        get_str_stored [OF assms(1) v(3) l(3)] get_u32 [OF assms(1), THEN iffD2, OF v(4)])
qed

end
