(* ===== verification/Config_Runs.thy ===== *)
theory Config_Runs
  imports Config_Store
begin

text \<open>
  The operations of the persistent configuration as updates of what is stored, and the properties of their
  runs: a staged configuration reaches the current one only through a promotion that names it, a promotion
  installs exactly what was staged, and the active version never goes back while only commands act on the store.
\<close>

section \<open>Staging\<close>

lemma load_candidate_error: "nvs_contract view api \<Longrightarrow> load_candidate_from_handle api s = Inl err \<Longrightarrow> err \<noteq> ESP_OK"
  unfolding load_candidate_from_handle_def read_candidate_def
  by (auto simp: Let_def get_errors split: sum.splits if_split_asm)

lemma load_metadata_error:
  "nvs_contract view api \<Longrightarrow> load_metadata_pair api rk vk n s = Inl err \<Longrightarrow> err \<noteq> ESP_OK"
  unfolding load_metadata_pair_def by (auto simp: get_errors split: sum.splits if_split_asm)

lemma load_metadata_version:
  assumes "nvs_contract view api" "load_metadata_pair api rk ACTIVE_VERSION_KEY n s = Inr m"
  shows "active_version_of (view s) = map_option snd m"
proof (cases "nvs_get_u32 api s ACTIVE_VERSION_KEY")
  case (Inr v)
  then have "view s ACTIVE_VERSION_KEY = Some (Nvs_U32 v)" by (simp add: get_u32 [OF assms(1)])
  then show ?thesis
    using assms(2) Inr unfolding load_metadata_pair_def active_version_of_def by (auto split: sum.splits if_split_asm)
next
  case (Inl e)
  then have "view s ACTIVE_VERSION_KEY \<noteq> Some (Nvs_U32 v)" for v using get_u32 [OF assms(1), of s ACTIVE_VERSION_KEY v] by auto
  then show ?thesis
    using assms(2) Inl unfolding load_metadata_pair_def active_version_of_def
    by (auto split: sum.splits if_split_asm option.split nvs_value.split)
qed

lemma stage_decision_STORED:
  assumes "stage_decision pending active c = APP_STORAGE_WIFI_STAGE_STORED" "config_version c \<noteq> 0"
  shows "(case pending of None \<Rightarrow> True | Some p \<Rightarrow> config_version p < config_version c) \<and>
    (case active of None \<Rightarrow> True | Some (r, n) \<Rightarrow> n < config_version c)"
proof -
  define m where "m = (case pending of None \<Rightarrow> 0 | Some p \<Rightarrow> if config_version p > 0 then config_version p else 0)"
  define h where "h = (case active of None \<Rightarrow> m | Some (r, v) \<Rightarrow> if v > m then v else m)"
  have "\<not> config_version c < h \<and> \<not> (config_version c = h \<and> h \<noteq> 0)"
    using assms(1) unfolding stage_decision_def Let_def m_def [symmetric] h_def [symmetric] by (auto split: if_split_asm)
  then have h: "h < config_version c" using assms(2) by (cases "config_version c = h") auto
  have "m \<le> h" by (auto simp: h_def split: option.split)
  then have m: "m < config_version c" using h by simp
  have "case pending of None \<Rightarrow> True | Some p \<Rightarrow> config_version p < config_version c"
  proof (cases pending)
    case (Some p)
    have "config_version p \<le> m" unfolding m_def Some by (auto simp: word_gt_0)
    then show ?thesis using m Some by simp
  qed simp
  moreover have "case active of None \<Rightarrow> True | Some (r, n) \<Rightarrow> n < config_version c"
  proof (cases active)
    case (Some rn)
    obtain r n where rn: "rn = (r, n)" by (cases rn)
    have "n \<le> h" unfolding h_def Some rn by auto
    then show ?thesis using h Some rn by simp
  qed simp
  ultimately show ?thesis ..
qed

lemma stage_cases [consumes 2, case_names same stored]:
  assumes c: "nvs_contract view api"
    and r: "app_storage_stage_candidate_wifi_config api config st = ((err, res), st')"
  obtains "view (nvs st') = view (nvs st)" "res = APP_STORAGE_WIFI_STAGE_STORED \<longleftrightarrow> err \<noteq> ESP_OK"
  | (stored) cfg where "config = Some cfg" "validate_wifi_config config = ESP_OK" "res = APP_STORAGE_WIFI_STAGE_STORED"
      "\<forall>k. view (nvs st') k = view (nvs st) k \<or> view (nvs st') k = upd (candidate_updates cfg) (view (nvs st)) k"
      "err = ESP_OK \<Longrightarrow> view (nvs st') = upd (candidate_updates cfg) (view (nvs st))"
      "\<forall>n. active_version_of (view (nvs st)) = Some n \<longrightarrow> n < config_version cfg"
      "\<forall>p. holds_candidate (view (nvs st)) p \<and> validate_wifi_config (Some p) = ESP_OK \<and> c_str (request_id p) = request_id p \<and>
         c_str (ssid (credentials p)) = ssid (credentials p) \<and> c_str (password (credentials p)) = password (credentials p) \<longrightarrow>
         config_version p < config_version cfg"
proof (cases "validate_wifi_config config = ESP_OK \<and> lock_wifi_config api st = ESP_OK")
  case False
  have "err \<noteq> ESP_OK \<and> res = APP_STORAGE_WIFI_STAGE_STORED \<and> st' = st"
  proof (cases "validate_wifi_config config = ESP_OK")
    case valid: True
    then have "lock_wifi_config api st \<noteq> ESP_OK" using False by simp
    then show ?thesis using r valid unfolding app_storage_stage_candidate_wifi_config_def Let_def by auto
  next
    case invalid: False
    then show ?thesis using r unfolding app_storage_stage_candidate_wifi_config_def Let_def by simp
  qed
  then show ?thesis using that(1) by simp
next
  case True
  then obtain cfg where cfg: "config = Some cfg" by (cases config) (auto simp: validate_wifi_config_def)
  obtain oe s where o: "nvs_open api True (nvs st) = (oe, s)" by fastforce
  note v = open_view [OF c o]
  define found where "found = (case load_candidate_from_handle api s of
     Inr p \<Rightarrow> Inr (Some p) | Inl err \<Rightarrow> if err = ESP_ERR_NOT_FOUND then Inr None else Inl err)"
  define meta where "meta = load_metadata_pair api ACTIVE_REQUEST_ID_KEY ACTIVE_VERSION_KEY APP_STORAGE_WIFI_REQUEST_ID_SIZE s"
  note stage = r [unfolded app_storage_stage_candidate_wifi_config_def Let_def cfg o prod.case
    found_def [symmetric] meta_def [symmetric]]
  show ?thesis
  proof (cases "\<exists>pending active. oe = ESP_OK \<and> found = Inr pending \<and> meta = Inr active \<and>
      stage_decision pending active cfg = APP_STORAGE_WIFI_STAGE_STORED")
    case False
    have fe: "e \<noteq> ESP_OK" if "found = Inl e" for e
      using that load_candidate_error [OF c] unfolding found_def by (auto split: sum.splits if_split_asm)
    have me: "e \<noteq> ESP_OK" if "meta = Inl e" for e
      using that load_metadata_error [OF c] unfolding meta_def by blast
    show ?thesis
      by (rule that(1))
         (use stage False True v fe me cfg in \<open>auto split: if_split_asm sum.splits\<close>)
  next
    case stored: True
    then obtain pending active where s: "oe = ESP_OK" "found = Inr pending" "meta = Inr active"
      "stage_decision pending active cfg = APP_STORAGE_WIFI_STAGE_STORED" by blast
    obtain err1 s1 where w: "candidate_writes api cfg s = (err1, s1)" by fastforce
    have e: "err = err1" "res = APP_STORAGE_WIFI_STAGE_STORED" "nvs st' = s1"
      using stage True cfg s w by auto
    have n: "config_version cfg \<noteq> 0" using True cfg by (auto simp: validate_wifi_config_def)
    note d = stage_decision_STORED [OF s(4) n]
    note cand = performsD [OF candidate_performs [OF c], of cfg s]
    show ?thesis
    proof (rule that(2) [OF cfg])
      show "validate_wifi_config config = ESP_OK" using True by simp
      show "res = APP_STORAGE_WIFI_STAGE_STORED" by fact
      show "\<forall>k. view (nvs st') k = view (nvs st) k \<or> view (nvs st') k = upd (candidate_updates cfg) (view (nvs st)) k"
        using cand(1) [OF w] unfolding e v by blast
      show "view (nvs st') = upd (candidate_updates cfg) (view (nvs st))" if "err = ESP_OK"
        using cand(2) [of s1] w that unfolding e v by simp
      have "active_version_of (view (nvs st)) = map_option snd active"
        using load_metadata_version [OF c s(3) [unfolded meta_def]] v by simp
      then show "\<forall>n. active_version_of (view (nvs st)) = Some n \<longrightarrow> n < config_version cfg"
        using d by (auto split: option.splits)
      show "\<forall>p. holds_candidate (view (nvs st)) p \<and> validate_wifi_config (Some p) = ESP_OK \<and> c_str (request_id p) = request_id p \<and>
         c_str (ssid (credentials p)) = ssid (credentials p) \<and> c_str (password (credentials p)) = password (credentials p) \<longrightarrow>
         config_version p < config_version cfg"
        using d s(2) load_candidate_stored [OF c, of s] unfolding found_def v by (auto split: sum.splits if_split_asm)
    qed
  qed
qed

section \<open>Promoting, saving and clearing\<close>

lemma promote_cases [consumes 2, case_names same promoted]:
  assumes c: "nvs_contract view api"
    and r: "app_storage_promote_candidate_wifi_config api expected version st = (err, st')"
  obtains "view (nvs st') = view (nvs st)" "err \<noteq> ESP_OK"
  | (promoted) p where "holds_candidate (view (nvs st)) p" "validate_wifi_config (Some p) = ESP_OK"
      "expected = Some (request_id p)" "version = config_version p \<and> c_str (request_id p) = request_id p"
      "\<forall>k. view (nvs st') k = view (nvs st) k \<or> view (nvs st') k = upd (promote_updates p) (view (nvs st)) k"
      "err = ESP_OK \<Longrightarrow> view (nvs st') = upd (promote_updates p) (view (nvs st))"
proof (cases "\<exists>e. expected = Some e \<and> e \<noteq> [] \<and> version \<noteq> 0 \<and> lock_wifi_config api st = ESP_OK")
  case False
  have "err \<noteq> ESP_OK \<and> st' = st"
    using r False unfolding app_storage_promote_candidate_wifi_config_def Let_def
    by (cases "lock_wifi_config api st = ESP_OK") (auto split: option.splits if_split_asm)
  then show ?thesis using that(1) by simp
next
  case True
  then obtain e where e: "expected = Some e" "e \<noteq> []" "version \<noteq> 0" "lock_wifi_config api st = ESP_OK" by blast
  obtain oe s where o: "nvs_open api True (nvs st) = (oe, s)" by fastforce
  note v = open_view [OF c o]
  have r': "(if oe \<noteq> ESP_OK then (oe, st\<lparr>nvs := s\<rparr>)
     else case load_candidate_from_handle api s of Inl err \<Rightarrow> (err, st\<lparr>nvs := s\<rparr>)
       | Inr p \<Rightarrow> if config_version p \<noteq> version \<or> c_str (request_id p) \<noteq> e then (ESP_ERR_INVALID_STATE, st\<lparr>nvs := s\<rparr>)
           else (case promote_writes api p s of (err, s') \<Rightarrow> (err, st\<lparr>nvs := s, nvs := s'\<rparr>))) = (err, st')"
    using r unfolding app_storage_promote_candidate_wifi_config_def e option.case Let_def o prod.case
    by (simp only: e simp_thms if_False not_not if_cancel)
  show ?thesis
  proof (cases "\<exists>p. oe = ESP_OK \<and> load_candidate_from_handle api s = Inr p \<and> config_version p = version \<and> c_str (request_id p) = e")
    case False
    then have "err \<noteq> ESP_OK \<and> nvs st' = s"
      using r' load_candidate_error [OF c, of s] by (auto split: if_split_asm sum.splits)
    then show ?thesis using that(1) v by simp
  next
    case True
    then obtain p where p: "oe = ESP_OK" "load_candidate_from_handle api s = Inr p" "config_version p = version" "c_str (request_id p) = e"
      by blast
    obtain err1 s1 where w: "promote_writes api p s = (err1, s1)" by fastforce
    have st: "err = err1" "nvs st' = s1" using r' p w by auto
    note l = load_candidate_sound [OF c p(2), unfolded v]
    note cand = performsD [OF promote_performs [OF c], of p s]
    show ?thesis
    proof (rule that(2) [of p])
      show "holds_candidate (view (nvs st)) p" "validate_wifi_config (Some p) = ESP_OK" using l by simp_all
      show "expected = Some (request_id p)" "version = config_version p \<and> c_str (request_id p) = request_id p"
        using l p e by simp_all
      show "\<forall>k. view (nvs st') k = view (nvs st) k \<or> view (nvs st') k = upd (promote_updates p) (view (nvs st)) k"
        using cand(1) [OF w] unfolding st v by blast
      show "view (nvs st') = upd (promote_updates p) (view (nvs st))" if "err = ESP_OK"
        using cand(2) [of s1] w that unfolding st v by simp
    qed
  qed
qed

lemma save_cases [consumes 2, case_names same saved]:
  assumes c: "nvs_contract view api" and r: "app_storage_save_wifi_credentials api given st = (err, st')"
  obtains "view (nvs st') = view (nvs st)" "err \<noteq> ESP_OK"
  | (saved) w where "given = Some w" "validate_wifi_credentials given = ESP_OK"
      "\<forall>k. view (nvs st') k = view (nvs st) k \<or> view (nvs st') k = upd (save_updates w) (view (nvs st)) k"
      "err = ESP_OK \<Longrightarrow> view (nvs st') = upd (save_updates w) (view (nvs st))"
proof (cases "validate_wifi_credentials given = ESP_OK \<and> lock_wifi_config api st = ESP_OK")
  case False
  have "err \<noteq> ESP_OK \<and> st' = st"
    using r False unfolding app_storage_save_wifi_credentials_def Let_def
    by (cases "validate_wifi_credentials given = ESP_OK") (auto split: if_split_asm)
  then show ?thesis using that(1) by simp
next
  case True
  then obtain w where w: "given = Some w" by (cases given) (auto simp: validate_wifi_credentials_def)
  obtain oe s where o: "nvs_open api True (nvs st) = (oe, s)" by fastforce
  note v = open_view [OF c o]
  obtain err1 s1 where sw: "save_writes api w s = (err1, s1)" by fastforce
  have r': "(if oe \<noteq> ESP_OK then (oe, st\<lparr>nvs := s\<rparr>) else (err1, st\<lparr>nvs := s1\<rparr>)) = (err, st')"
    using r True w o sw unfolding app_storage_save_wifi_credentials_def by (simp add: Let_def split: if_split_asm)
  note u = performsD [OF save_performs [OF c], of w s]
  show ?thesis
  proof (cases "oe = ESP_OK")
    case False
    then show ?thesis using that(1) r' v by auto
  next
    case ok: True
    then have st: "err = err1" "nvs st' = s1" using r' by auto
    show ?thesis
      by (rule that(2) [OF w]) (use True u sw st v in auto)
  qed
qed

lemma clear_cases:
  assumes c: "nvs_contract view api" and r: "app_storage_clear_wifi_credentials api st = (err, st')"
  shows "view (nvs st') k = view (nvs st) k \<or>
    k \<in> {SSID_KEY, PASSWORD_KEY, ACTIVE_REQUEST_ID_KEY, ACTIVE_VERSION_KEY} \<and> view (nvs st') k = None"
proof -
  obtain oe s where o: "nvs_open api True (nvs st) = (oe, s)" by fastforce
  obtain err1 s1 where w: "clear_writes api s = (err1, s1)" by fastforce
  have "st' = st \<or> nvs st' = s \<or> nvs st' = s1"
    using r o w unfolding app_storage_clear_wifi_credentials_def by (auto simp: Let_def split: if_split_asm)
  then show ?thesis
  proof (elim disjE)
    assume "nvs st' = s1"
    then show ?thesis using clear_performs(1) [OF c w, of k] open_view [OF c o] by simp
  qed (simp_all add: open_view [OF c o])
qed

text \<open>A clearing without an error has erased all four keys, if the namespace exists.\<close>

lemma clear_erases:
  assumes c: "nvs_contract view api" and r: "app_storage_clear_wifi_credentials api st = (ESP_OK, st')"
    and n: "fst (nvs_open api True (nvs st)) \<noteq> ESP_ERR_NVS_NOT_FOUND"
    and k: "k \<in> {SSID_KEY, PASSWORD_KEY, ACTIVE_REQUEST_ID_KEY, ACTIVE_VERSION_KEY}"
  shows "view (nvs st') k = None"
proof -
  obtain oe s where o: "nvs_open api True (nvs st) = (oe, s)" by fastforce
  obtain err1 s1 where w: "clear_writes api s = (err1, s1)" by fastforce
  have "nvs st' = s1" "err1 = ESP_OK"
    using r n o w unfolding app_storage_clear_wifi_credentials_def by (auto simp: Let_def split: if_split_asm)
  then show ?thesis using clear_performs(2) [OF c w] k by simp
qed

text \<open>The recovery marks live in keys of their own.\<close>

lemma marks_keep:
  assumes c: "nvs_contract view api" and k: "k \<noteq> RECOVERY_TRIGGERED_KEY" "k \<noteq> RECOVERY_RETRY_KEY"
  shows "view (nvs (snd (app_storage_set_recovery_triggered api st))) k = view (nvs st) k"
    "view (nvs (snd (app_storage_clear_recovery_triggered api st))) k = view (nvs st) k"
    "view (nvs (snd (app_storage_increment_recovery_retry api st))) k = view (nvs st) k"
proof -
  obtain oe s where o: "nvs_open api True (nvs st) = (oe, s)" by fastforce
  note v = open_view [OF c o]
  have set: "view (snd (if_ok (nvs_commit api) (nvs_set api j (Nvs_U8 x) s))) k = view (nvs st) k"
    if "j \<noteq> k" for j x
  proof -
    obtain e1 s1 where w: "nvs_set api j (Nvs_U8 x) s = (e1, s1)" by fastforce
    obtain e2 s2 where w2: "nvs_commit api s1 = (e2, s2)" by fastforce
    have "view s1 k = view s k"
      using performsD(1) [OF performs_set [OF c] w, of k] that by (auto simp: upd_def)
    then show ?thesis using performs_none [OF performs_commit [OF c] w2] w w2 v by (simp add: if_ok_def)
  qed
  show "view (nvs (snd (app_storage_set_recovery_triggered api st))) k = view (nvs st) k"
    using set [of RECOVERY_TRIGGERED_KEY 1] k unfolding app_storage_set_recovery_triggered_def o
    by (simp add: v split: prod.split) (metis snd_conv)
  show "view (nvs (snd (app_storage_increment_recovery_retry api st))) k = view (nvs st) k"
    using set [of RECOVERY_RETRY_KEY] k unfolding app_storage_increment_recovery_retry_def o
    by (auto simp: v Let_def split: prod.split sum.split) (metis snd_conv)+
  obtain e1 s1 where w: "erase_key_if_present api RECOVERY_TRIGGERED_KEY s = (e1, s1)" by fastforce
  obtain e2 s2 where w2: "nvs_commit api s1 = (e2, s2)" by fastforce
  have "view s1 k = view s k"
    using performsD(1) [OF performs_erase [OF c] w, of k] k by (auto simp: upd_def)
  then show "view (nvs (snd (app_storage_clear_recovery_triggered api st))) k = view (nvs st) k"
    using performs_none [OF performs_commit [OF c] w2] w w2 v
    unfolding app_storage_clear_recovery_triggered_def o by (simp add: if_ok_def)
qed

section \<open>Runs\<close>

text \<open>The calls that the firmware makes, in any order and with any result of the NVS library.\<close>

datatype storage_call =
    Save "wifi_credentials option" | Clear | Stage "wifi_config option" | Promote "string option" u32
  | Set_triggered | Clear_triggered | Increment_retry

fun storage_step :: "'s nvs_api \<Rightarrow> storage_call \<Rightarrow> 's app_storage \<Rightarrow> 's app_storage" where
  "storage_step api (Save c) st = snd (app_storage_save_wifi_credentials api c st)"
| "storage_step api Clear st = snd (app_storage_clear_wifi_credentials api st)"
| "storage_step api (Stage c) st = snd (app_storage_stage_candidate_wifi_config api c st)"
| "storage_step api (Promote r n) st = snd (app_storage_promote_candidate_wifi_config api r n st)"
| "storage_step api Set_triggered st = snd (app_storage_set_recovery_triggered api st)"
| "storage_step api Clear_triggered st = snd (app_storage_clear_recovery_triggered api st)"
| "storage_step api Increment_retry st = snd (app_storage_increment_recovery_retry api st)"

definition run_storage :: "'s nvs_api \<Rightarrow> storage_call list \<Rightarrow> 's app_storage \<Rightarrow> 's app_storage" where
  "run_storage api = fold (storage_step api)"

text \<open>The calls that only commands of the controller and the start of the device make.\<close>

primrec is_command_call :: "storage_call \<Rightarrow> bool" where
  "is_command_call (Save c) = False" | "is_command_call Clear = False" | "is_command_call (Stage c) = True"
| "is_command_call (Promote r n) = True" | "is_command_call Set_triggered = True"
| "is_command_call Clear_triggered = True" | "is_command_call Increment_retry = True"

text \<open>A stored candidate is not older than the active configuration.\<close>

definition versions_ok :: "nvs_view \<Rightarrow> bool" where
  "versions_ok v \<longleftrightarrow> (\<forall>a c. active_version_of v = Some a \<and> candidate_version_of v = Some c \<longrightarrow> a \<le> c)"

lemma version_of_keys:
  "v ACTIVE_VERSION_KEY = w ACTIVE_VERSION_KEY \<Longrightarrow> active_version_of v = active_version_of w"
  "v CANDIDATE_VERSION_KEY = w CANDIDATE_VERSION_KEY \<Longrightarrow> candidate_version_of v = candidate_version_of w"
  "v ACTIVE_VERSION_KEY = None \<Longrightarrow> active_version_of v = None"
  "v CANDIDATE_VERSION_KEY = None \<Longrightarrow> candidate_version_of v = None"
  "v ACTIVE_VERSION_KEY = Some (Nvs_U32 n) \<Longrightarrow> active_version_of v = Some n"
  "v CANDIDATE_VERSION_KEY = Some (Nvs_U32 n) \<Longrightarrow> candidate_version_of v = Some n"
  by (simp_all add: active_version_of_def candidate_version_of_def)

lemma update_versions:
  "upd (save_updates w) v ACTIVE_VERSION_KEY = None"
  "upd (save_updates w) v CANDIDATE_VERSION_KEY = None"
  "upd (candidate_updates c) v ACTIVE_VERSION_KEY = v ACTIVE_VERSION_KEY"
  "upd (candidate_updates c) v CANDIDATE_VERSION_KEY = Some (Nvs_U32 (config_version c))"
  "upd (promote_updates c) v ACTIVE_VERSION_KEY = Some (Nvs_U32 (config_version c))"
  "upd (promote_updates c) v CANDIDATE_VERSION_KEY = None"
  by (simp_all add: update_defs storage_keys)

text \<open>One call: the order of the versions is kept, and only \<open>Save\<close> and \<open>Clear\<close> lower the active one.\<close>

lemma storage_step_versions:
  assumes c: "nvs_contract view api" and ok: "versions_ok (view (nvs st))"
  shows "versions_ok (view (nvs (storage_step api call st))) \<and>
    (is_command_call call \<longrightarrow> (\<forall>a. active_version_of (view (nvs st)) = Some a \<longrightarrow>
       (\<exists>b \<ge> a. active_version_of (view (nvs (storage_step api call st))) = Some b)))"
    (is "?ok (storage_step api call st) \<and> (_ \<longrightarrow> ?up (storage_step api call st))")
proof -
  have same: "?ok st' \<and> (b \<longrightarrow> ?up st')" if "view (nvs st') ACTIVE_VERSION_KEY = view (nvs st) ACTIVE_VERSION_KEY"
      "view (nvs st') CANDIDATE_VERSION_KEY = view (nvs st) CANDIDATE_VERSION_KEY" for st' b
    using ok version_of_keys(1) [where v = "view (nvs st')" and w = "view (nvs st)", OF that(1)]
      version_of_keys(2) [where v = "view (nvs st')" and w = "view (nvs st)", OF that(2)] by (simp add: versions_ok_def)
  show ?thesis
  proof (cases call)
  case (Save given)
  obtain err st' where r: "app_storage_save_wifi_credentials api given st = (err, st')" by fastforce
  from c r have "?ok st'"
  proof (cases rule: save_cases)
    case (saved w)
    note k = saved(3) [rule_format, of ACTIVE_VERSION_KEY] saved(3) [rule_format, of CANDIDATE_VERSION_KEY]
    show ?thesis
      using k ok unfolding update_versions versions_ok_def
      by (metis version_of_keys(1-4) option.distinct(1))
  qed (use ok in simp)
  then show ?thesis using r Save by simp
next
  case Clear
  obtain err st' where r: "app_storage_clear_wifi_credentials api st = (err, st')" by fastforce
  have a: "active_version_of (view (nvs st')) = active_version_of (view (nvs st)) \<or> active_version_of (view (nvs st')) = None"
    using clear_cases [OF c r, of ACTIVE_VERSION_KEY] version_of_keys(1,3) by metis
  have "view (nvs st') CANDIDATE_VERSION_KEY = view (nvs st) CANDIDATE_VERSION_KEY"
    using clear_cases [OF c r, of CANDIDATE_VERSION_KEY] by (simp add: storage_keys)
  then have "?ok st'" using a ok version_of_keys(2) unfolding versions_ok_def by (metis option.distinct(1))
  then show ?thesis using r Clear by simp
next
  case (Stage given)
  obtain err res st' where r: "app_storage_stage_candidate_wifi_config api given st = ((err, res), st')"
    by (metis prod.exhaust)
  from c r have "?ok st' \<and> ?up st'"
  proof (cases rule: stage_cases)
    case (stored cfg)
    note k = stored(4) [rule_format, of ACTIVE_VERSION_KEY] stored(4) [rule_format, of CANDIDATE_VERSION_KEY]
    have a: "active_version_of (view (nvs st')) = active_version_of (view (nvs st))"
      using k(1) update_versions version_of_keys(1) by metis
    have "candidate_version_of (view (nvs st')) = candidate_version_of (view (nvs st)) \<or>
        candidate_version_of (view (nvs st')) = Some (config_version cfg)"
      using k(2) update_versions version_of_keys(2,6) by metis
    then show ?thesis using a ok stored(6) unfolding versions_ok_def by (auto intro: less_imp_le)
  qed (use ok in auto)
  then show ?thesis using r Stage by simp
next
  case (Promote e n)
  obtain err st' where r: "app_storage_promote_candidate_wifi_config api e n st = (err, st')" by fastforce
  from c r have "?ok st' \<and> ?up st'"
  proof (cases rule: promote_cases)
    case (promoted p)
    note k = promoted(5) [rule_format, of ACTIVE_VERSION_KEY] promoted(5) [rule_format, of CANDIDATE_VERSION_KEY]
    have cv: "candidate_version_of (view (nvs st)) = Some (config_version p)"
      using promoted(1) by (intro version_of_keys(6)) (simp add: holds_candidate_def candidate_updates_def storage_keys)
    have a: "active_version_of (view (nvs st')) = active_version_of (view (nvs st)) \<or>
        active_version_of (view (nvs st')) = Some (config_version p)"
      using k(1) update_versions version_of_keys(1,5) by metis
    have b: "candidate_version_of (view (nvs st')) = Some (config_version p) \<or> candidate_version_of (view (nvs st')) = None"
      using k(2) update_versions version_of_keys(2,4) cv by metis
    show ?thesis using a b ok cv unfolding versions_ok_def by auto
  qed (use ok in auto)
  then show ?thesis using r Promote by simp
next
  case Set_triggered
  show ?thesis unfolding Set_triggered storage_step.simps by (intro same marks_keep(1) [OF c]) (simp_all add: storage_keys)
next
  case Clear_triggered
  show ?thesis unfolding Clear_triggered storage_step.simps by (intro same marks_keep(2) [OF c]) (simp_all add: storage_keys)
next
  case Increment_retry
  show ?thesis unfolding Increment_retry storage_step.simps by (intro same marks_keep(3) [OF c]) (simp_all add: storage_keys)
  qed
qed

lemma run_storage_versions:
  assumes "nvs_contract view api" "versions_ok (view (nvs st))"
  shows "versions_ok (view (nvs (run_storage api calls st)))"
  using assms(2) storage_step_versions [OF assms(1)]
  by (induction calls arbitrary: st) (auto simp: run_storage_def)

lemma run_commands_version:
  assumes c: "nvs_contract view api"
  shows "versions_ok (view (nvs st)) \<Longrightarrow> \<forall>call \<in> set calls. is_command_call call \<Longrightarrow>
    active_version_of (view (nvs st)) = Some a \<Longrightarrow>
    \<exists>b \<ge> a. active_version_of (view (nvs (run_storage api calls st))) = Some b"
proof (induction calls arbitrary: st a)
  case (Cons call calls)
  note s = storage_step_versions [OF c Cons.prems(1), of call]
  then obtain b where b: "a \<le> b" "active_version_of (view (nvs (storage_step api call st))) = Some b"
    using Cons.prems by auto
  from Cons.IH [OF s [THEN conjunct1] _ b(2)] Cons.prems(2) b(1) show ?case
    by (auto simp: run_storage_def intro: order_trans)
qed (simp add: run_storage_def)

section \<open>A store for the witnesses\<close>

definition stored_value :: "nvs_value \<Rightarrow> nvs_value" where
  "stored_value v = (case v of Nvs_Str s \<Rightarrow> Nvs_Str (c_str s) | _ \<Rightarrow> v)"

definition map_view :: "nvs_view \<Rightarrow> nvs_view" where
  "map_view m = (\<lambda>k. map_option stored_value (m k))"

text \<open>A store that is a map; \<open>broken\<close> lists the keys whose writes fail.\<close>

definition map_nvs :: "string list \<Rightarrow> nvs_view nvs_api" where
  "map_nvs broken =
     \<lparr>nvs_open = (\<lambda>_ s. (ESP_OK, s)),
      nvs_get_str = (\<lambda>s k n. case map_view s k of
         Some (Nvs_Str v) \<Rightarrow> if length v < n then Inr v else Inl (ESP_ERR_OTHER 0) | _ \<Rightarrow> Inl ESP_ERR_NVS_NOT_FOUND),
      nvs_get_u32 = (\<lambda>s k. case map_view s k of Some (Nvs_U32 v) \<Rightarrow> Inr v | _ \<Rightarrow> Inl ESP_ERR_NVS_NOT_FOUND),
      nvs_get_u8 = (\<lambda>s k. case map_view s k of Some (Nvs_U8 v) \<Rightarrow> Inr v | _ \<Rightarrow> Inl ESP_ERR_NVS_NOT_FOUND),
      nvs_set = (\<lambda>k v s. if k \<in> set broken then (ESP_FAIL, s) else (ESP_OK, s(k \<mapsto> v))),
      nvs_erase_key = (\<lambda>k s. if s k = None then (ESP_ERR_NVS_NOT_FOUND, s) else (ESP_OK, s(k := None))),
      nvs_commit = (\<lambda>s. (ESP_OK, s)), xSemaphoreTake = True\<rparr>"

lemma stored_value_c: "c_value (stored_value v)" "c_value v \<Longrightarrow> stored_value v = v"
  by (auto simp: c_value_def stored_value_def NUL_notin_c_str c_str_noNUL split: nvs_value.split)

lemma map_nvs_contract: "nvs_contract map_view (map_nvs broken)"
  unfolding nvs_contract_def
proof (intro conjI)
  show "nvs_reads map_view (map_nvs broken)"
    unfolding nvs_reads_def
    by (intro conjI allI) (auto simp: map_nvs_def map_view_def stored_value_c split: option.split nvs_value.splits if_split_asm)
  show "\<forall>k v. c_value v \<longrightarrow> performs map_view [(k, Some v)] (nvs_set (map_nvs broken) k v)"
  proof -
    have u: "c_value v \<Longrightarrow> map_view (s(k \<mapsto> v)) = upd [(k, Some v)] (map_view s)" for s k v
      by (rule ext) (simp add: map_view_def stored_value_c)
    show ?thesis by (auto simp: performs_def map_nvs_def u)
  qed
  show "\<forall>k s err s'. nvs_erase_key (map_nvs broken) k s = (err, s') \<longrightarrow>
        (if err = ESP_ERR_NVS_NOT_FOUND then map_view s k = None \<and> map_view s' = map_view s
         else (err = ESP_OK \<longrightarrow> map_view s' = (map_view s)(k := None)) \<and>
           (map_view s' = map_view s \<or> map_view s' = (map_view s)(k := None)))"
    by (auto simp: map_nvs_def map_view_def fun_eq_iff)
qed (auto simp: performs_def map_nvs_def)

definition sample_config :: "string \<Rightarrow> u32 \<Rightarrow> wifi_config" where
  "sample_config r n = \<lparr>credentials = \<lparr>ssid = ''office'', password = ''secret-password''\<rparr>, request_id = r, config_version = n\<rparr>"

definition empty_store :: "nvs_view app_storage" where
  "empty_store = \<lparr>nvs = Map.empty, s_wifi_config_mutex = True\<rparr>"

lemma empty_versions_ok: "versions_ok (map_view (nvs empty_store))"
  by (simp add: versions_ok_def active_version_of_def map_view_def empty_store_def)

section \<open>Properties\<close>

text \<open>Reading the current credentials.\<close>

lemma load_current:
  assumes c: "nvs_contract view api" and v: "validate_wifi_credentials (Some w) = ESP_OK"
    and i: "view (nvs st) SSID_KEY = Some (Nvs_Str (c_str (ssid w)))"
    and p: "view (nvs st) PASSWORD_KEY = Some (Nvs_Str (c_str (password w)))"
    and o: "nvs_open api False (nvs st) = (ESP_OK, s)"
  shows "app_storage_load_wifi_credentials api st =
    (Inr \<lparr>ssid = c_str (ssid w), password = c_str (password w)\<rparr>, st\<lparr>nvs := s\<rparr>)"
proof -
  have l: "length (c_str (ssid w)) < APP_STORAGE_WIFI_SSID_SIZE" "length (c_str (password w)) < APP_STORAGE_WIFI_PASSWORD_SIZE"
    using v c_strnlen_less [of "ssid w"] c_strnlen_less [of "password w"]
    by (auto simp: validate_wifi_credentials_def Let_def not_le split: if_split_asm)
  have n: "c_strnlen (c_str x) m = c_strnlen x m" if "length (c_str x) < m" for x m
  proof -
    have "c_strnlen (c_str x) m = length (c_str x)"
      using that by (simp add: c_strnlen_def c_str_def takeWhile_idem [unfolded comp_def])
    moreover have "c_strnlen x m = length (c_str x)"
      using that
    proof (induction x arbitrary: m)
      case (Cons a x)
      then show ?case by (cases m) (auto simp: c_strnlen_def c_str_def split: if_split_asm)
    qed (simp add: c_strnlen_def c_str_def)
    ultimately show ?thesis by simp
  qed
  have "validate_wifi_credentials (Some \<lparr>ssid = c_str (ssid w), password = c_str (password w)\<rparr>) = ESP_OK"
    using v by (simp add: validate_wifi_credentials_def n l)
  then show ?thesis
    using get_str_stored [OF c, of s SSID_KEY, OF _ l(1)] get_str_stored [OF c, of s PASSWORD_KEY, OF _ l(2)] i p open_view [OF c o]
    unfolding app_storage_load_wifi_credentials_def o read_credentials_def by (simp add: Let_def)
qed

text \<open>
  C29: staging a configuration never changes what the device uses. Whatever NVS answers, only the keys
  of the candidate can change; an answer other than STORED means that nothing changed at all; and STORED without an error means
  that the candidate is now exactly the staged configuration and that its version is above the active one.
\<close>

theorem stage_keeps_current:
  assumes "nvs_contract view api"
    and "app_storage_stage_candidate_wifi_config api config st = ((err, res), st')"
  shows "(\<forall>k. k \<notin> {CANDIDATE_SSID_KEY, CANDIDATE_PASSWORD_KEY, CANDIDATE_REQUEST_ID_KEY, CANDIDATE_VERSION_KEY} \<longrightarrow>
      view (nvs st') k = view (nvs st) k) \<and>
    (res \<noteq> APP_STORAGE_WIFI_STAGE_STORED \<longrightarrow> err = ESP_OK \<and> view (nvs st') = view (nvs st)) \<and>
    (err = ESP_OK \<and> res = APP_STORAGE_WIFI_STAGE_STORED \<longrightarrow>
      (\<exists>c. config = Some c \<and> holds_candidate (view (nvs st')) c \<and>
        (\<forall>n. active_version_of (view (nvs st)) = Some n \<longrightarrow> n < config_version c)))"
  using assms
proof (cases rule: stage_cases)
  case (stored cfg)
  have "view (nvs st') k = view (nvs st) k"
    if "k \<notin> {CANDIDATE_SSID_KEY, CANDIDATE_PASSWORD_KEY, CANDIDATE_REQUEST_ID_KEY, CANDIDATE_VERSION_KEY}" for k
    using stored(4) [rule_format, of k] that by (simp add: candidate_updates_def)
  moreover have "holds_candidate (view (nvs st')) cfg" if "err = ESP_OK"
    unfolding stored(5) [OF that] by (simp add: holds_candidate_def candidate_updates_def storage_keys)
  ultimately show ?thesis using stored by auto
qed auto

text \<open>
  C30: what is staged is what a promotion installs. If a configuration is stored as the candidate and then promoted by its
  request id and version, both without an error, then the device loads exactly the staged credentials, the active version is
  the staged one and no candidate remains.
\<close>

theorem stage_promote_load:
  assumes c: "nvs_contract view api"
    and s: "app_storage_stage_candidate_wifi_config api (Some cfg) st = ((ESP_OK, APP_STORAGE_WIFI_STAGE_STORED), st1)"
    and p: "app_storage_promote_candidate_wifi_config api (Some r) n st1 = (ESP_OK, st2)"
    and o: "nvs_open api False (nvs st2) = (ESP_OK, s2)"
  shows "r = c_str (request_id cfg) \<and> n = config_version cfg \<and>
    fst (app_storage_load_wifi_credentials api st2) =
      Inr \<lparr>ssid = c_str (ssid (credentials cfg)), password = c_str (password (credentials cfg))\<rparr> \<and>
    active_version_of (view (nvs st2)) = Some (config_version cfg) \<and>
    load_candidate_from_handle api s2 = Inl ESP_ERR_NOT_FOUND"
proof -
  have v1: "view (nvs st1) = upd (candidate_updates cfg) (view (nvs st))" and ok: "validate_wifi_config (Some cfg) = ESP_OK"
    using c s by (cases rule: stage_cases; simp)+
  from c p show ?thesis
  proof (cases rule: promote_cases)
    case (promoted q)
    have q: "config_version q = config_version cfg" "request_id q = c_str (request_id cfg)"
        "c_str (ssid (credentials q)) = c_str (ssid (credentials cfg))"
        "c_str (password (credentials q)) = c_str (password (credentials cfg))" "r = request_id q" "n = config_version q"
      using promoted(1,3,4) by (simp_all add: holds_candidate_def v1 candidate_updates_def storage_keys)
    have v2: "view (nvs st2) = upd (promote_updates q) (view (nvs st1))" using promoted(6) by simp
    have "validate_wifi_credentials (Some (credentials cfg)) = ESP_OK"
      using ok by (auto simp: validate_wifi_config_def Let_def split: if_split_asm)
    from load_current [OF c this _ _ o] have "fst (app_storage_load_wifi_credentials api st2) =
        Inr \<lparr>ssid = c_str (ssid (credentials cfg)), password = c_str (password (credentials cfg))\<rparr>"
      by (simp add: v2 promote_updates_def credential_updates_def q storage_keys)
    moreover have "active_version_of (view (nvs st2)) = Some (config_version cfg)"
      by (intro version_of_keys) (simp add: v2 update_versions q)
    moreover have "view s2 CANDIDATE_SSID_KEY = None"
      by (simp add: open_view [OF c o] v2 update_defs storage_keys)
    ultimately show ?thesis
      using q get_missing(1) [OF c, of s2 CANDIDATE_SSID_KEY] by (simp add: load_candidate_from_handle_def read_candidate_def)
  qed simp
qed

text \<open>
  C31: no command rolls the device back. Starting with an empty store (or any store whose candidate is not older), after any calls with any results of the NVS library, a
  run of further commands (staging, promoting, recovery marks) never lowers the active version; only provisioning on the portal or
  clearing the credentials ends a version.
\<close>

theorem active_version_never_decreases:
  assumes "nvs_contract view api" "versions_ok (view (nvs st0))" "st = run_storage api history st0"
    "\<forall>call \<in> set calls. is_command_call call" "active_version_of (view (nvs st)) = Some a"
  shows "\<exists>b \<ge> a. active_version_of (view (nvs (run_storage api calls st))) = Some b"
  using run_commands_version [OF assms(1) _ assms(4,5)] run_storage_versions [OF assms(1,2)] assms(3) by simp

text \<open>
  C32: credentials saved by the portal are the credentials the next start loads, and they replace everything:
  no key of a candidate is left, both keys of the metadata and both recovery marks are gone, and no other key changes.
\<close>

theorem save_load_credentials:
  assumes c: "nvs_contract view api"
    and s: "app_storage_save_wifi_credentials api (Some w) st = (ESP_OK, st1)"
    and o: "nvs_open api False (nvs st1) = (ESP_OK, s1)"
  shows "fst (app_storage_load_wifi_credentials api st1) = Inr \<lparr>ssid = c_str (ssid w), password = c_str (password w)\<rparr> \<and>
    load_candidate_from_handle api s1 = Inl ESP_ERR_NOT_FOUND \<and>
    (\<forall>k \<in> {CANDIDATE_SSID_KEY, CANDIDATE_PASSWORD_KEY, CANDIDATE_REQUEST_ID_KEY, CANDIDATE_VERSION_KEY, ACTIVE_REQUEST_ID_KEY,
        ACTIVE_VERSION_KEY, RECOVERY_TRIGGERED_KEY, RECOVERY_RETRY_KEY}. view (nvs st1) k = None) \<and>
    (\<forall>k. k \<notin> {SSID_KEY, PASSWORD_KEY, CANDIDATE_SSID_KEY, CANDIDATE_PASSWORD_KEY, CANDIDATE_REQUEST_ID_KEY, CANDIDATE_VERSION_KEY,
        ACTIVE_REQUEST_ID_KEY, ACTIVE_VERSION_KEY, RECOVERY_TRIGGERED_KEY, RECOVERY_RETRY_KEY} \<longrightarrow>
      view (nvs st1) k = view (nvs st) k)"
  using c s
proof (cases rule: save_cases)
  case (saved x)
  have x: "x = w" "validate_wifi_credentials (Some w) = ESP_OK" using saved(1,2) by simp_all
  have v: "view (nvs st1) = upd (save_updates w) (view (nvs st))" using saved(4) x by simp
  from load_current [OF c x(2) _ _ o]
  have "fst (app_storage_load_wifi_credentials api st1) = Inr \<lparr>ssid = c_str (ssid w), password = c_str (password w)\<rparr>"
    by (simp add: v save_updates_def credential_updates_def storage_keys)
  moreover have "view s1 CANDIDATE_SSID_KEY = None" by (simp add: open_view [OF c o] v update_defs storage_keys)
  moreover have "\<forall>k \<in> {CANDIDATE_SSID_KEY, CANDIDATE_PASSWORD_KEY, CANDIDATE_REQUEST_ID_KEY, CANDIDATE_VERSION_KEY, ACTIVE_REQUEST_ID_KEY,
      ACTIVE_VERSION_KEY, RECOVERY_TRIGGERED_KEY, RECOVERY_RETRY_KEY}. view (nvs st1) k = None"
    by (simp add: v update_defs storage_keys)
  moreover have "\<forall>k. k \<notin> {SSID_KEY, PASSWORD_KEY, CANDIDATE_SSID_KEY, CANDIDATE_PASSWORD_KEY, CANDIDATE_REQUEST_ID_KEY, CANDIDATE_VERSION_KEY,
      ACTIVE_REQUEST_ID_KEY, ACTIVE_VERSION_KEY, RECOVERY_TRIGGERED_KEY, RECOVERY_RETRY_KEY} \<longrightarrow> view (nvs st1) k = view (nvs st) k"
    by (auto simp: v update_defs upd_def)
  ultimately show ?thesis
    using get_missing(1) [OF c, of s1 CANDIDATE_SSID_KEY]
    by (simp add: load_candidate_from_handle_def read_candidate_def)
qed simp

text \<open>
  C33: a candidate of which only the first key was written blocks every later command. If the SSID of the candidate is
  stored and its password is not, staging any configuration fails with ESP_ERR_INVALID_STATE and changes nothing, and the
  state report fails as well.
\<close>

theorem partial_candidate_blocks_staging:
  assumes c: "nvs_contract view api" and m: "lock_wifi_config api st = ESP_OK"
    and o: "\<forall>w. fst (nvs_open api w (nvs st)) = ESP_OK"
    and i: "view (nvs st) CANDIDATE_SSID_KEY = Some (Nvs_Str i)" "length i < APP_STORAGE_WIFI_SSID_SIZE"
    and p: "view (nvs st) CANDIDATE_PASSWORD_KEY = None"
    and valid: "validate_wifi_config (Some cfg) = ESP_OK"
  shows "(\<exists>st'. app_storage_stage_candidate_wifi_config api (Some cfg) st =
      ((ESP_ERR_INVALID_STATE, APP_STORAGE_WIFI_STAGE_STORED), st') \<and> view (nvs st') = view (nvs st)) \<and>
    (\<exists>err st'. app_storage_load_wifi_config_status api st = (Inl err, st') \<and> view (nvs st') = view (nvs st))"
proof -
  have l: "load_candidate_from_handle api s = Inl ESP_ERR_INVALID_STATE" if "view s = view (nvs st)" for s
    using get_str_stored [OF c, of s CANDIDATE_SSID_KEY i] get_missing(1) [OF c, of s CANDIDATE_PASSWORD_KEY] i p that
    by (simp add: load_candidate_from_handle_def read_candidate_def)
  obtain s where s: "nvs_open api True (nvs st) = (ESP_OK, s)" using o by (metis prod.collapse)
  obtain s' where s': "nvs_open api False (nvs st) = (ESP_OK, s')" using o by (metis prod.collapse)
  have "app_storage_stage_candidate_wifi_config api (Some cfg) st =
      ((ESP_ERR_INVALID_STATE, APP_STORAGE_WIFI_STAGE_STORED), st\<lparr>nvs := s\<rparr>)"
    unfolding app_storage_stage_candidate_wifi_config_def Let_def
    by (simp add: valid m s l [OF open_view [OF c s]])
  moreover have "\<exists>err. app_storage_load_wifi_config_status api st = (Inl err, st\<lparr>nvs := s'\<rparr>)"
    unfolding app_storage_load_wifi_config_status_def Let_def
    by (simp add: m s' l [OF open_view [OF c s']] split: sum.split)
  ultimately show ?thesis using open_view [OF c s] open_view [OF c s'] by (metis app_storage.select_convs(1) app_storage.surjective app_storage.update_convs(1))
qed

section \<open>Witnesses\<close>

lemma map_nvs_simps [simp]:
  "nvs_open (map_nvs broken) w s = (ESP_OK, s)"
  "nvs_commit (map_nvs broken) s = (ESP_OK, s)"
  "nvs_set (map_nvs broken) k v s = (if k \<in> set broken then (ESP_FAIL, s) else (ESP_OK, s(k \<mapsto> v)))"
  "nvs_erase_key (map_nvs broken) k s = (if s k = None then (ESP_ERR_NVS_NOT_FOUND, s) else (ESP_OK, s(k := None)))"
  "xSemaphoreTake (map_nvs broken)"
  by (simp_all add: map_nvs_def)

lemma key_neq [simp]:
  "SSID_KEY \<noteq> PASSWORD_KEY" "CANDIDATE_SSID_KEY \<noteq> CANDIDATE_PASSWORD_KEY" "CANDIDATE_PASSWORD_KEY \<noteq> CANDIDATE_SSID_KEY"
  "CANDIDATE_SSID_KEY \<noteq> CANDIDATE_REQUEST_ID_KEY" "CANDIDATE_SSID_KEY \<noteq> CANDIDATE_VERSION_KEY"
  "CANDIDATE_PASSWORD_KEY \<noteq> CANDIDATE_REQUEST_ID_KEY" "CANDIDATE_PASSWORD_KEY \<noteq> CANDIDATE_VERSION_KEY"
  "CANDIDATE_REQUEST_ID_KEY \<noteq> CANDIDATE_VERSION_KEY"
  by (simp_all add: storage_keys)

lemma sample_valid: "n \<noteq> 0 \<Longrightarrow> validate_wifi_config (Some (sample_config ''r1'' n)) = ESP_OK"
  by (simp add: validate_wifi_config_def validate_wifi_credentials_def sample_config_def c_strnlen_def NUL_char
      APP_STORAGE_WIFI_SSID_SIZE_def APP_STORAGE_WIFI_PASSWORD_SIZE_def APP_STORAGE_WIFI_REQUEST_ID_SIZE_def)

lemma sample_c_str: "c_str ''r1'' = ''r1''" "c_str ''office'' = ''office''" "c_str ''secret-password'' = ''secret-password''"
  by (simp_all add: c_str_def NUL_char)

lemma lock_map_nvs: "s_wifi_config_mutex st \<Longrightarrow> lock_wifi_config (map_nvs broken) st = ESP_OK"
  by (simp add: lock_wifi_config_def)

definition staged_store :: "u32 \<Rightarrow> nvs_view app_storage" where
  "staged_store n =
     \<lparr>nvs = [CANDIDATE_SSID_KEY \<mapsto> Nvs_Str ''office'', CANDIDATE_PASSWORD_KEY \<mapsto> Nvs_Str ''secret-password'',
        CANDIDATE_REQUEST_ID_KEY \<mapsto> Nvs_Str ''r1'', CANDIDATE_VERSION_KEY \<mapsto> Nvs_U32 n], s_wifi_config_mutex = True\<rparr>"

lemma sample_empty: "load_candidate_from_handle (map_nvs broken) Map.empty = Inl ESP_ERR_NOT_FOUND"
    "load_metadata_pair (map_nvs broken) ACTIVE_REQUEST_ID_KEY ACTIVE_VERSION_KEY APP_STORAGE_WIFI_REQUEST_ID_SIZE Map.empty = Inr None"
  by (simp_all add: load_candidate_from_handle_def read_candidate_def load_metadata_pair_def map_nvs_def map_view_def
      APP_STORAGE_WIFI_REQUEST_ID_SIZE_def)

lemma sample_stage:
  assumes "n \<noteq> 0"
  shows "app_storage_stage_candidate_wifi_config (map_nvs []) (Some (sample_config ''r1'' n)) empty_store =
    ((ESP_OK, APP_STORAGE_WIFI_STAGE_STORED), staged_store n)"
  unfolding app_storage_stage_candidate_wifi_config_def Let_def sample_valid [OF assms]
  using assms
  by (simp add: lock_map_nvs empty_store_def sample_empty stage_decision_def candidate_writes_def if_ok_def
      staged_store_def sample_config_def sample_c_str)

lemma sample_candidate: "n \<noteq> 0 \<Longrightarrow> load_candidate_from_handle (map_nvs []) (nvs (staged_store n)) = Inr (sample_config ''r1'' n)"
  by (rule load_candidate_stored [OF map_nvs_contract _ sample_valid])
     (simp_all add: sample_config_def sample_c_str holds_candidate_def candidate_updates_def map_view_def staged_store_def
       stored_value_def storage_keys)

definition promoted_nvs :: "u32 \<Rightarrow> nvs_view" where
  "promoted_nvs n = snd (promote_writes (map_nvs []) (sample_config ''r1'' n) (nvs (staged_store n)))"

lemma erase_map_nvs: "erase_key_if_present (map_nvs broken) k s = (ESP_OK, s(k := None))"
  by (auto simp: erase_key_if_present_def fun_upd_idem)

lemma sample_promote_writes: "promote_writes (map_nvs []) c s = (ESP_OK, snd (promote_writes (map_nvs []) c s))"
  by (simp add: promote_writes_def erase_candidate_from_handle_def if_ok_def erase_map_nvs)

lemma sample_promote:
  assumes "n \<noteq> 0"
  shows "app_storage_promote_candidate_wifi_config (map_nvs []) (Some ''r1'') n (staged_store n) =
    (ESP_OK, (staged_store n)\<lparr>nvs := promoted_nvs n\<rparr>)"
proof -
  have w: "promote_writes (map_nvs []) (sample_config ''r1'' n) (nvs (staged_store n)) = (ESP_OK, promoted_nvs n)"
    using sample_promote_writes unfolding promoted_nvs_def .
  have m: "s_wifi_config_mutex (staged_store n)" by (simp add: staged_store_def)
  have c: "config_version (sample_config ''r1'' n) = n" "c_str (request_id (sample_config ''r1'' n)) = ''r1''"
    by (simp_all add: sample_config_def sample_c_str)
  show ?thesis
    using assms unfolding app_storage_promote_candidate_wifi_config_def
    by (simp add: lock_map_nvs [OF m] sample_candidate [OF assms] w c Let_def)
qed

lemma stage_keeps_current_witness:
  "(\<exists>c. Some (sample_config ''r1'' 3) = Some c \<and> holds_candidate (map_view (nvs (staged_store 3))) c)"
  using stage_keeps_current [OF map_nvs_contract sample_stage [of 3]] by auto

lemma stage_promote_load_witness:
  "fst (app_storage_load_wifi_credentials (map_nvs []) ((staged_store 3)\<lparr>nvs := promoted_nvs 3\<rparr>)) =
    Inr \<lparr>ssid = ''office'', password = ''secret-password''\<rparr>"
proof -
  have o: "nvs_open (map_nvs []) False (nvs ((staged_store 3)\<lparr>nvs := promoted_nvs 3\<rparr>)) = (ESP_OK, promoted_nvs 3)" by simp
  show ?thesis
    using stage_promote_load [OF map_nvs_contract sample_stage [of 3] sample_promote [of 3] o]
    by (simp add: sample_config_def sample_c_str)
qed

lemma active_version_never_decreases_witness:
  "\<exists>b \<ge> 3. active_version_of (map_view (nvs (run_storage (map_nvs []) [Stage (Some (sample_config ''r1'' 2)), Set_triggered]
     ((staged_store 3)\<lparr>nvs := promoted_nvs 3\<rparr>)))) = Some b"
proof -
  have r: "(staged_store 3)\<lparr>nvs := promoted_nvs 3\<rparr> =
      run_storage (map_nvs []) [Stage (Some (sample_config ''r1'' 3)), Promote (Some ''r1'') 3] empty_store"
    by (simp add: run_storage_def sample_stage sample_promote)
  have a: "active_version_of (map_view (nvs ((staged_store 3)\<lparr>nvs := promoted_nvs 3\<rparr>))) = Some 3"
    by (intro version_of_keys)
       (simp add: promoted_nvs_def promote_writes_def erase_candidate_from_handle_def if_ok_def erase_map_nvs map_view_def
         stored_value_def storage_keys sample_config_def)
  show ?thesis
    by (rule active_version_never_decreases [where view = map_view, OF map_nvs_contract empty_versions_ok r _ a]) simp
qed

lemma save_load_credentials_witness:
  "\<exists>st1. app_storage_save_wifi_credentials (map_nvs []) (Some (credentials (sample_config ''r1'' 1))) empty_store = (ESP_OK, st1) \<and>
     fst (app_storage_load_wifi_credentials (map_nvs []) st1) = Inr \<lparr>ssid = ''office'', password = ''secret-password''\<rparr>"
proof -
  have v: "validate_wifi_credentials (Some (credentials (sample_config ''r1'' 1))) = ESP_OK"
    using sample_valid [of 1] by (simp add: validate_wifi_config_def Let_def split: if_split_asm)
  define s1 where "s1 = snd (save_writes (map_nvs []) (credentials (sample_config ''r1'' 1)) Map.empty)"
  have w: "save_writes (map_nvs []) (credentials (sample_config ''r1'' 1)) Map.empty = (ESP_OK, s1)"
    unfolding s1_def by (simp add: save_writes_def erase_candidate_from_handle_def if_ok_def erase_map_nvs)
  have s: "app_storage_save_wifi_credentials (map_nvs []) (Some (credentials (sample_config ''r1'' 1))) empty_store =
      (ESP_OK, empty_store\<lparr>nvs := s1\<rparr>)"
    unfolding app_storage_save_wifi_credentials_def Let_def v by (simp add: lock_map_nvs empty_store_def w)
  show ?thesis
    using save_load_credentials [OF map_nvs_contract s, of s1] s by (auto simp: sample_config_def sample_c_str)
qed

text \<open>The state arises from one write error: the password of the first staged configuration is not written.\<close>

lemma partial_candidate_blocks_staging_witness:
  "\<exists>st1. app_storage_stage_candidate_wifi_config (map_nvs [CANDIDATE_PASSWORD_KEY]) (Some (sample_config ''r1'' 3)) empty_store =
      ((ESP_FAIL, APP_STORAGE_WIFI_STAGE_STORED), st1) \<and>
    fst (app_storage_stage_candidate_wifi_config (map_nvs []) (Some (sample_config ''r1'' 4)) st1) =
      (ESP_ERR_INVALID_STATE, APP_STORAGE_WIFI_STAGE_STORED)"
proof -
  define st1 :: "nvs_view app_storage" where
    "st1 = \<lparr>nvs = [CANDIDATE_SSID_KEY \<mapsto> Nvs_Str ''office''], s_wifi_config_mutex = True\<rparr>"
  have s: "app_storage_stage_candidate_wifi_config (map_nvs [CANDIDATE_PASSWORD_KEY]) (Some (sample_config ''r1'' 3)) empty_store =
      ((ESP_FAIL, APP_STORAGE_WIFI_STAGE_STORED), st1)"
    unfolding app_storage_stage_candidate_wifi_config_def Let_def sample_valid [of 3, simplified]
    by (simp add: lock_map_nvs empty_store_def sample_empty stage_decision_def candidate_writes_def if_ok_def
        st1_def sample_config_def sample_c_str)
  have "map_view (nvs st1) CANDIDATE_SSID_KEY = Some (Nvs_Str ''office'')" "map_view (nvs st1) CANDIDATE_PASSWORD_KEY = None"
    by (simp_all add: st1_def map_view_def stored_value_def sample_c_str)
  then show ?thesis
    using s partial_candidate_blocks_staging [OF map_nvs_contract, of "[]" st1 "''office''" "sample_config ''r1'' 4"] sample_valid [of 4]
    by (auto simp: lock_map_nvs st1_def APP_STORAGE_WIFI_SSID_SIZE_def)
qed

end
