(* ===== verification/App_Command.thy ===== *)
theory App_Command
  imports Prelude Complex_Main
begin

text \<open>
  Parsing of MQTT commands, components/app\_command/app\_command.c. The last level of the topic names the command; the
  fields of most commands are found by searching the payload for their name, without a JSON parser; the
  stage-wifi-config command is parsed with cJSON.

  cJSON is a parameter (\<open>cjson_api\<close>; \<open>'j\<close> are its items). A number of cJSON is a double: a
  rational, or an infinity. A topic or payload is the list of its characters (\<open>None\<close> is the null pointer), its length argument
  the length of the list. As in the code the request is filled step by step and is returned also when parsing fails.
\<close>

definition COMMAND_PAYLOAD_BUFFER_SIZE :: nat where "COMMAND_PAYLOAD_BUFFER_SIZE = 2048"
definition COMMAND_TOPIC_BUFFER_SIZE :: nat where "COMMAND_TOPIC_BUFFER_SIZE = 128"
definition APP_COMMAND_REQUEST_ID_SIZE :: nat where "APP_COMMAND_REQUEST_ID_SIZE = 64"
definition APP_COMMAND_TYPE_SIZE :: nat where "APP_COMMAND_TYPE_SIZE = 32"
definition APP_COMMAND_MAC_SIZE :: nat where "APP_COMMAND_MAC_SIZE = 18"
definition APP_COMMAND_TTL_SECONDS_MIN :: int where "APP_COMMAND_TTL_SECONDS_MIN = 1"
definition APP_COMMAND_TTL_SECONDS_MAX :: int where "APP_COMMAND_TTL_SECONDS_MAX = 86400"
definition APP_COMMAND_DESTINATION_IP_SIZE :: nat where "APP_COMMAND_DESTINATION_IP_SIZE = 46"
definition APP_COMMAND_SNI_SIZE :: nat where "APP_COMMAND_SNI_SIZE = 256"
definition APP_COMMAND_DEVICE_CODE_SIZE :: nat where "APP_COMMAND_DEVICE_CODE_SIZE = 64"
definition APP_COMMAND_WIFI_SSID_SIZE :: nat where "APP_COMMAND_WIFI_SSID_SIZE = 33"
definition APP_COMMAND_WIFI_PASSWORD_SIZE :: nat where "APP_COMMAND_WIFI_PASSWORD_SIZE = 64"

lemmas command_sizes = COMMAND_PAYLOAD_BUFFER_SIZE_def COMMAND_TOPIC_BUFFER_SIZE_def APP_COMMAND_REQUEST_ID_SIZE_def
  APP_COMMAND_TYPE_SIZE_def APP_COMMAND_MAC_SIZE_def APP_COMMAND_TTL_SECONDS_MIN_def APP_COMMAND_TTL_SECONDS_MAX_def
  APP_COMMAND_DESTINATION_IP_SIZE_def APP_COMMAND_SNI_SIZE_def APP_COMMAND_DEVICE_CODE_SIZE_def
  APP_COMMAND_WIFI_SSID_SIZE_def APP_COMMAND_WIFI_PASSWORD_SIZE_def

datatype app_command_type =
    APP_COMMAND_TYPE_UNKNOWN
  | APP_COMMAND_TYPE_ALLOW
  | APP_COMMAND_TYPE_REVOKE_ACCESS
  | APP_COMMAND_TYPE_KICK
  | APP_COMMAND_TYPE_DISCONNECT_MAC
  | APP_COMMAND_TYPE_BLOCK_TRAFFIC
  | APP_COMMAND_TYPE_STAGE_WIFI_CONFIG
  | APP_COMMAND_TYPE_PING
  | APP_COMMAND_TYPE_GET_STATUS

record app_command_request =
  req_request_id :: string
  req_type :: app_command_type
  req_mac :: string
  req_dst_ip :: string
  req_sni :: string
  req_device_code :: string
  req_wifi_ssid :: string
  req_wifi_password :: string
  req_wifi_config_version :: u32
  req_alert_id :: int
  req_session_id :: int
  req_ttl_seconds :: int

definition empty_request :: app_command_request where
  "empty_request =
     \<lparr>req_request_id = [], req_type = APP_COMMAND_TYPE_UNKNOWN, req_mac = [], req_dst_ip = [], req_sni = [],
      req_device_code = [], req_wifi_ssid = [], req_wifi_password = [], req_wifi_config_version = 0, req_alert_id = 0,
      req_session_id = 0, req_ttl_seconds = 0\<rparr>"

fun app_command_type_to_string :: "app_command_type \<Rightarrow> string" where
  "app_command_type_to_string APP_COMMAND_TYPE_PING = ''PING''"
| "app_command_type_to_string APP_COMMAND_TYPE_ALLOW = ''ALLOW''"
| "app_command_type_to_string APP_COMMAND_TYPE_REVOKE_ACCESS = ''REVOKE_ACCESS''"
| "app_command_type_to_string APP_COMMAND_TYPE_KICK = ''KICK''"
| "app_command_type_to_string APP_COMMAND_TYPE_DISCONNECT_MAC = ''DISCONNECT_MAC''"
| "app_command_type_to_string APP_COMMAND_TYPE_BLOCK_TRAFFIC = ''BLOCK_TRAFFIC''"
| "app_command_type_to_string APP_COMMAND_TYPE_STAGE_WIFI_CONFIG = ''STAGE_WIFI_CONFIG''"
| "app_command_type_to_string APP_COMMAND_TYPE_GET_STATUS = ''GET_STATUS''"
| "app_command_type_to_string APP_COMMAND_TYPE_UNKNOWN = ''UNKNOWN''"

section \<open>The topic\<close>

text \<open>\<open>strrchr\<close>: what follows the last occurrence of a character.\<close>

definition after_last :: "char \<Rightarrow> string \<Rightarrow> string option" where
  "after_last c s = (if c \<in> set s then Some (rev (takeWhile (\<lambda>x. x \<noteq> c) (rev s))) else None)"

definition command_of_name :: "string \<Rightarrow> esp_err + app_command_type" where
  "command_of_name name =
     (if name = ''allow'' then Inr APP_COMMAND_TYPE_ALLOW
      else if name = ''revoke-access'' then Inr APP_COMMAND_TYPE_REVOKE_ACCESS
      else if name = ''kick'' then Inr APP_COMMAND_TYPE_KICK
      else if name = ''disconnect-mac'' then Inr APP_COMMAND_TYPE_DISCONNECT_MAC
      else if name = ''block-traffic'' then Inr APP_COMMAND_TYPE_BLOCK_TRAFFIC
      else if name = ''stage-wifi-config'' then Inr APP_COMMAND_TYPE_STAGE_WIFI_CONFIG
      else Inl ESP_ERR_NOT_FOUND)"

definition read_command_type_from_topic :: "string option \<Rightarrow> esp_err + app_command_type" where
  "read_command_type_from_topic topic =
     (case topic of
        None \<Rightarrow> Inl ESP_ERR_INVALID_ARG
      | Some t \<Rightarrow>
          if t = [] then Inl ESP_ERR_INVALID_ARG
          else if length t \<ge> COMMAND_TOPIC_BUFFER_SIZE then Inl ESP_ERR_NO_MEM
          else (case after_last (CHR ''/'') (c_str t) of
                  None \<Rightarrow> Inl ESP_ERR_NOT_FOUND
                | Some name \<Rightarrow> if name = [] then Inl ESP_ERR_NOT_FOUND else command_of_name name))"

section \<open>Fields of the payload\<close>

text \<open>\<open>strstr\<close>: the text after the first occurrence of a pattern.\<close>

fun after_first :: "string \<Rightarrow> string \<Rightarrow> string option" where
  "after_first p s =
     (if take (length p) s = p then Some (drop (length p) s)
      else case s of [] \<Rightarrow> None | _ # t \<Rightarrow> after_first p t)"

declare after_first.simps [simp del]

definition field_pattern :: "string \<Rightarrow> string \<Rightarrow> string" where
  "field_pattern key tail = CHR 0x22 # key @ CHR 0x22 # tail"

definition read_json_string_field :: "string \<Rightarrow> string \<Rightarrow> nat \<Rightarrow> esp_err + string" where
  "read_json_string_field json key out_size =
     (if out_size = 0 then Inl ESP_ERR_INVALID_ARG
      else (let pattern = field_pattern key [CHR '':'', CHR 0x22] in
            if length pattern \<ge> 64 then Inl ESP_ERR_NO_MEM
            else case after_first pattern json of
                   None \<Rightarrow> Inl ESP_ERR_NOT_FOUND
                 | Some start \<Rightarrow>
                     if CHR 0x22 \<notin> set start then Inl ESP_ERR_INVALID_ARG
                     else (let value = takeWhile (\<lambda>c. c \<noteq> CHR 0x22) start in
                           if length value \<ge> out_size then Inl ESP_ERR_NO_MEM else Inr value)))"

text \<open>\<open>strtoll\<close> with base 10: the number, \<open>Inl True\<close> when it is out of range and \<open>Inl False\<close> when there are no digits.\<close>

definition c_isspace :: "char \<Rightarrow> bool" where
  "c_isspace c \<longleftrightarrow> char_code c = 32 \<or> 9 \<le> char_code c \<and> char_code c \<le> 13"

definition c_isdigit :: "char \<Rightarrow> bool" where
  "c_isdigit c \<longleftrightarrow> 48 \<le> char_code c \<and> char_code c \<le> 57"

definition digits_value :: "string \<Rightarrow> int" where
  "digits_value ds = foldl (\<lambda>n c. 10 * n + int (char_code c) - 48) 0 ds"

definition strtoll :: "string \<Rightarrow> bool + int" where
  "strtoll s =
     (let t = dropWhile c_isspace s;
          negative = (t \<noteq> [] \<and> hd t = CHR ''-'');
          t = (if t \<noteq> [] \<and> (hd t = CHR ''-'' \<or> hd t = CHR ''+'') then tl t else t);
          ds = takeWhile c_isdigit t;
          n = (if negative then - digits_value ds else digits_value ds)
      in if ds = [] then Inl False else if n < - (2 ^ 63) \<or> n \<ge> 2 ^ 63 then Inl True else Inr n)"

definition read_json_int64_field :: "string \<Rightarrow> string \<Rightarrow> esp_err + int" where
  "read_json_int64_field json key =
     (let pattern = field_pattern key [CHR '':''] in
      if length pattern \<ge> 64 then Inl ESP_ERR_NO_MEM
      else case after_first pattern json of
             None \<Rightarrow> Inl ESP_ERR_NOT_FOUND
           | Some start \<Rightarrow> (case strtoll start of Inl _ \<Rightarrow> Inl ESP_ERR_INVALID_ARG | Inr n \<Rightarrow> Inr n))"

text \<open>A field is cleared first; it holds the value only if reading it succeeds.\<close>

type_synonym fill = "app_command_request \<Rightarrow> esp_err \<times> app_command_request"

definition fill_string :: "(string \<Rightarrow> app_command_request \<Rightarrow> app_command_request) \<Rightarrow> esp_err + string \<Rightarrow> fill" where
  "fill_string store r req = (case r of Inl err \<Rightarrow> (err, store [] req) | Inr s \<Rightarrow> (ESP_OK, store s req))"

definition fill_int :: "(int \<Rightarrow> app_command_request \<Rightarrow> app_command_request) \<Rightarrow> esp_err + int \<Rightarrow> fill" where
  "fill_int store r req = (case r of Inl err \<Rightarrow> (err, store 0 req) | Inr n \<Rightarrow> (ESP_OK, store n req))"

text \<open>A check of a value that was read, and an optional field.\<close>

definition check :: "(app_command_request \<Rightarrow> bool) \<Rightarrow> fill" where
  "check ok req = (if ok req then ESP_OK else ESP_ERR_INVALID_ARG, req)"

definition optional :: "fill \<Rightarrow> fill" where
  "optional f req = (case f req of (err, req) \<Rightarrow> (if err = ESP_ERR_NOT_FOUND then ESP_OK else err, req))"

section \<open>The stage-wifi-config command\<close>

datatype cdouble = Finite rat | Infinity bool

record 'j cjson_api =
  cJSON_Parse_strict :: "string \<Rightarrow> 'j option"
  cJSON_IsObject :: "'j \<Rightarrow> bool"
  cJSON_GetObjectItemCaseSensitive :: "'j \<Rightarrow> string \<Rightarrow> 'j option"
  cJSON_IsString :: "'j \<Rightarrow> bool"
  valuestring :: "'j \<Rightarrow> string option"
  cJSON_IsNumber :: "'j \<Rightarrow> bool"
  valuedouble :: "'j \<Rightarrow> cdouble"

definition copy_required_json_string :: "'j cjson_api \<Rightarrow> 'j \<Rightarrow> string \<Rightarrow> nat \<Rightarrow> bool \<Rightarrow> esp_err + string" where
  "copy_required_json_string cj doc key output_size allow_empty =
     (case cJSON_GetObjectItemCaseSensitive cj doc key of
        None \<Rightarrow> Inl ESP_ERR_INVALID_ARG
      | Some item \<Rightarrow>
          if \<not> cJSON_IsString cj item then Inl ESP_ERR_INVALID_ARG
          else case valuestring cj item of
                 None \<Rightarrow> Inl ESP_ERR_INVALID_ARG
               | Some v \<Rightarrow>
                   (let s = c_str v in
                    if (\<not> allow_empty \<and> length s = 0) \<or> length s \<ge> output_size then Inl ESP_ERR_INVALID_ARG else Inr s))"

text \<open>The field keeps its value (empty here) when the string is refused.\<close>

definition copy_field :: "(string \<Rightarrow> app_command_request \<Rightarrow> app_command_request) \<Rightarrow> esp_err + string \<Rightarrow> fill" where
  "copy_field store r req = (case r of Inl err \<Rightarrow> (err, req) | Inr s \<Rightarrow> (ESP_OK, store s req))"

definition parse_version :: "'j cjson_api \<Rightarrow> 'j \<Rightarrow> fill" where
  "parse_version cj doc req =
     (case cJSON_GetObjectItemCaseSensitive cj doc ''configVersion'' of
        None \<Rightarrow> (ESP_ERR_INVALID_ARG, req)
      | Some version \<Rightarrow>
          if \<not> cJSON_IsNumber cj version then (ESP_ERR_INVALID_ARG, req)
          else case valuedouble cj version of
                 Infinity _ \<Rightarrow> (ESP_ERR_INVALID_ARG, req)
               | Finite q \<Rightarrow>
                   if q < 1 \<or> q > 4294967295 then (ESP_ERR_INVALID_ARG, req)
                   else (let parsed_version = (of_int \<lfloor>q\<rfloor> :: u32) in
                         if of_int (uint parsed_version) \<noteq> q then (ESP_ERR_INVALID_ARG, req)
                         else (ESP_OK, req\<lparr>req_wifi_config_version := parsed_version\<rparr>)))"

definition stage_lengths_ok :: "app_command_request \<Rightarrow> bool" where
  "stage_lengths_ok req \<longleftrightarrow>
     (let ssid_length = length (req_wifi_ssid req); password_length = length (req_wifi_password req)
      in \<not> (ssid_length < 1 \<or> ssid_length > 32 \<or> (password_length > 0 \<and> password_length < 8) \<or> password_length > 63))"

definition parse_stage_wifi_config_payload :: "'j cjson_api \<Rightarrow> string \<Rightarrow> fill" where
  "parse_stage_wifi_config_payload cj payload req =
     (case cJSON_Parse_strict cj payload of
        None \<Rightarrow> (ESP_ERR_INVALID_ARG, req)
      | Some doc \<Rightarrow>
          if \<not> cJSON_IsObject cj doc then (ESP_ERR_INVALID_ARG, req)
          else fold if_ok
            [copy_field (\<lambda>s r. r\<lparr>req_request_id := s\<rparr>)
               (copy_required_json_string cj doc ''requestId'' APP_COMMAND_REQUEST_ID_SIZE False),
             copy_field (\<lambda>s r. r\<lparr>req_device_code := s\<rparr>)
               (copy_required_json_string cj doc ''deviceCode'' APP_COMMAND_DEVICE_CODE_SIZE False),
             copy_field (\<lambda>s r. r\<lparr>req_wifi_ssid := s\<rparr>)
               (copy_required_json_string cj doc ''ssid'' APP_COMMAND_WIFI_SSID_SIZE False),
             copy_field (\<lambda>s r. r\<lparr>req_wifi_password := s\<rparr>)
               (copy_required_json_string cj doc ''password'' APP_COMMAND_WIFI_PASSWORD_SIZE True),
             parse_version cj doc,
             check stage_lengths_ok] (ESP_OK, req))"

section \<open>The other commands\<close>

definition read_mac :: "string \<Rightarrow> string \<Rightarrow> fill" where
  "read_mac key payload = fill_string (\<lambda>s r. r\<lparr>req_mac := s\<rparr>) (read_json_string_field payload key APP_COMMAND_MAC_SIZE)"

definition read_session :: "string \<Rightarrow> fill" where
  "read_session payload = fill_int (\<lambda>n r. r\<lparr>req_session_id := n\<rparr>) (read_json_int64_field payload ''sessionId'')"

definition read_alert :: "string \<Rightarrow> fill" where
  "read_alert payload = fill_int (\<lambda>n r. r\<lparr>req_alert_id := n\<rparr>) (read_json_int64_field payload ''alertId'')"

definition read_ttl :: "string \<Rightarrow> fill" where
  "read_ttl payload = fill_int (\<lambda>n r. r\<lparr>req_ttl_seconds := n\<rparr>) (read_json_int64_field payload ''ttlSeconds'')"

definition read_destination :: "string \<Rightarrow> fill" where
  "read_destination payload =
     fill_string (\<lambda>s r. r\<lparr>req_dst_ip := s\<rparr>) (read_json_string_field payload ''dstIp'' APP_COMMAND_DESTINATION_IP_SIZE)"

definition read_sni :: "string \<Rightarrow> fill" where
  "read_sni payload = fill_string (\<lambda>s r. r\<lparr>req_sni := s\<rparr>) (read_json_string_field payload ''sni'' APP_COMMAND_SNI_SIZE)"

text \<open>The fields that a formal command reads, in the order of the code.\<close>

fun command_fields :: "app_command_type \<Rightarrow> string \<Rightarrow> fill list" where
  "command_fields APP_COMMAND_TYPE_ALLOW payload =
     [read_mac ''mac'' payload, read_session payload, check (\<lambda>r. req_session_id r > 0), read_ttl payload,
      check (\<lambda>r. \<not> (req_ttl_seconds r < APP_COMMAND_TTL_SECONDS_MIN \<or> req_ttl_seconds r > APP_COMMAND_TTL_SECONDS_MAX))]"
| "command_fields APP_COMMAND_TYPE_REVOKE_ACCESS payload =
     [read_mac ''mac'' payload, read_session payload, check (\<lambda>r. req_session_id r > 0)]"
| "command_fields APP_COMMAND_TYPE_DISCONNECT_MAC payload =
     [read_mac ''mac'' payload, read_alert payload, check (\<lambda>r. req_alert_id r \<ge> 0)]"
| "command_fields APP_COMMAND_TYPE_KICK payload = [optional (read_mac ''reason'' payload)]"
| "command_fields APP_COMMAND_TYPE_BLOCK_TRAFFIC payload =
     [read_alert payload, check (\<lambda>r. req_alert_id r \<ge> 0), read_destination payload, optional (read_sni payload)]"
| "command_fields _ payload = []"

text \<open>The test commands, named by the field \<open>type\<close> of the payload.\<close>

definition parse_test_command :: "string \<Rightarrow> fill" where
  "parse_test_command payload req =
     (case read_json_string_field payload ''type'' APP_COMMAND_TYPE_SIZE of
        Inl err \<Rightarrow> (err, req)
      | Inr command_type \<Rightarrow>
          if command_type = ''PING'' then (ESP_OK, req\<lparr>req_type := APP_COMMAND_TYPE_PING\<rparr>)
          else if command_type = ''GET_STATUS'' then (ESP_OK, req\<lparr>req_type := APP_COMMAND_TYPE_GET_STATUS\<rparr>)
          else (ESP_ERR_NOT_FOUND, req))"

text \<open>The request is unchanged when the arguments are refused before it is cleared.\<close>

definition app_command_parse ::
  "'j cjson_api \<Rightarrow> string option \<Rightarrow> string option \<Rightarrow> app_command_request \<Rightarrow> esp_err \<times> app_command_request" where
  "app_command_parse cj topic payload request =
     (if topic = None \<or> topic = Some [] \<or> payload = None \<or> payload = Some [] then (ESP_ERR_INVALID_ARG, request)
      else if length (the payload) \<ge> COMMAND_PAYLOAD_BUFFER_SIZE then (ESP_ERR_NO_MEM, empty_request)
      else
        (let payload_buffer = c_str (the payload); topic_err = read_command_type_from_topic topic in
         if topic_err = Inr APP_COMMAND_TYPE_STAGE_WIFI_CONFIG
         then parse_stage_wifi_config_payload cj payload_buffer
                (empty_request\<lparr>req_type := APP_COMMAND_TYPE_STAGE_WIFI_CONFIG\<rparr>)
         else
           (case optional (fill_string (\<lambda>s r. r\<lparr>req_request_id := s\<rparr>)
                    (read_json_string_field payload_buffer ''requestId'' APP_COMMAND_REQUEST_ID_SIZE)) empty_request of
              (err, req) \<Rightarrow>
                if err \<noteq> ESP_OK then (err, req)
                else case topic_err of
                       Inr t \<Rightarrow> fold if_ok (command_fields t payload_buffer) (ESP_OK, req\<lparr>req_type := t\<rparr>)
                     | Inl err \<Rightarrow>
                         if err \<noteq> ESP_ERR_NOT_FOUND then (err, req) else parse_test_command payload_buffer req)))"

end
