(* ===== verification/Text_Format.thy ===== *)
theory Text_Format
  imports Prelude
begin

text \<open>
  What \<open>snprintf\<close> writes for the formats the firmware uses: decimal numbers (\<open>%u\<close>, \<open>%d\<close>,
  \<open>%lld\<close>), bytes in hexadecimal (\<open>%02X\<close>), IPv4 addresses (IPSTR) and MAC addresses, with the lengths that
  decide whether the text fits its buffer.
\<close>

section \<open>Decimal numbers\<close>

fun dec_nat :: "nat \<Rightarrow> string" where
  "dec_nat n = (if n < 10 then [char_of (48 + n)] else dec_nat (n div 10) @ [char_of (48 + n mod 10)])"

declare dec_nat.simps [simp del]

definition dec_int :: "int \<Rightarrow> string" where
  "dec_int n = (if n < 0 then CHR ''-'' # dec_nat (nat (- n)) else dec_nat (nat n))"

lemma length_dec_nat: "n < 10 ^ k \<Longrightarrow> 0 < k \<Longrightarrow> length (dec_nat n) \<le> k"
proof (induction k arbitrary: n)
  case (Suc k)
  show ?case
  proof (cases "n < 10")
    case True
    then show ?thesis by (subst dec_nat.simps) simp
  next
    case False
    then have k: "0 < k" using Suc.prems by (cases k) auto
    have "n div 10 < 10 ^ k" using Suc.prems(1) by (simp add: less_mult_imp_div_less mult.commute)
    from Suc.IH [OF this k] show ?thesis using False by (subst dec_nat.simps) simp
  qed
qed simp

lemma length_dec_int:
  assumes "\<bar>n\<bar> < 10 ^ k" "0 < k"
  shows "length (dec_int n) \<le> Suc k"
proof -
  have "nat \<bar>n\<bar> < 10 ^ k" using assms(1) by (simp add: nat_less_iff)
  from length_dec_nat [OF this assms(2)] show ?thesis by (auto simp: dec_int_def split: if_split)
qed

section \<open>Addresses\<close>

definition hex_char :: "nat \<Rightarrow> char" where
  "hex_char n = char_of (if n < 10 then 48 + n else 55 + n)"

definition hex2 :: "u8 \<Rightarrow> string" where
  "hex2 b = [hex_char (unat b div 16), hex_char (unat b mod 16)]"

text \<open>\<open>%02X:%02X:%02X:%02X:%02X:%02X\<close>\<close>

fun join_text :: "char \<Rightarrow> string list \<Rightarrow> string" where
  "join_text sep [] = []"
| "join_text sep [s] = s"
| "join_text sep (s # ss) = s @ sep # join_text sep ss"

definition mac_text :: "bytes \<Rightarrow> string" where
  "mac_text mac = join_text (CHR '':'') (map hex2 mac)"

text \<open>IPSTR with IP2STR: the bytes of the address in memory order.\<close>

definition ip4_byte :: "u32 \<Rightarrow> nat \<Rightarrow> nat" where
  "ip4_byte ip i = unat (drop_bit (8 * i) ip AND 0xFF)"

definition ip4_text :: "u32 \<Rightarrow> string" where
  "ip4_text ip = join_text (CHR ''.'') (map (dec_nat \<circ> ip4_byte ip) [0, 1, 2, 3])"

lemma six_bytes: "length mac = 6 \<Longrightarrow> \<exists>a b c d e f. mac = [a, b, c, d, e, f]"
  by (simp add: eval_nat_numeral length_Suc_conv) blast

lemma length_mac_text: "length mac = 6 \<Longrightarrow> length (mac_text mac) = 17"
  by (drule six_bytes) (auto simp: mac_text_def hex2_def)

lemma ip4_byte_lt: "ip4_byte ip i < 256"
proof -
  have "drop_bit (8 * i) ip AND 0xFF \<le> (0xFF :: u32)" by (rule word_and_le1)
  then show ?thesis unfolding ip4_byte_def word_le_nat_alt by simp
qed

lemma length_ip4_text: "length (ip4_text ip) \<le> 15"
proof -
  have "length (dec_nat (ip4_byte ip i)) \<le> 3" for i
    using ip4_byte_lt [of ip i] by (intro length_dec_nat) simp_all
  from this [of 0] this [of 1] this [of 2] this [of 3] show ?thesis by (simp add: ip4_text_def)
qed

end
