(* ===== verification/Command_Fields.thy ===== *)
theory Command_Fields
  imports App_Command Text_Format
begin

text \<open>
  What the search for a field finds. The controller writes flat JSON objects without blanks; \<open>render_object\<close> is that
  format. On such an object the text search of the firmware is the lookup of the field, for every order of the fields: no value and no other
  key can be mistaken for the field.
\<close>

abbreviation QUOTE :: char where "QUOTE \<equiv> CHR 0x22"

datatype jval = JStr string | JNum int

section \<open>The format\<close>

primrec render_value :: "jval \<Rightarrow> string" where
  "render_value (JStr s) = QUOTE # s @ [QUOTE]"
| "render_value (JNum n) = dec_int n"

definition render_field :: "string \<times> jval \<Rightarrow> string" where
  "render_field f = QUOTE # fst f @ QUOTE # CHR '':'' # render_value (snd f)"

fun render_fields :: "(string \<times> jval) list \<Rightarrow> string" where
  "render_fields [] = []"
| "render_fields [f] = render_field f"
| "render_fields (f # fs) = render_field f @ CHR '','' # render_fields fs"

definition render_object :: "(string \<times> jval) list \<Rightarrow> string" where
  "render_object fs = CHR ''{'' # render_fields fs @ [CHR ''}'']"

text \<open>Keys start with a letter; no text holds a quote or a zero byte.\<close>

definition plain :: "string \<Rightarrow> bool" where
  "plain s \<longleftrightarrow> QUOTE \<notin> set s \<and> NUL \<notin> set s"

definition key_ok :: "string \<Rightarrow> bool" where
  "key_ok k \<longleftrightarrow> k \<noteq> [] \<and> plain k \<and> hd k \<noteq> CHR '':'' \<and> hd k \<noteq> CHR '','' \<and> hd k \<noteq> CHR ''}''"

primrec value_ok :: "jval \<Rightarrow> bool" where
  "value_ok (JStr s) = plain s" | "value_ok (JNum n) = True"

definition object_ok :: "(string \<times> jval) list \<Rightarrow> bool" where
  "object_ok fs \<longleftrightarrow> distinct (map fst fs) \<and> (\<forall>(k, v) \<in> set fs. key_ok k \<and> value_ok v)"

section \<open>Numbers\<close>

lemma digit_char: "n < 10 \<Longrightarrow> c_isdigit (char_of (48 + n))" "n < 10 \<Longrightarrow> char_code (char_of (48 + n :: nat)) = 48 + n"
  by (simp_all add: c_isdigit_def)

lemma dec_nat_digits: "dec_nat n \<noteq> [] \<and> (\<forall>c \<in> set (dec_nat n). c_isdigit c)"
proof (induction n rule: dec_nat.induct)
  case (1 n)
  have "c_isdigit (char_of (48 + n mod 10))" using digit_char(1) [of "n mod 10"] by simp
  then show ?case using 1 digit_char(1) [of n] by (subst (1 2) dec_nat.simps) auto
qed

lemma digits_value_snoc: "digits_value (ds @ [c]) = 10 * digits_value ds + int (char_code c) - 48"
  by (simp add: digits_value_def)

lemma digits_value_dec: "digits_value (dec_nat n) = int n"
proof (induction n rule: dec_nat.induct)
  case (1 n)
  show ?case
  proof (cases "n < 10")
    case True
    then show ?thesis by (subst dec_nat.simps) (simp add: digits_value_def)
  next
    case False
    have "digits_value (dec_nat n) = 10 * digits_value (dec_nat (n div 10)) + int (char_code (char_of (48 + n mod 10))) - 48"
      using False by (subst dec_nat.simps) (simp only: if_False digits_value_snoc)
    also have "\<dots> = 10 * int (n div 10) + int (n mod 10)"
      using False 1 digit_char(2) [of "n mod 10"] by simp
    also have "\<dots> = int n" by (simp add: zdiv_int zmod_int)
    finally show ?thesis .
  qed
qed

lemma not_digit: "\<not> c_isdigit (CHR '','')" "\<not> c_isdigit (CHR ''}'')" "\<not> c_isdigit (CHR ''-'')" "\<not> c_isdigit (CHR ''+'')"
    "\<not> c_isdigit QUOTE" "\<not> c_isdigit NUL" "\<not> c_isspace QUOTE" "\<not> c_isspace (CHR ''-'')" "\<not> (c_isspace c \<and> c_isdigit c)"
  by (auto simp: c_isdigit_def c_isspace_def char_code_def NUL_def)

lemma takeWhile_digits: "\<not> c_isdigit c \<Longrightarrow> takeWhile c_isdigit (dec_nat n @ c # rest) = dec_nat n"
  using dec_nat_digits [of n] by (simp add: takeWhile_append2)

lemma dropWhile_space: "\<not> c_isspace c \<Longrightarrow> dropWhile c_isspace (c # s) = c # s"
  by simp

lemma strtoll_dec:
  assumes "\<not> c_isdigit c" "- (2 ^ 63) \<le> n" "n < 2 ^ 63"
  shows "strtoll (dec_int n @ c # rest) = Inr n"
proof (cases "n < 0")
  case True
  let ?d = "dec_nat (nat (- n))"
  have "dropWhile c_isspace (dec_int n @ c # rest) = CHR ''-'' # ?d @ c # rest"
    using True by (simp add: dec_int_def not_digit)
  then show ?thesis
    using True assms(2,3) takeWhile_digits [OF assms(1)] dec_nat_digits [of "nat (- n)"]
    unfolding strtoll_def by (simp add: Let_def digits_value_dec)
next
  case False
  let ?d = "dec_nat (nat n)"
  obtain a ds where d: "?d = a # ds" using dec_nat_digits [of "nat n"] by (cases ?d) auto
  have a: "c_isdigit a" "\<not> c_isspace a" using dec_nat_digits [of "nat n"] d not_digit(9) by auto
  then have n: "a \<noteq> CHR ''-''" "a \<noteq> CHR ''+''" using not_digit(3,4) by auto
  have "dropWhile c_isspace (dec_int n @ c # rest) = ?d @ c # rest"
    using False a d by (simp add: dec_int_def)
  then show ?thesis
    using False assms(2,3) takeWhile_digits [OF assms(1), of "nat n" rest] n a d digits_value_dec [of "nat n"]
    unfolding strtoll_def by (simp add: Let_def)
qed

lemma dec_int_plain: "plain (dec_int n)"
proof -
  have "c_isdigit c \<Longrightarrow> c \<noteq> QUOTE \<and> c \<noteq> NUL" for c using not_digit(5,6) by auto
  then show ?thesis
    using dec_nat_digits [of "nat n"] dec_nat_digits [of "nat (- n)"] unfolding dec_int_def plain_def
    by (auto simp: NUL_char)
qed

section \<open>Searching\<close>

lemma after_first_skip: "q \<notin> set u \<Longrightarrow> after_first (q # p) (u @ s) = after_first (q # p) s"
proof (induction u)
  case (Cons a u)
  then have "after_first (q # p) ((a # u) @ s) = after_first (q # p) (u @ s)"
    by (subst after_first.simps) auto
  then show ?case using Cons by simp
qed simp

lemma after_first_hit: "after_first (q # p) (q # p @ s) = Some s"
  by (subst after_first.simps) simp

lemma after_first_miss: "\<not> (\<exists>r. s = p @ r) \<Longrightarrow> after_first (q # p) (q # s) = after_first (q # p) s"
  by (subst after_first.simps) (metis append_take_drop_id length_Cons list.inject list.simps(5) take_Suc_Cons)

lemma after_first_Nil: "after_first (q # p) [] = None"
  by (simp add: after_first.simps)

lemma takeWhile_quoted: "QUOTE \<notin> set u \<Longrightarrow> takeWhile (\<lambda>c. c \<noteq> QUOTE) (u @ QUOTE # x) = u"
  by (induction u) auto

lemma same_quoted:
  assumes "QUOTE \<notin> set k" "QUOTE \<notin> set u" "u @ QUOTE # x = k @ QUOTE # y"
  shows "u = k \<and> x = y"
proof -
  have "takeWhile (\<lambda>c. c \<noteq> QUOTE) (u @ QUOTE # x) = u" "takeWhile (\<lambda>c. c \<noteq> QUOTE) (k @ QUOTE # y) = k"
    by (rule takeWhile_quoted [OF assms(2)], rule takeWhile_quoted [OF assms(1)])
  then have "u = k" using assms(3) by simp
  then show ?thesis using assms(3) by simp
qed

text \<open>Passing over a field: \<open>t\<close> is what follows the key in the pattern, which starts with a colon.\<close>

lemma skip_field:
  assumes k: "key_ok k" and f: "key_ok k'" "value_ok v" and sep: "sep = CHR '','' \<or> sep = CHR ''}''"
    and t: "t = CHR '':'' # t'" and no: "k = k' \<Longrightarrow> \<not> (\<exists>r. CHR '':'' # render_value v @ sep # rest = t @ r)"
  shows "after_first (QUOTE # k @ QUOTE # t) (render_field (k', v) @ sep # rest) = after_first (QUOTE # k @ QUOTE # t) rest"
proof -
  let ?a = "after_first (QUOTE # k @ QUOTE # t)"
  have q: "QUOTE \<notin> set k" "QUOTE \<notin> set k'" using k f by (auto simp: key_ok_def plain_def)
  have sepq: "sep \<noteq> QUOTE" using sep by auto
  have start: "\<not> (\<exists>r. c # s = (k @ QUOTE # t) @ r)" if "c \<noteq> hd k" for c s
  proof -
    obtain a ks where "k = a # ks" using k by (cases k) (simp_all add: key_ok_def)
    then show ?thesis using that by simp
  qed
  have hd: "CHR '':'' \<noteq> hd k" "sep \<noteq> hd k" using k sep by (auto simp: key_ok_def)
  have 1: "\<not> (\<exists>r. k' @ QUOTE # CHR '':'' # render_value v @ sep # rest = (k @ QUOTE # t) @ r)"
  proof
    assume "\<exists>r. k' @ QUOTE # CHR '':'' # render_value v @ sep # rest = (k @ QUOTE # t) @ r"
    then obtain r where "k' @ QUOTE # CHR '':'' # render_value v @ sep # rest = k @ QUOTE # (t @ r)" by auto
    from same_quoted [OF q this] no show False by blast
  qed
  have open_key: "?a (QUOTE # k' @ QUOTE # CHR '':'' # render_value v @ sep # rest) =
      ?a (k' @ QUOTE # CHR '':'' # render_value v @ sep # rest)"
    using after_first_miss [OF 1] by simp
  have close_key: "?a (QUOTE # CHR '':'' # render_value v @ sep # rest) = ?a (render_value v @ sep # rest)"
    using after_first_miss [OF start [OF hd(1)]] after_first_skip [of QUOTE "[CHR '':'']"] by simp
  have val: "?a (render_value v @ sep # rest) = ?a rest"
  proof (cases v)
    case (JStr s)
    have s: "QUOTE \<notin> set s" using f JStr by (simp add: plain_def)
    have 2: "\<not> (\<exists>r. s @ QUOTE # sep # rest = (k @ QUOTE # t) @ r)"
    proof
      assume "\<exists>r. s @ QUOTE # sep # rest = (k @ QUOTE # t) @ r"
      then obtain r where "s @ QUOTE # sep # rest = k @ QUOTE # (t @ r)" by auto
      from same_quoted [OF q(1) s this] show False using sep t by auto
    qed
    have "?a (QUOTE # s @ QUOTE # sep # rest) = ?a (s @ QUOTE # sep # rest)"
      using after_first_miss [OF 2] by simp
    also have "\<dots> = ?a (QUOTE # sep # rest)" using after_first_skip [OF s] by simp
    also have "\<dots> = ?a (sep # rest)" using after_first_miss [OF start [OF hd(2)]] by simp
    also have "\<dots> = ?a rest" using after_first_skip [of QUOTE "[sep]"] sepq by simp
    finally show ?thesis using JStr by simp
  next
    case (JNum n)
    have "QUOTE \<notin> set (dec_int n @ [sep])" using dec_int_plain [of n] sepq by (simp add: plain_def)
    from after_first_skip [OF this] show ?thesis using JNum by simp
  qed
  show ?thesis
    unfolding render_field_def using open_key after_first_skip [OF q(2)] close_key val by simp
qed

text \<open>The remaining fields with the closing brace.\<close>

lemma render_fields_Cons:
  "render_fields (f # fs) @ [CHR ''}''] = render_field f @
     (if fs = [] then CHR ''}'' # [] else CHR '','' # render_fields fs @ [CHR ''}''])"
  by (cases fs) simp_all

lemma search_string:
  assumes "key_ok k"
  shows "object_ok fs \<Longrightarrow>
    (case map_of fs k of
       Some (JStr s) \<Rightarrow> \<exists>r. after_first (field_pattern k [CHR '':'', QUOTE]) (render_fields fs @ [CHR ''}'']) = Some (s @ QUOTE # r)
     | _ \<Rightarrow> after_first (field_pattern k [CHR '':'', QUOTE]) (render_fields fs @ [CHR ''}'']) = None)"
proof (induction fs)
  case Nil
  show ?case using after_first_skip [of QUOTE "[CHR ''}'']"] by (simp add: field_pattern_def after_first_Nil)
next
  case (Cons f fs)
  obtain k' v where f: "f = (k', v)" by (cases f)
  have ok: "key_ok k'" "value_ok v" "object_ok fs" using Cons.prems f by (auto simp: object_ok_def)
  define sep where "sep = (if fs = [] then CHR ''}'' else CHR '','')"
  define rest where "rest = (if fs = [] then [] else render_fields fs @ [CHR ''}''])"
  have sep: "sep = CHR '','' \<or> sep = CHR ''}''" by (simp add: sep_def)
  have whole: "render_fields (f # fs) @ [CHR ''}''] = render_field (k', v) @ sep # rest"
    by (simp add: render_fields_Cons f sep_def rest_def)
  have rest_eq: "after_first (field_pattern k [CHR '':'', QUOTE]) rest =
      after_first (field_pattern k [CHR '':'', QUOTE]) (render_fields fs @ [CHR ''}''])"
    using after_first_skip [of QUOTE "[CHR ''}'']"] by (simp add: rest_def field_pattern_def)
  show ?case
  proof (cases "k = k' \<and> (\<exists>s. v = JStr s)")
    case True
    then obtain s where s: "v = JStr s" by blast
    have "after_first (field_pattern k [CHR '':'', QUOTE]) (render_field (k, v) @ sep # rest) = Some (s @ QUOTE # sep # rest)"
      using after_first_hit [of QUOTE "k @ QUOTE # [CHR '':'', QUOTE]"] by (simp add: field_pattern_def render_field_def s)
    then show ?thesis using True s unfolding whole by (simp add: f)
  next
    case False
    have no: "\<not> (\<exists>r. CHR '':'' # render_value v @ sep # rest = [CHR '':'', QUOTE] @ r)" if "k = k'"
    proof -
      obtain n where n: "v = JNum n" using False \<open>k = k'\<close> by (cases v) simp_all
      have "dec_int n \<noteq> []" "QUOTE \<notin> set (dec_int n)"
        using dec_int_plain [of n] dec_nat_digits [of "nat n"] by (auto simp: plain_def dec_int_def)
      then show ?thesis using n by (cases "dec_int n") auto
    qed
    have e: "after_first (field_pattern k [CHR '':'', QUOTE]) (render_field (k', v) @ sep # rest) =
        after_first (field_pattern k [CHR '':'', QUOTE]) (render_fields fs @ [CHR ''}''])"
      unfolding rest_eq [symmetric] unfolding field_pattern_def by (rule skip_field [OF assms ok(1,2) sep refl no]) simp
    show ?thesis
    proof (cases "k = k'")
      case True
      then obtain n where "v = JNum n" using False by (cases v) auto
      moreover have "map_of fs k = None" using Cons.prems True f by (auto simp: object_ok_def map_of_eq_None_iff)
      ultimately show ?thesis using Cons.IH [OF ok(3)] True unfolding whole e by (simp add: f)
    next
      case other: False
      then show ?thesis using Cons.IH [OF ok(3)] unfolding whole e by (simp add: f)
    qed
  qed
qed

lemma search_number:
  assumes "key_ok k"
  shows "object_ok fs \<Longrightarrow>
    (case map_of fs k of
       Some v \<Rightarrow> \<exists>r sep. (sep = CHR '','' \<or> sep = CHR ''}'') \<and>
         after_first (field_pattern k [CHR '':'']) (render_fields fs @ [CHR ''}'']) = Some (render_value v @ sep # r)
     | None \<Rightarrow> after_first (field_pattern k [CHR '':'']) (render_fields fs @ [CHR ''}'']) = None)"
proof (induction fs)
  case Nil
  show ?case using after_first_skip [of QUOTE "[CHR ''}'']"] by (simp add: field_pattern_def after_first_Nil)
next
  case (Cons f fs)
  obtain k' v where f: "f = (k', v)" by (cases f)
  have ok: "key_ok k'" "value_ok v" "object_ok fs" using Cons.prems f by (auto simp: object_ok_def)
  define sep where "sep = (if fs = [] then CHR ''}'' else CHR '','')"
  define rest where "rest = (if fs = [] then [] else render_fields fs @ [CHR ''}''])"
  have sep: "sep = CHR '','' \<or> sep = CHR ''}''" by (simp add: sep_def)
  have whole: "render_fields (f # fs) @ [CHR ''}''] = render_field (k', v) @ sep # rest"
    by (simp add: render_fields_Cons f sep_def rest_def)
  have rest_eq: "after_first (field_pattern k [CHR '':'']) rest =
      after_first (field_pattern k [CHR '':'']) (render_fields fs @ [CHR ''}''])"
    using after_first_skip [of QUOTE "[CHR ''}'']"] by (simp add: rest_def field_pattern_def)
  show ?case
  proof (cases "k = k'")
    case True
    have "after_first (field_pattern k [CHR '':'']) (render_field (k, v) @ sep # rest) = Some (render_value v @ sep # rest)"
      using after_first_hit [of QUOTE "k @ QUOTE # [CHR '':'']"] by (simp add: field_pattern_def render_field_def)
    then show ?thesis using True sep unfolding whole by (auto simp: f)
  next
    case False
    have e: "after_first (field_pattern k [CHR '':'']) (render_field (k', v) @ sep # rest) =
        after_first (field_pattern k [CHR '':'']) (render_fields fs @ [CHR ''}''])"
      unfolding rest_eq [symmetric] unfolding field_pattern_def
      by (rule skip_field [OF assms ok(1,2) sep refl]) (simp add: False)
    show ?thesis using Cons.IH [OF ok(3)] False unfolding whole e by (simp add: f)
  qed
qed

section \<open>Reading fields is looking them up\<close>

lemma object_text: "after_first (field_pattern k t) (render_object fs) = after_first (field_pattern k t) (render_fields fs @ [CHR ''}''])"
  using after_first_skip [of QUOTE "[CHR ''{'']"] by (simp add: render_object_def field_pattern_def)

lemma read_string_field:
  assumes "object_ok fs" "key_ok k" "length k < 59" "0 < n"
  shows "read_json_string_field (render_object fs) k n =
    (case map_of fs k of
       Some (JStr s) \<Rightarrow> if length s \<ge> n then Inl ESP_ERR_NO_MEM else Inr s | _ \<Rightarrow> Inl ESP_ERR_NOT_FOUND)"
proof (cases "\<exists>s. map_of fs k = Some (JStr s)")
  case True
  then obtain s where s: "map_of fs k = Some (JStr s)" by blast
  then obtain r where r: "after_first (field_pattern k [CHR '':'', QUOTE]) (render_object fs) = Some (s @ QUOTE # r)"
    using search_string [OF assms(2,1)] unfolding object_text by auto
  have "plain s" using assms(1) s map_of_SomeD [OF s] by (auto simp: object_ok_def)
  then have "takeWhile (\<lambda>c. c \<noteq> QUOTE) (s @ QUOTE # r) = s" by (simp add: takeWhile_quoted plain_def)
  then show ?thesis using assms(3,4) s r by (simp add: read_json_string_field_def field_pattern_def [of k] Let_def)
next
  case False
  then have "after_first (field_pattern k [CHR '':'', QUOTE]) (render_object fs) = None"
    using search_string [OF assms(2,1)] unfolding object_text by (auto split: option.splits jval.splits)
  then show ?thesis using assms(3,4) False
    by (auto simp: read_json_string_field_def Let_def field_pattern_def split: option.split jval.split)
qed

definition int64_range :: "int \<Rightarrow> bool" where
  "int64_range n \<longleftrightarrow> - (2 ^ 63) \<le> n \<and> n < 2 ^ 63"

lemma read_int_field:
  assumes "object_ok fs" "key_ok k" "length k < 60" "map_of fs k = Some (JNum n)" "int64_range n"
  shows "read_json_int64_field (render_object fs) k = Inr n"
proof -
  obtain r sep where r: "sep = CHR '','' \<or> sep = CHR ''}''"
      "after_first (field_pattern k [CHR '':'']) (render_object fs) = Some (dec_int n @ sep # r)"
    using search_number [OF assms(2,1)] assms(4) unfolding object_text by auto
  have "\<not> c_isdigit sep" using r(1) not_digit by auto
  from strtoll_dec [OF this] assms(5) have "strtoll (dec_int n @ sep # r) = Inr n" by (simp add: int64_range_def)
  then show ?thesis using r(2) assms(3) by (simp add: read_json_int64_field_def Let_def field_pattern_def [of k])
qed

end
