(* ===== verification/Command_Parsing.thy ===== *)
theory Command_Parsing
  imports Command_Fields
begin

text \<open>
  The parser against the commands. A command of the controller is a value of \<open>command\<close>; what the
  controller sends is its topic level and its JSON object. The parser reads back each of the six commands of the protocol,
  \<open>stage-wifi-config\<close> through what cJSON finds in the payload and the others by its own search; it accepts only requests
  within the bounds the operations rely on, and refuses a KICK whose reason is longer than the field of a MAC address.
\<close>

datatype command =
    Allow string int int
  | Revoke string int
  | Disconnect_mac string int
  | Kick string "string option"
  | Block int string "string option"
  | Stage string u32 string string

primrec command_level :: "command \<Rightarrow> string" where
  "command_level (Allow m s t) = ''allow''"
| "command_level (Revoke m s) = ''revoke-access''"
| "command_level (Disconnect_mac m a) = ''disconnect-mac''"
| "command_level (Kick code r) = ''kick''"
| "command_level (Block a d n) = ''block-traffic''"
| "command_level (Stage code v i p) = ''stage-wifi-config''"

definition optional_field :: "string \<Rightarrow> string option \<Rightarrow> (string \<times> jval) list" where
  "optional_field k v = (case v of None \<Rightarrow> [] | Some s \<Rightarrow> [(k, JStr s)])"

primrec command_json :: "command \<Rightarrow> (string \<times> jval) list" where
  "command_json (Allow m s t) = [(''mac'', JStr m), (''sessionId'', JNum s), (''ttlSeconds'', JNum t)]"
| "command_json (Revoke m s) = [(''mac'', JStr m), (''sessionId'', JNum s)]"
| "command_json (Disconnect_mac m a) = [(''mac'', JStr m), (''alertId'', JNum a)]"
| "command_json (Kick code r) = (''deviceCode'', JStr code) # optional_field ''reason'' r"
| "command_json (Block a d n) = [(''alertId'', JNum a), (''dstIp'', JStr d)] @ optional_field ''sni'' n"
| "command_json (Stage code v i p) = [(''deviceCode'', JStr code), (''configVersion'', JNum (uint v)), (''ssid'', JStr i), (''password'', JStr p)]"

text \<open>The object of a message: a request identifier, if there is one, and the fields of the command.\<close>

definition message_fields :: "string option \<Rightarrow> command \<Rightarrow> (string \<times> jval) list" where
  "message_fields rid c = optional_field ''requestId'' rid @ command_json c"

definition command_payload :: "string option \<Rightarrow> command \<Rightarrow> string" where
  "command_payload rid c = render_object (message_fields rid c)"

definition some_string :: "string option \<Rightarrow> string" where
  "some_string v = (case v of None \<Rightarrow> [] | Some s \<Rightarrow> s)"

text \<open>
  The request that stands for a command. The reason of a KICK is stored in the field of the MAC address, as in the code, and its device code is
  not stored.
\<close>

primrec command_request :: "string option \<Rightarrow> command \<Rightarrow> app_command_request" where
  "command_request rid (Allow m s t) = empty_request\<lparr>req_request_id := some_string rid, req_type := APP_COMMAND_TYPE_ALLOW,
     req_mac := m, req_session_id := s, req_ttl_seconds := t\<rparr>"
| "command_request rid (Revoke m s) = empty_request\<lparr>req_request_id := some_string rid, req_type := APP_COMMAND_TYPE_REVOKE_ACCESS,
     req_mac := m, req_session_id := s\<rparr>"
| "command_request rid (Disconnect_mac m a) = empty_request\<lparr>req_request_id := some_string rid,
     req_type := APP_COMMAND_TYPE_DISCONNECT_MAC, req_mac := m, req_alert_id := a\<rparr>"
| "command_request rid (Kick code r) = empty_request\<lparr>req_request_id := some_string rid, req_type := APP_COMMAND_TYPE_KICK,
     req_mac := some_string r\<rparr>"
| "command_request rid (Block a d n) = empty_request\<lparr>req_request_id := some_string rid, req_type := APP_COMMAND_TYPE_BLOCK_TRAFFIC,
     req_alert_id := a, req_dst_ip := d, req_sni := some_string n\<rparr>"
| "command_request rid (Stage code v i p) = empty_request\<lparr>req_request_id := some_string rid,
     req_type := APP_COMMAND_TYPE_STAGE_WIFI_CONFIG, req_device_code := code, req_wifi_ssid := i, req_wifi_password := p,
     req_wifi_config_version := v\<rparr>"

definition text_ok :: "nat \<Rightarrow> string \<Rightarrow> bool" where
  "text_ok n s \<longleftrightarrow> plain s \<and> length s < n"

primrec is_stage :: "command \<Rightarrow> bool" where
  "is_stage (Allow m s t) = False" | "is_stage (Revoke m s) = False" | "is_stage (Disconnect_mac m a) = False"
| "is_stage (Kick code r) = False" | "is_stage (Block a d n) = False" | "is_stage (Stage code v i p) = True"

text \<open>
  The limits of the protocol (docs/firmware-contract-audit.md), and for the reason of a KICK those of the field it is stored in. Only
  \<open>stage-wifi-config\<close> needs a request identifier.
\<close>

primrec command_ok :: "command \<Rightarrow> bool" where
  "command_ok (Allow m s t) \<longleftrightarrow> text_ok 18 m \<and> 0 < s \<and> s < 2 ^ 63 \<and> 1 \<le> t \<and> t \<le> 86400"
| "command_ok (Revoke m s) \<longleftrightarrow> text_ok 18 m \<and> 0 < s \<and> s < 2 ^ 63"
| "command_ok (Disconnect_mac m a) \<longleftrightarrow> text_ok 18 m \<and> 0 \<le> a \<and> a < 2 ^ 63"
| "command_ok (Kick code r) \<longleftrightarrow> plain code \<and> (case r of None \<Rightarrow> True | Some s \<Rightarrow> text_ok 18 s)"
| "command_ok (Block a d n) \<longleftrightarrow> 0 \<le> a \<and> a < 2 ^ 63 \<and> text_ok 46 d \<and> (case n of None \<Rightarrow> True | Some s \<Rightarrow> text_ok 256 s)"
| "command_ok (Stage code v i p) \<longleftrightarrow> NUL \<notin> set (code @ i @ p) \<and> code \<noteq> [] \<and> length code < 64 \<and> v \<noteq> 0 \<and>
     1 \<le> length i \<and> length i \<le> 32 \<and> (p = [] \<or> 8 \<le> length p \<and> length p \<le> 63)"

definition request_id_ok :: "string option \<Rightarrow> command \<Rightarrow> bool" where
  "request_id_ok rid c \<longleftrightarrow> (case rid of None \<Rightarrow> \<not> is_stage c | Some r \<Rightarrow> text_ok 64 r \<and> (is_stage c \<longrightarrow> r \<noteq> []))"

text \<open>What cJSON documents: the payload is an object in which these fields are found with these values.\<close>

definition cjson_reads :: "'j cjson_api \<Rightarrow> string \<Rightarrow> (string \<times> jval) list \<Rightarrow> bool" where
  "cjson_reads cj payload fs \<longleftrightarrow>
     (\<exists>doc. cJSON_Parse_strict cj payload = Some doc \<and> cJSON_IsObject cj doc \<and>
        (\<forall>(k, v) \<in> set fs. \<exists>item. cJSON_GetObjectItemCaseSensitive cj doc k = Some item \<and>
           (case v of JStr s \<Rightarrow> cJSON_IsString cj item \<and> valuestring cj item = Some s
            | JNum n \<Rightarrow> cJSON_IsNumber cj item \<and> valuedouble cj item = Finite (of_int n))))"

text \<open>
  A payload for a command: for \<open>stage-wifi-config\<close> any JSON text, with any escapes, that cJSON reads as the fields of the message; for the others
  the object without blanks.
\<close>

definition sends :: "'j cjson_api \<Rightarrow> string option \<Rightarrow> command \<Rightarrow> string \<Rightarrow> bool" where
  "sends cj rid c payload \<longleftrightarrow>
     (if is_stage c then payload \<noteq> [] \<and> NUL \<notin> set payload \<and> cjson_reads cj payload (message_fields rid c)
      else payload = command_payload rid c)"

section \<open>Reading a command back\<close>

lemma keys_ok: "key_ok ''requestId'' \<and> key_ok ''mac'' \<and> key_ok ''sessionId'' \<and> key_ok ''ttlSeconds'' \<and> key_ok ''alertId'' \<and>
    key_ok ''reason'' \<and> key_ok ''dstIp'' \<and> key_ok ''sni'' \<and> key_ok ''deviceCode''"
  by (simp add: key_ok_def plain_def NUL_char)

lemma object_plain: "object_ok fs \<Longrightarrow> c_str (render_object fs) = render_object fs"
proof (rule c_str_noNUL)
  assume ok: "object_ok fs"
  have v: "NUL \<notin> set (render_value v)" if "value_ok v" for v
    using that dec_int_plain by (cases v) (auto simp: plain_def NUL_char)
  have "object_ok fs \<Longrightarrow> NUL \<notin> set (render_fields fs)"
  proof (induction fs rule: render_fields.induct)
    case (2 f)
    then show ?case using v by (auto simp: object_ok_def render_field_def key_ok_def plain_def NUL_char)
  next
    case (3 f f' fs)
    then have "object_ok (f' # fs)" by (auto simp: object_ok_def)
    with 3 show ?case using v by (auto simp: object_ok_def render_field_def key_ok_def plain_def NUL_char)
  qed simp
  then show "NUL \<notin> set (render_object fs)" using ok by (simp add: render_object_def NUL_char)
qed

lemma command_object_ok:
  "command_ok c \<Longrightarrow> \<not> is_stage c \<Longrightarrow> pred_option plain rid \<Longrightarrow> object_ok (message_fields rid c)"
  using keys_ok by (cases c; cases rid) (auto simp: object_ok_def text_ok_def optional_field_def message_fields_def split: option.splits)

lemma topic_level:
  assumes "NUL \<notin> set pre" "length pre + length (command_level c) < 127"
  shows "read_command_type_from_topic (Some (pre @ CHR ''/'' # command_level c)) = Inr (req_type (command_request rid c))"
proof -
  have l: "CHR ''/'' \<notin> set (command_level c) \<and> NUL \<notin> set (command_level c) \<and> command_level c \<noteq> []"
    by (cases c) (simp_all add: NUL_char)
  have "c_str (pre @ CHR ''/'' # command_level c) = pre @ CHR ''/'' # command_level c"
    using assms(1) l by (intro c_str_noNUL) (auto simp: NUL_char)
  moreover have "takeWhile (\<lambda>x. x \<noteq> CHR ''/'') (rev (command_level c) @ CHR ''/'' # rev pre) = rev (command_level c)"
    using l by (subst takeWhile_append2) auto
  ultimately have "read_command_type_from_topic (Some (pre @ CHR ''/'' # command_level c)) = command_of_name (command_level c)"
    using assms(2) l unfolding read_command_type_from_topic_def after_last_def by (simp add: COMMAND_TOPIC_BUFFER_SIZE_def)
  then show ?thesis by (cases c) (simp_all add: command_of_name_def)
qed

lemmas fill_defs = read_mac_def read_session_def read_alert_def read_ttl_def read_destination_def read_sni_def
  fill_string_def fill_int_def check_def optional_def if_ok_def

lemma command_fields_roundtrip:
  assumes ok: "command_ok c" "\<not> is_stage c" and rid: "pred_option plain rid"
  shows "fold if_ok (command_fields (req_type (command_request rid c)) (command_payload rid c))
    (ESP_OK, empty_request\<lparr>req_request_id := some_string rid, req_type := req_type (command_request rid c)\<rparr>) = (ESP_OK, command_request rid c)"
proof -
  note o = command_object_ok [OF ok rid]
  have field: "map_of (message_fields rid x) k = map_of (command_json x) k" if "k \<noteq> ''requestId''" for k x
    using that by (auto simp: message_fields_def optional_field_def split: option.split)
  note str = read_string_field [OF o, folded command_payload_def]
  note num = read_int_field [OF o, folded command_payload_def]
  note e = empty_request_def some_string_def
  show ?thesis
  proof (cases c)
    case (Allow m s t)
    then have "text_ok 18 m" "int64_range s" "int64_range t" "0 < s" "1 \<le> t" "t \<le> 86400"
      using ok by (auto simp: int64_range_def)
    then show ?thesis
      using str [of "''mac''" 18] num [of "''sessionId''" s] num [of "''ttlSeconds''" t] keys_ok
      by (simp add: Allow fill_defs command_sizes text_ok_def field)
  next
    case (Revoke m s)
    then have "text_ok 18 m" "int64_range s" "0 < s" using ok by (auto simp: int64_range_def)
    then show ?thesis
      using str [of "''mac''" 18] num [of "''sessionId''" s] keys_ok by (simp add: Revoke fill_defs command_sizes text_ok_def field)
  next
    case (Disconnect_mac m a)
    then have "text_ok 18 m" "int64_range a" "0 \<le> a" using ok by (auto simp: int64_range_def)
    then show ?thesis
      using str [of "''mac''" 18] num [of "''alertId''" a] keys_ok
      by (simp add: Disconnect_mac fill_defs command_sizes text_ok_def field)
  next
    case (Kick code r)
    then show ?thesis
      using str [of "''reason''" 18] keys_ok ok
      by (cases r) (simp_all add: fill_defs command_sizes text_ok_def optional_field_def some_string_def empty_request_def field)
  next
    case (Block a d n)
    then have "int64_range a" "0 \<le> a" "text_ok 46 d" using ok by (auto simp: int64_range_def)
    then show ?thesis
      using str [of "''dstIp''" 46] str [of "''sni''" 256] num [of "''alertId''" a] keys_ok ok Block
      by (cases n) (simp_all add: fill_defs command_sizes text_ok_def optional_field_def some_string_def empty_request_def field)
  qed (use ok in simp)
qed

lemma request_id_field:
  assumes "command_ok c" "\<not> is_stage c" "pred_option (text_ok 64) rid"
  shows "read_json_string_field (command_payload rid c) ''requestId'' APP_COMMAND_REQUEST_ID_SIZE =
    (case rid of None \<Rightarrow> Inl ESP_ERR_NOT_FOUND | Some r \<Rightarrow> Inr r)"
proof -
  have o: "object_ok (message_fields rid c)"
    using assms(3) by (intro command_object_ok [OF assms(1,2)]) (cases rid; simp add: text_ok_def)
  have "map_of (command_json c) ''requestId'' = None" by (cases c) (auto simp: optional_field_def split: option.split)
  then show ?thesis
    using read_string_field [OF o, of "''requestId''" 64] keys_ok assms(3)
    by (cases rid) (simp_all add: command_payload_def command_sizes message_fields_def optional_field_def text_ok_def)
qed

text \<open>The command that cJSON parses.\<close>

lemma copied_exactly:
  assumes "cJSON_GetObjectItemCaseSensitive cj doc k = Some item" "cJSON_IsString cj item" "valuestring cj item = Some v"
    and "NUL \<notin> set v" "length v < n" "e \<or> v \<noteq> []"
  shows "copy_required_json_string cj doc k n e = Inr v"
  using assms by (auto simp: copy_required_json_string_def c_str_noNUL Let_def)

lemma version_exactly:
  assumes "cJSON_GetObjectItemCaseSensitive cj doc ''configVersion'' = Some item" "cJSON_IsNumber cj item"
    and "valuedouble cj item = Finite (of_int (uint v))" "v \<noteq> (0 :: u32)"
  shows "parse_version cj doc r = (ESP_OK, r\<lparr>req_wifi_config_version := v\<rparr>)"
proof -
  define n where "n = uint v"
  have "0 < v" using assms(4) by (simp add: word_gt_0)
  then have n: "1 \<le> n" "n \<le> 4294967295" "word_of_int n = v" "uint v = n"
    using uint_lt2p [of v] by (simp_all add: word_less_def n_def)
  then have "\<not> (of_int n < (1 :: rat))" "\<not> (of_int n > (4294967295 :: rat))"
    by (metis not_less of_int_1_le_iff, metis not_less of_int_le_numeral_iff)
  moreover have "unsigned v = rat_of_int n" by (simp add: n_def)
  ultimately show ?thesis using assms(1,2) assms(3) [folded n_def] n by (simp add: parse_version_def Let_def)
qed

lemma stage_roundtrip:
  assumes ok: "command_ok (Stage code v i p)" "text_ok 64 r" "r \<noteq> []"
    and cj: "cjson_reads cj payload (message_fields (Some r) (Stage code v i p))"
  shows "parse_stage_wifi_config_payload cj payload (empty_request\<lparr>req_type := APP_COMMAND_TYPE_STAGE_WIFI_CONFIG\<rparr>) =
    (ESP_OK, command_request (Some r) (Stage code v i p))"
proof -
  from cj obtain doc where d: "cJSON_Parse_strict cj payload = Some doc" "cJSON_IsObject cj doc"
    and f: "\<forall>(k, x) \<in> set (message_fields (Some r) (Stage code v i p)). \<exists>item. cJSON_GetObjectItemCaseSensitive cj doc k = Some item \<and>
        (case x of JStr s \<Rightarrow> cJSON_IsString cj item \<and> valuestring cj item = Some s
         | JNum n \<Rightarrow> cJSON_IsNumber cj item \<and> valuedouble cj item = Finite (of_int n))"
    unfolding cjson_reads_def by blast
  have copied: "copy_required_json_string cj doc k n e = Inr x"
    if "(k, JStr x) \<in> set (message_fields (Some r) (Stage code v i p))" "NUL \<notin> set x" "length x < n" "e \<or> x \<noteq> []" for k n e x
    using f that copied_exactly [of cj doc k _ x n e] by fastforce
  have m: "(''requestId'', JStr r) \<in> set (message_fields (Some r) (Stage code v i p))"
    "(''deviceCode'', JStr code) \<in> set (message_fields (Some r) (Stage code v i p))"
    "(''ssid'', JStr i) \<in> set (message_fields (Some r) (Stage code v i p))"
    "(''password'', JStr p) \<in> set (message_fields (Some r) (Stage code v i p))"
    "(''configVersion'', JNum (uint v)) \<in> set (message_fields (Some r) (Stage code v i p))"
    by (simp_all add: message_fields_def optional_field_def)
  have i: "i \<noteq> []" "\<not> 32 < length i" and pw: "p = [] \<or> \<not> length p < 8" "\<not> 63 < length p" using ok(1) by auto
  have t: "copy_required_json_string cj doc ''requestId'' APP_COMMAND_REQUEST_ID_SIZE False = Inr r"
    "copy_required_json_string cj doc ''deviceCode'' APP_COMMAND_DEVICE_CODE_SIZE False = Inr code"
    "copy_required_json_string cj doc ''ssid'' APP_COMMAND_WIFI_SSID_SIZE False = Inr i"
    "copy_required_json_string cj doc ''password'' APP_COMMAND_WIFI_PASSWORD_SIZE True = Inr p"
    using copied [OF m(1), of 64 False] copied [OF m(2), of 64 False] copied [OF m(3), of 33 False] copied [OF m(4), of 64 True] ok i
    by (auto simp: command_sizes text_ok_def plain_def)
  obtain item where "cJSON_GetObjectItemCaseSensitive cj doc ''configVersion'' = Some item" "cJSON_IsNumber cj item"
      "valuedouble cj item = Finite (of_int (uint v))"
    using f m(5) by fastforce
  from version_exactly [OF this] ok(1) have "parse_version cj doc x = (ESP_OK, x\<lparr>req_wifi_config_version := v\<rparr>)" for x by simp
  then show ?thesis
    using i pw by (simp add: parse_stage_wifi_config_payload_def d t copy_field_def if_ok_def check_def stage_lengths_ok_def Let_def)
      (use ok(1) in \<open>simp add: empty_request_def some_string_def\<close>)
qed


section \<open>What an accepted request satisfies\<close>

text \<open>Every array of the request holds its terminator.\<close>

definition request_sizes :: "app_command_request \<Rightarrow> bool" where
  "request_sizes r \<longleftrightarrow> length (req_request_id r) < 64 \<and> length (req_mac r) < 18 \<and> length (req_dst_ip r) < 46 \<and>
     length (req_sni r) < 256 \<and> length (req_device_code r) < 64 \<and> length (req_wifi_ssid r) < 33 \<and>
     length (req_wifi_password r) < 64"

text \<open>What the operations rely on, by the type of the command.\<close>

definition request_bounds :: "app_command_request \<Rightarrow> bool" where
  "request_bounds r \<longleftrightarrow>
     (case req_type r of
        APP_COMMAND_TYPE_ALLOW \<Rightarrow> 0 < req_session_id r \<and> 1 \<le> req_ttl_seconds r \<and> req_ttl_seconds r \<le> 86400
      | APP_COMMAND_TYPE_REVOKE_ACCESS \<Rightarrow> 0 < req_session_id r
      | APP_COMMAND_TYPE_DISCONNECT_MAC \<Rightarrow> 0 \<le> req_alert_id r
      | APP_COMMAND_TYPE_BLOCK_TRAFFIC \<Rightarrow> 0 \<le> req_alert_id r
      | APP_COMMAND_TYPE_STAGE_WIFI_CONFIG \<Rightarrow>
          req_request_id r \<noteq> [] \<and> req_device_code r \<noteq> [] \<and> req_wifi_config_version r \<noteq> 0 \<and>
          c_str (req_request_id r) = req_request_id r \<and> c_str (req_wifi_ssid r) = req_wifi_ssid r \<and>
          c_str (req_wifi_password r) = req_wifi_password r \<and>
          1 \<le> length (req_wifi_ssid r) \<and> (req_wifi_password r = [] \<or> 8 \<le> length (req_wifi_password r))
      | APP_COMMAND_TYPE_UNKNOWN \<Rightarrow> False
      | _ \<Rightarrow> True)"

text \<open>A step of the parser keeps the sizes and the type.\<close>

definition keeps_sizes :: "fill \<Rightarrow> bool" where
  "keeps_sizes f \<longleftrightarrow> (\<forall>r e r'. f r = (e, r') \<longrightarrow> request_sizes r \<longrightarrow> request_sizes r' \<and> req_type r' = req_type r)"

lemma keeps_sizes_fold:
  "\<forall>f \<in> set fs. keeps_sizes f \<Longrightarrow> fold if_ok fs (e0, r) = (e, r') \<Longrightarrow> request_sizes r \<Longrightarrow>
    request_sizes r' \<and> req_type r' = req_type r"
proof (induction fs arbitrary: e0 r)
  case (Cons f fs)
  obtain e1 r1 where 1: "if_ok f (e0, r) = (e1, r1)" by fastforce
  have "request_sizes r1 \<and> req_type r1 = req_type r"
    using 1 Cons.prems(1,3) unfolding if_ok_def keeps_sizes_def by (auto split: if_split_asm)
  then show ?case using Cons.IH [of e1 r1] Cons.prems 1 by simp
qed simp

lemma string_field_length: "read_json_string_field json k n = Inr v \<Longrightarrow> length v < n"
  by (auto simp: read_json_string_field_def Let_def not_le split: if_split_asm option.splits)

lemma copied_string:
  "copy_required_json_string cj doc k n e = Inr v \<Longrightarrow> length v < n \<and> (e \<or> v \<noteq> []) \<and> c_str v = v"
  by (auto simp: copy_required_json_string_def Let_def not_le c_str_noNUL NUL_notin_c_str split: option.splits if_split_asm)

lemma steps_keep_sizes:
  "keeps_sizes (read_mac k p)" "keeps_sizes (read_session p)" "keeps_sizes (read_alert p)" "keeps_sizes (read_ttl p)"
  "keeps_sizes (read_destination p)" "keeps_sizes (read_sni p)" "keeps_sizes (check ok)"
  "keeps_sizes f \<Longrightarrow> keeps_sizes (optional f)"
  unfolding keeps_sizes_def fill_defs
  by (auto simp: request_sizes_def command_sizes split: sum.splits if_split_asm prod.splits dest: string_field_length)

lemma command_fields_keep: "f \<in> set (command_fields t p) \<Longrightarrow> keeps_sizes f"
  by (cases t) (auto intro: steps_keep_sizes)

lemma command_fields_bounds:
  assumes r: "fold if_ok (command_fields t p) (ESP_OK, r) = (ESP_OK, r')" and t: "req_type r = t"
    and n: "t \<noteq> APP_COMMAND_TYPE_UNKNOWN" "t \<noteq> APP_COMMAND_TYPE_STAGE_WIFI_CONFIG" and s: "request_sizes r"
  shows "request_sizes r' \<and> req_type r' = t \<and> request_bounds r'"
proof -
  have k: "request_sizes r' \<and> req_type r' = t"
    using keeps_sizes_fold [OF _ r s] command_fields_keep t by blast
  have "request_bounds r'"
  proof (cases t)
    case APP_COMMAND_TYPE_ALLOW
    then show ?thesis using r k unfolding request_bounds_def
      by (auto simp: fill_defs command_sizes split: sum.splits if_split_asm)
  next
    case APP_COMMAND_TYPE_REVOKE_ACCESS
    then show ?thesis using r k unfolding request_bounds_def
      by (auto simp: fill_defs split: sum.splits if_split_asm)
  next
    case APP_COMMAND_TYPE_DISCONNECT_MAC
    then show ?thesis using r k unfolding request_bounds_def
      by (auto simp: fill_defs split: sum.splits if_split_asm)
  next
    case APP_COMMAND_TYPE_BLOCK_TRAFFIC
    then show ?thesis using r k unfolding request_bounds_def
      by (auto simp: fill_defs split: sum.splits if_split_asm)
  qed (use k n in \<open>simp_all add: request_bounds_def\<close>)
  then show ?thesis using k by blast
qed

lemma copy_field_OK: "copy_field store res r = (ESP_OK, r') \<Longrightarrow> (\<And>e. res \<noteq> Inl ESP_OK) \<Longrightarrow> \<exists>v. res = Inr v \<and> r' = store v r"
  by (auto simp: copy_field_def split: sum.splits)

lemma copied_not_OK: "copy_required_json_string cj doc k n e \<noteq> Inl ESP_OK"
  by (auto simp: copy_required_json_string_def Let_def split: option.splits)

lemma version_OK: "parse_version cj doc r = (ESP_OK, r') \<Longrightarrow> \<exists>v. v \<noteq> 0 \<and> r' = r\<lparr>req_wifi_config_version := v\<rparr>"
proof -
  assume "parse_version cj doc r = (ESP_OK, r')"
  then obtain q where q: "\<not> q < 1" "rat_of_int (uint (of_int \<lfloor>q\<rfloor> :: u32)) = q"
      "r' = r\<lparr>req_wifi_config_version := of_int \<lfloor>q\<rfloor>\<rparr>"
    unfolding parse_version_def by (auto simp: Let_def split: option.splits if_split_asm cdouble.splits)
  have "(of_int \<lfloor>q\<rfloor> :: u32) \<noteq> 0"
  proof
    assume "(of_int \<lfloor>q\<rfloor> :: u32) = 0"
    then have "q = 0" using q(2) by simp
    then show False using q(1) by simp
  qed
  then show ?thesis using q(3) by blast
qed

lemma stage_payload_bounds:
  assumes r: "parse_stage_wifi_config_payload cj payload r0 = (ESP_OK, req)"
    and r0: "r0 = empty_request\<lparr>req_type := APP_COMMAND_TYPE_STAGE_WIFI_CONFIG\<rparr>"
  shows "request_sizes req \<and> req_type req = APP_COMMAND_TYPE_STAGE_WIFI_CONFIG \<and> request_bounds req"
proof -
  obtain doc where d: "fold if_ok
      [copy_field (\<lambda>s r. r\<lparr>req_request_id := s\<rparr>) (copy_required_json_string cj doc ''requestId'' APP_COMMAND_REQUEST_ID_SIZE False),
       copy_field (\<lambda>s r. r\<lparr>req_device_code := s\<rparr>) (copy_required_json_string cj doc ''deviceCode'' APP_COMMAND_DEVICE_CODE_SIZE False),
       copy_field (\<lambda>s r. r\<lparr>req_wifi_ssid := s\<rparr>) (copy_required_json_string cj doc ''ssid'' APP_COMMAND_WIFI_SSID_SIZE False),
       copy_field (\<lambda>s r. r\<lparr>req_wifi_password := s\<rparr>) (copy_required_json_string cj doc ''password'' APP_COMMAND_WIFI_PASSWORD_SIZE True),
       parse_version cj doc, check stage_lengths_ok] (ESP_OK, r0) = (ESP_OK, req)"
    using r unfolding parse_stage_wifi_config_payload_def by (auto split: option.splits if_split_asm)
  from fold_if_ok_OK [OF d] obtain r1 where 1: "copy_field (\<lambda>s r. r\<lparr>req_request_id := s\<rparr>)
      (copy_required_json_string cj doc ''requestId'' APP_COMMAND_REQUEST_ID_SIZE False) r0 = (ESP_OK, r1)"
    and d1: "fold if_ok
      [copy_field (\<lambda>s r. r\<lparr>req_device_code := s\<rparr>) (copy_required_json_string cj doc ''deviceCode'' APP_COMMAND_DEVICE_CODE_SIZE False),
       copy_field (\<lambda>s r. r\<lparr>req_wifi_ssid := s\<rparr>) (copy_required_json_string cj doc ''ssid'' APP_COMMAND_WIFI_SSID_SIZE False),
       copy_field (\<lambda>s r. r\<lparr>req_wifi_password := s\<rparr>) (copy_required_json_string cj doc ''password'' APP_COMMAND_WIFI_PASSWORD_SIZE True),
       parse_version cj doc, check stage_lengths_ok] (ESP_OK, r1) = (ESP_OK, req)" .
  from fold_if_ok_OK [OF d1] obtain r2 where 2: "copy_field (\<lambda>s r. r\<lparr>req_device_code := s\<rparr>)
      (copy_required_json_string cj doc ''deviceCode'' APP_COMMAND_DEVICE_CODE_SIZE False) r1 = (ESP_OK, r2)"
    and d2: "fold if_ok
      [copy_field (\<lambda>s r. r\<lparr>req_wifi_ssid := s\<rparr>) (copy_required_json_string cj doc ''ssid'' APP_COMMAND_WIFI_SSID_SIZE False),
       copy_field (\<lambda>s r. r\<lparr>req_wifi_password := s\<rparr>) (copy_required_json_string cj doc ''password'' APP_COMMAND_WIFI_PASSWORD_SIZE True),
       parse_version cj doc, check stage_lengths_ok] (ESP_OK, r2) = (ESP_OK, req)" .
  from fold_if_ok_OK [OF d2] obtain r3 where 3: "copy_field (\<lambda>s r. r\<lparr>req_wifi_ssid := s\<rparr>)
      (copy_required_json_string cj doc ''ssid'' APP_COMMAND_WIFI_SSID_SIZE False) r2 = (ESP_OK, r3)"
    and d3: "fold if_ok
      [copy_field (\<lambda>s r. r\<lparr>req_wifi_password := s\<rparr>) (copy_required_json_string cj doc ''password'' APP_COMMAND_WIFI_PASSWORD_SIZE True),
       parse_version cj doc, check stage_lengths_ok] (ESP_OK, r3) = (ESP_OK, req)" .
  from fold_if_ok_OK [OF d3] obtain r4 where 4: "copy_field (\<lambda>s r. r\<lparr>req_wifi_password := s\<rparr>)
      (copy_required_json_string cj doc ''password'' APP_COMMAND_WIFI_PASSWORD_SIZE True) r3 = (ESP_OK, r4)"
    and d4: "fold if_ok [parse_version cj doc, check stage_lengths_ok] (ESP_OK, r4) = (ESP_OK, req)" .
  from fold_if_ok_OK [OF d4] obtain r5 where 5: "parse_version cj doc r4 = (ESP_OK, r5)"
    and d5: "fold if_ok [check stage_lengths_ok] (ESP_OK, r5) = (ESP_OK, req)" .
  have 6: "req = r5" "stage_lengths_ok r5" using d5 by (auto simp: if_ok_def check_def split: if_split_asm)
  note o = copy_field_OK [OF _ copied_not_OK]
  obtain a b c w v where e: "copy_required_json_string cj doc ''requestId'' APP_COMMAND_REQUEST_ID_SIZE False = Inr a"
      "copy_required_json_string cj doc ''deviceCode'' APP_COMMAND_DEVICE_CODE_SIZE False = Inr b"
      "copy_required_json_string cj doc ''ssid'' APP_COMMAND_WIFI_SSID_SIZE False = Inr c"
      "copy_required_json_string cj doc ''password'' APP_COMMAND_WIFI_PASSWORD_SIZE True = Inr w" "v \<noteq> 0"
      "req = r0\<lparr>req_request_id := a, req_device_code := b, req_wifi_ssid := c, req_wifi_password := w, req_wifi_config_version := v\<rparr>"
    using o [OF 1] o [OF 2] o [OF 3] o [OF 4] version_OK [OF 5] 6(1) by auto
  show ?thesis
    using e(1-4) [THEN copied_string] e(5) 6(2) unfolding request_sizes_def request_bounds_def 6(1) [symmetric] e(6) r0
    by (auto simp: command_sizes empty_request_def stage_lengths_ok_def Let_def Suc_le_eq)
qed

text \<open>
  Only requests within bounds are executed. Whatever the controller, or anyone on the topic, sends, a request that is
  parsed without an error has a known type, every text of it fits its array, and it satisfies what its operation relies on:
  a positive session id, a grant between one second and one day, alert ids that are not negative, and, for a staged configuration, an SSID of
  1 to 32 characters, no password or one of at least 8, and a version that is not 0.
\<close>

lemma parsed_request_bounds:
  assumes "app_command_parse cj topic payload old = (ESP_OK, req)"
  shows "request_sizes req \<and> request_bounds req"
proof -
  obtain t p where tp: "topic = Some t" "payload = Some p"
    using assms unfolding app_command_parse_def by (cases topic; cases payload) (auto split: if_split_asm)
  define te where "te = read_command_type_from_topic topic"
  have known: "ty \<noteq> APP_COMMAND_TYPE_UNKNOWN" if "te = Inr ty" for ty
    using that unfolding te_def read_command_type_from_topic_def command_of_name_def
    by (auto split: option.splits if_split_asm)
  show ?thesis
  proof (cases "te = Inr APP_COMMAND_TYPE_STAGE_WIFI_CONFIG")
    case True
    then have "parse_stage_wifi_config_payload cj (c_str p) (empty_request\<lparr>req_type := APP_COMMAND_TYPE_STAGE_WIFI_CONFIG\<rparr>) = (ESP_OK, req)"
      using assms tp unfolding app_command_parse_def te_def by (auto simp: Let_def split: if_split_asm)
    from stage_payload_bounds [OF this refl] show ?thesis by simp
  next
    case False
    obtain e0 r0 where r0: "optional (fill_string (\<lambda>s r. r\<lparr>req_request_id := s\<rparr>)
        (read_json_string_field (c_str p) ''requestId'' APP_COMMAND_REQUEST_ID_SIZE)) empty_request = (e0, r0)" by fastforce
    have s0: "request_sizes r0"
      using r0 unfolding optional_def fill_string_def
      by (auto simp: request_sizes_def empty_request_def command_sizes split: sum.splits dest: string_field_length)
    have k: "(case te of Inr t \<Rightarrow> fold if_ok (command_fields t (c_str p)) (ESP_OK, r0\<lparr>req_type := t\<rparr>)
        | Inl err \<Rightarrow> if err \<noteq> ESP_ERR_NOT_FOUND then (err, r0) else parse_test_command (c_str p) r0) = (ESP_OK, req)"
      using assms tp False r0 unfolding app_command_parse_def te_def by (auto simp: Let_def split: if_split_asm)
    show ?thesis
    proof (cases te)
      case (Inr ty)
      then have f: "fold if_ok (command_fields ty (c_str p)) (ESP_OK, r0\<lparr>req_type := ty\<rparr>) = (ESP_OK, req)" using k by simp
      have "request_sizes (r0\<lparr>req_type := ty\<rparr>)" using s0 by (simp add: request_sizes_def)
      from command_fields_bounds [OF f _ known [OF Inr] _ this] show ?thesis using False Inr by simp
    next
      case (Inl e)
      then have "e = ESP_ERR_NOT_FOUND"
        using k unfolding te_def read_command_type_from_topic_def command_of_name_def
        by (auto split: option.splits if_split_asm)
      then have "parse_test_command (c_str p) r0 = (ESP_OK, req)" using k Inl by simp
      then show ?thesis
        using s0 unfolding parse_test_command_def
        by (auto simp: request_sizes_def request_bounds_def read_json_string_field_def Let_def
            split: sum.splits if_split_asm option.splits)
    qed
  qed
qed

text \<open>
  The firmware refuses a KICK whose reason is longer than 17 characters. The reason is read into the array of the MAC
  address, so an emergency reset with an ordinary explanation fails with ESP_ERR_NO_MEM and the device is not restarted, although the reason
  is optional and is only logged.
\<close>

lemma kick_with_long_reason_refused:
  assumes "plain reason" "length reason \<ge> 18" "plain code" "text_ok 64 rid" "NUL \<notin> set pre" "length pre < 100"
    and fits: "length (command_payload (Some rid) (Kick code (Some reason))) < 2048"
  shows "fst (app_command_parse cj (Some (pre @ ''/kick'')) (Some (command_payload (Some rid) (Kick code (Some reason)))) old) =
    ESP_ERR_NO_MEM"
proof -
  have rid: "plain rid" "length rid < 64" using assms(4) by (simp_all add: text_ok_def)
  have o: "object_ok (message_fields (Some rid) (Kick code (Some reason)))"
    using keys_ok rid assms(1,3) by (simp add: object_ok_def optional_field_def message_fields_def)
  let ?p = "command_payload (Some rid) (Kick code (Some reason))"
  have p: "c_str ?p = ?p" "?p \<noteq> []"
    using object_plain [OF o] by (simp_all add: command_payload_def render_object_def)
  have r: "read_json_string_field ?p ''requestId'' APP_COMMAND_REQUEST_ID_SIZE = Inr rid"
      "read_json_string_field ?p ''reason'' APP_COMMAND_MAC_SIZE = Inl ESP_ERR_NO_MEM"
    using read_string_field [OF o, of "''requestId''" 64] read_string_field [OF o, of "''reason''" 18] keys_ok rid(2) assms(2)
    by (simp_all add: command_payload_def command_sizes optional_field_def message_fields_def)
  have t: "read_command_type_from_topic (Some (pre @ ''/kick'')) = Inr APP_COMMAND_TYPE_KICK"
    using topic_level [of pre "Kick code None" "Some rid"] assms(5,6) by simp
  show ?thesis
    using fits unfolding app_command_parse_def
    by (simp add: p r t fill_defs Let_def COMMAND_PAYLOAD_BUFFER_SIZE_def)
qed

section \<open>Witnesses\<close>

text \<open>A cJSON that parses nothing is enough for the commands that do not use it.\<close>

definition sample_cjson :: "unit cjson_api" where
  "sample_cjson = \<lparr>cJSON_Parse_strict = (\<lambda>_. None), cJSON_IsObject = (\<lambda>_. False),
     cJSON_GetObjectItemCaseSensitive = (\<lambda>_ _. None), cJSON_IsString = (\<lambda>_. False), valuestring = (\<lambda>_. None),
     cJSON_IsNumber = (\<lambda>_. False), valuedouble = (\<lambda>_. Finite 0)\<rparr>"

text \<open>A cJSON that reads one message: its items are the names of the fields.\<close>

definition staging_cjson :: "string cjson_api" where
  "staging_cjson = \<lparr>cJSON_Parse_strict = (\<lambda>_. Some ''object''), cJSON_IsObject = (\<lambda>_. True),
     cJSON_GetObjectItemCaseSensitive = (\<lambda>_ k. Some k), cJSON_IsString = (\<lambda>_. True),
     valuestring = map_of [(''requestId'', ''r1''), (''deviceCode'', ''gw-1''), (''ssid'', ''office''), (''password'', ''secret-password'')],
     cJSON_IsNumber = (\<lambda>_. True), valuedouble = (\<lambda>_. Finite 3)\<rparr>"

definition sample_staging :: command where
  "sample_staging = Stage ''gw-1'' 3 ''office'' ''secret-password''"

definition sample_disconnect :: command where
  "sample_disconnect = Disconnect_mac ''0A:0B:0C:0D:0E:0F'' 2001"

lemma sample_commands_ok:
  "command_ok sample_staging" "request_id_ok (Some ''r1'') sample_staging" "sends staging_cjson (Some ''r1'') sample_staging ''{...}''"
  "command_ok sample_disconnect" "request_id_ok None sample_disconnect"
  "sends staging_cjson None sample_disconnect (command_payload None sample_disconnect)"
  "length (command_payload None sample_disconnect) < 2048" "NUL \<notin> set ''wifi/device/gw1/cmd''"
  by (simp_all add: sample_staging_def sample_disconnect_def text_ok_def plain_def NUL_char request_id_ok_def sends_def cjson_reads_def
      staging_cjson_def message_fields_def optional_field_def command_payload_def render_object_def render_field_def dec_int_def dec_nat.simps)


lemma sample_ping: "app_command_parse sample_cjson (Some ''cmd/ping'') (Some (render_object [(''type'', JStr ''PING'')])) empty_request =
    (ESP_OK, empty_request\<lparr>req_type := APP_COMMAND_TYPE_PING\<rparr>)"
proof -
  have o: "object_ok [(''type'', JStr ''PING'')]" by (simp add: object_ok_def key_ok_def plain_def NUL_char)
  let ?p = "render_object [(''type'', JStr ''PING'')]"
  have p: "c_str ?p = ?p" "?p \<noteq> []" "length ?p < 2048"
    using object_plain [OF o] by (simp_all add: render_object_def render_field_def)
  have r: "read_json_string_field ?p ''requestId'' 64 = Inl ESP_ERR_NOT_FOUND" "read_json_string_field ?p ''type'' 32 = Inr ''PING''"
    using read_string_field [OF o, of "''requestId''" 64] read_string_field [OF o, of "''type''" 32]
    by (simp_all add: key_ok_def plain_def NUL_char)
  have t: "read_command_type_from_topic (Some ''cmd/ping'') = Inl ESP_ERR_NOT_FOUND"
    by (simp add: read_command_type_from_topic_def after_last_def command_of_name_def c_str_def NUL_char COMMAND_TOPIC_BUFFER_SIZE_def)
  show ?thesis
    using p(3) unfolding app_command_parse_def
    by (simp add: p(1,2) r t fill_defs Let_def command_sizes parse_test_command_def) (simp add: empty_request_def)
qed

end
