(* ===== verification/App_Mqtt.thy ===== *)
theory App_Mqtt
  imports Prelude
begin

text \<open>
  The MQTT session, components/app\_mqtt/app\_mqtt.c: the connection state with its generation counter, the reassembly of a
  command from the fragments the MQTT client delivers, starting the client and publishing.

  The MQTT client of ESP-IDF is a parameter. An event carries pointers and lengths as the client reports them; a copy that would read
  past the data or write past an array is \<open>None\<close>. Handing a command to the command handler, and subscribing, are effects
  of the event handler. Integers of type \<open>int\<close> are unbounded here: the sums the code forms are below 4096 as long as lengths are lengths of
  buffers.
\<close>

definition APP_MQTT_COMMAND_TOPIC_SIZE :: nat where "APP_MQTT_COMMAND_TOPIC_SIZE = 128"
definition APP_MQTT_COMMAND_PAYLOAD_SIZE :: nat where "APP_MQTT_COMMAND_PAYLOAD_SIZE = 2048"

lemmas mqtt_sizes = APP_MQTT_COMMAND_TOPIC_SIZE_def APP_MQTT_COMMAND_PAYLOAD_SIZE_def

record app_mqtt_config =
  broker_uri :: "string option"
  command_topic :: "string option"
  command_handler :: bool

record mqtt_data_event =
  ev_topic :: "string option"
  ev_topic_len :: int
  ev_data :: "string option"
  ev_data_len :: int
  ev_total_data_len :: int
  ev_current_data_offset :: int

datatype mqtt_event =
    MQTT_EVENT_CONNECTED | MQTT_EVENT_DISCONNECTED | MQTT_EVENT_ERROR | MQTT_EVENT_SUBSCRIBED
  | MQTT_EVENT_DATA "mqtt_data_event option" | MQTT_EVENT_OTHER

datatype mqtt_effect = Subscribe string | Command string string

text \<open>\<open>s_client\<close> and \<open>s_command_handler\<close> only matter as set or not.\<close>

record mqtt_session =
  s_client :: bool
  s_connected :: bool
  s_connection_generation :: u32
  s_command_topic :: string
  s_incoming_topic :: string
  s_incoming_payload :: string
  s_incoming_expected :: int
  s_incoming_received :: int
  s_command_handler :: bool

definition mqtt_boot :: mqtt_session where
  "mqtt_boot =
     \<lparr>s_client = False, s_connected = False, s_connection_generation = 0, s_command_topic = [], s_incoming_topic = [],
      s_incoming_payload = replicate APP_MQTT_COMMAND_PAYLOAD_SIZE NUL, s_incoming_expected = 0, s_incoming_received = 0,
      s_command_handler = False\<rparr>"

section \<open>The connection\<close>

definition set_connection_state :: "bool \<Rightarrow> mqtt_session \<Rightarrow> mqtt_session" where
  "set_connection_state connected st =
     (if connected then st\<lparr>s_connected := connected, s_connection_generation := s_connection_generation st + 1\<rparr>
      else st\<lparr>s_connected := connected\<rparr>)"

definition app_mqtt_get_connection_state :: "mqtt_session \<Rightarrow> bool \<times> u32" where
  "app_mqtt_get_connection_state st = (s_connected st, s_connection_generation st)"

section \<open>Reassembly\<close>

definition reset_incoming_command :: "mqtt_session \<Rightarrow> mqtt_session" where
  "reset_incoming_command st =
     st\<lparr>s_incoming_topic := [], s_incoming_payload := (s_incoming_payload st)[0 := NUL],
        s_incoming_expected := 0, s_incoming_received := 0\<rparr>"

text \<open>Reading \<open>n\<close> bytes from a pointer.\<close>

definition read_bytes :: "string \<Rightarrow> int \<Rightarrow> string option" where
  "read_bytes s n = (if 0 \<le> n \<and> nat n \<le> length s then Some (take (nat n) s) else None)"

text \<open>A first fragment: the topic and the announced length. \<open>Inl\<close>: the message is dropped.\<close>

definition start_message :: "mqtt_data_event \<Rightarrow> mqtt_session \<Rightarrow> (mqtt_session + mqtt_session) option" where
  "start_message ev st =
     (let st = reset_incoming_command st in
      case ev_topic ev of
        None \<Rightarrow> Some (Inl st)
      | Some t \<Rightarrow>
          if ev_topic_len ev \<le> 0 \<or> ev_topic_len ev \<ge> int APP_MQTT_COMMAND_TOPIC_SIZE \<or>
             ev_total_data_len ev \<ge> int APP_MQTT_COMMAND_PAYLOAD_SIZE
          then Some (Inl st)
          else do {
            topic \<leftarrow> read_bytes t (ev_topic_len ev);
            Some (Inr (st\<lparr>s_incoming_topic := c_str topic, s_incoming_expected := ev_total_data_len ev\<rparr>)) })"

text \<open>A fragment that continues the message; the last one hands the command over.\<close>

definition append_fragment :: "mqtt_data_event \<Rightarrow> string \<Rightarrow> mqtt_session \<Rightarrow> (mqtt_effect list \<times> mqtt_session) option" where
  "append_fragment ev d st =
     (if s_incoming_expected st = 0 \<or> ev_current_data_offset ev \<noteq> s_incoming_received st \<or>
         ev_current_data_offset ev + ev_data_len ev > s_incoming_expected st
      then Some ([], reset_incoming_command st)
      else do {
        bytes \<leftarrow> read_bytes d (ev_data_len ev);
        (if nat (ev_current_data_offset ev) + length bytes > length (s_incoming_payload st) then None else Some ());
        let st = st\<lparr>s_incoming_payload := write_at (s_incoming_payload st) (nat (ev_current_data_offset ev)) bytes,
                    s_incoming_received := s_incoming_received st + ev_data_len ev\<rparr>;
        if s_incoming_received st = s_incoming_expected st
        then if nat (s_incoming_received st) < length (s_incoming_payload st)
             then (let st = st\<lparr>s_incoming_payload := (s_incoming_payload st)[nat (s_incoming_received st) := NUL]\<rparr> in
                   Some (if s_command_handler st
                         then [Command (s_incoming_topic st) (take (nat (s_incoming_received st)) (s_incoming_payload st))]
                         else [], reset_incoming_command st))
             else None
        else Some ([], st) })"

definition handle_mqtt_data :: "mqtt_data_event option \<Rightarrow> mqtt_session \<Rightarrow> (mqtt_effect list \<times> mqtt_session) option" where
  "handle_mqtt_data event st =
     (case event of
        None \<Rightarrow> Some ([], reset_incoming_command st)
      | Some ev \<Rightarrow>
          (case ev_data ev of
             None \<Rightarrow> Some ([], reset_incoming_command st)
           | Some d \<Rightarrow>
               if ev_data_len ev < 0 \<or> ev_total_data_len ev \<le> 0 \<or> ev_current_data_offset ev < 0
               then Some ([], reset_incoming_command st)
               else if ev_current_data_offset ev = 0
               then (case start_message ev st of
                       None \<Rightarrow> None
                     | Some (Inl st) \<Rightarrow> Some ([], st)
                     | Some (Inr st) \<Rightarrow> append_fragment ev d st)
               else append_fragment ev d st))"

definition mqtt_event_handler :: "mqtt_event \<Rightarrow> mqtt_session \<Rightarrow> (mqtt_effect list \<times> mqtt_session) option" where
  "mqtt_event_handler event st =
     (case event of
        MQTT_EVENT_CONNECTED \<Rightarrow> (let st = set_connection_state True st in Some ([Subscribe (s_command_topic st)], st))
      | MQTT_EVENT_DISCONNECTED \<Rightarrow> Some ([], set_connection_state False st)
      | MQTT_EVENT_DATA ev \<Rightarrow> handle_mqtt_data ev st
      | _ \<Rightarrow> Some ([], st))"

section \<open>Starting and publishing\<close>

text \<open>The parameters: whether \<open>esp_mqtt_client_init\<close> returns a client, and the results of registering and starting.\<close>

definition app_mqtt_start ::
  "bool \<Rightarrow> esp_err \<Rightarrow> esp_err \<Rightarrow> app_mqtt_config option \<Rightarrow> mqtt_session \<Rightarrow> esp_err \<times> mqtt_session" where
  "app_mqtt_start client_created registered started config st =
     (case config of
        None \<Rightarrow> (ESP_ERR_INVALID_ARG, st)
      | Some c \<Rightarrow>
          (case (broker_uri c, command_topic c) of
             (Some uri, Some topic) \<Rightarrow>
               if uri = [] \<or> topic = [] then (ESP_ERR_INVALID_ARG, st)
               else if s_client st then (ESP_ERR_INVALID_STATE, st)
               else (let st' = st\<lparr>s_command_topic := take (APP_MQTT_COMMAND_TOPIC_SIZE - 1) topic\<rparr> in
                     if length topic \<ge> APP_MQTT_COMMAND_TOPIC_SIZE then (ESP_ERR_NO_MEM, st')
                     else (let st' = st'\<lparr>s_command_handler := command_handler c\<rparr> in
                           if \<not> client_created then (ESP_FAIL, st')
                           else (let st' = st'\<lparr>s_client := True\<rparr> in
                                 if registered \<noteq> ESP_OK then (registered, st') else (started, st'))))
           | _ \<Rightarrow> (ESP_ERR_INVALID_ARG, st)))"

text \<open>\<open>msg_id\<close> is what \<open>esp_mqtt_client_publish\<close> returns for the topic and the payload.\<close>

definition app_mqtt_publish :: "(string \<Rightarrow> string \<Rightarrow> int) \<Rightarrow> mqtt_session \<Rightarrow> string option \<Rightarrow> string option \<Rightarrow> esp_err" where
  "app_mqtt_publish msg_id st topic payload =
     (case (topic, payload) of
        (Some t, Some p) \<Rightarrow>
          if t = [] then ESP_ERR_INVALID_ARG
          else (let connection = app_mqtt_get_connection_state st in
                if \<not> s_client st \<or> \<not> fst connection then ESP_ERR_INVALID_STATE
                else if msg_id t p < 0 then ESP_FAIL else ESP_OK)
      | _ \<Rightarrow> ESP_ERR_INVALID_ARG)"

end
