(* ===== verification/Mqtt_Runs.thy ===== *)
theory Mqtt_Runs
  imports App_Mqtt
begin

text \<open>
  Runs of the MQTT session. \<open>pending\<close> describes the fragments that are being reassembled; the
  invariant ties the receive buffer to them. A command that is handed over is the data of consecutive fragments of one message, and every message
  that fits is handed over exactly once however it is cut.
\<close>

section \<open>Steps\<close>

text \<open>What the client library documents of a data event: the lengths are the lengths of the buffers.\<close>

definition event_ok :: "mqtt_data_event \<Rightarrow> bool" where
  "event_ok ev \<longleftrightarrow> (\<forall>t. ev_topic ev = Some t \<longrightarrow> ev_topic_len ev = int (length t)) \<and>
     (\<forall>d. ev_data ev = Some d \<longrightarrow> ev_data_len ev = int (length d))"

definition session_ok :: "mqtt_session \<Rightarrow> bool" where
  "session_ok st \<longleftrightarrow> length (s_incoming_payload st) = 2048 \<and> s_incoming_expected st < 2048 \<and>
     0 \<le> s_incoming_received st \<and> s_incoming_received st \<le> s_incoming_expected st"

lemma boot_ok: "session_ok mqtt_boot"
  by (simp add: session_ok_def mqtt_boot_def mqtt_sizes)

lemma received_bound:
  assumes "session_ok st"
  shows "nat (s_incoming_received st) \<le> length (s_incoming_payload st)" "int (nat (s_incoming_received st)) = s_incoming_received st"
  using assms by (auto simp: session_ok_def nat_le_iff)

lemma reset_ok: "session_ok st \<Longrightarrow> session_ok (reset_incoming_command st)"
  by (simp add: session_ok_def reset_incoming_command_def)

lemma reset_simps [simp]:
  "s_incoming_expected (reset_incoming_command st) = 0" "s_incoming_received (reset_incoming_command st) = 0"
  "s_command_handler (reset_incoming_command st) = s_command_handler st"
  "s_connection_generation (reset_incoming_command st) = s_connection_generation st"
  "s_connected (reset_incoming_command st) = s_connected st"
  by (simp_all add: reset_incoming_command_def)

lemma read_all: "read_bytes s (int (length s)) = Some s"
  by (simp add: read_bytes_def)

text \<open>A fragment: it is refused, it continues the message, or it completes it.\<close>

lemma append_cases [consumes 3, case_names refused more complete]:
  assumes ok: "session_ok st" and len: "ev_data_len ev = int (length d)" and off: "0 \<le> ev_current_data_offset ev"
  obtains (refused) "append_fragment ev d st = Some ([], reset_incoming_command st)"
      "s_incoming_expected st = 0 \<or> ev_current_data_offset ev \<noteq> s_incoming_received st \<or>
       s_incoming_received st + int (length d) > s_incoming_expected st"
  | (more) st' where "append_fragment ev d st = Some ([], st')" "ev_current_data_offset ev = s_incoming_received st"
      "s_incoming_expected st \<noteq> 0" "s_incoming_received st + int (length d) < s_incoming_expected st"
      "st' = st\<lparr>s_incoming_payload := write_at (s_incoming_payload st) (nat (s_incoming_received st)) d,
                s_incoming_received := s_incoming_received st + int (length d)\<rparr>" "session_ok st'"
  | (complete) st' where "append_fragment ev d st =
        Some (if s_command_handler st
              then [Command (s_incoming_topic st) (take (nat (s_incoming_received st)) (s_incoming_payload st) @ d)] else [],
          reset_incoming_command st')"
      "ev_current_data_offset ev = s_incoming_received st" "s_incoming_expected st \<noteq> 0"
      "s_incoming_received st + int (length d) = s_incoming_expected st" "session_ok st'"
      "s_command_handler st' = s_command_handler st"
proof (cases "s_incoming_expected st = 0 \<or> ev_current_data_offset ev \<noteq> s_incoming_received st \<or>
       s_incoming_received st + int (length d) > s_incoming_expected st")
  case True
  then show ?thesis using len by (intro refused) (auto simp: append_fragment_def)
next
  case False
  define r where "r = nat (s_incoming_received st)"
  define buf where "buf = write_at (s_incoming_payload st) r d"
  define st1 where "st1 = st\<lparr>s_incoming_payload := buf, s_incoming_received := s_incoming_received st + int (length d)\<rparr>"
  have r: "s_incoming_received st = int r" "r + length d < 2048" "length (s_incoming_payload st) = 2048"
    using ok False by (auto simp: session_ok_def r_def)
  have buf: "length buf = 2048" "take (r + length d) buf = take r (s_incoming_payload st) @ d"
    using r(2,3) by (simp_all add: buf_def take_write_at)
  have e: "append_fragment ev d st =
      (if s_incoming_received st1 = s_incoming_expected st
       then Some (if s_command_handler st then [Command (s_incoming_topic st) (take (r + length d) (buf[r + length d := NUL]))] else [],
         reset_incoming_command (st1\<lparr>s_incoming_payload := buf[r + length d := NUL]\<rparr>))
       else Some ([], st1))"
  proof (cases "int r + int (length d) = s_incoming_expected st")
    case True
    then have "s_incoming_expected st = int (r + length d)" by simp
    then show ?thesis
      using False r buf len unfolding append_fragment_def by (auto simp: read_all st1_def Let_def buf_def simp flip: of_nat_add)
  next
    case less: False
    then show ?thesis
      using False r buf len unfolding append_fragment_def by (simp add: read_all st1_def Let_def buf_def)
  qed
  show ?thesis
  proof (cases "s_incoming_received st1 = s_incoming_expected st")
    case True
    show ?thesis
    proof (rule complete [of "st1\<lparr>s_incoming_payload := buf[r + length d := NUL]\<rparr>"])
      show "append_fragment ev d st =
        Some (if s_command_handler st
              then [Command (s_incoming_topic st) (take (nat (s_incoming_received st)) (s_incoming_payload st) @ d)] else [],
          reset_incoming_command (st1\<lparr>s_incoming_payload := buf[r + length d := NUL]\<rparr>))"
        using e True buf(2) by (simp add: r_def)
      show "session_ok (st1\<lparr>s_incoming_payload := buf[r + length d := NUL]\<rparr>)"
        using ok True r buf by (simp add: session_ok_def st1_def)
    qed (use False True r in \<open>simp_all add: st1_def\<close>)
  next
    case less: False
    show ?thesis
      by (rule more [of st1]) (use e less False r buf ok in \<open>simp_all add: st1_def buf_def session_ok_def\<close>)
  qed
qed

text \<open>A data event: the message is dropped, or a fragment is appended, after a reset if it is a first one.\<close>

definition first_session :: "mqtt_data_event \<Rightarrow> string \<Rightarrow> mqtt_session \<Rightarrow> mqtt_session" where
  "first_session ev t st = (reset_incoming_command st)
     \<lparr>s_incoming_topic := c_str t, s_incoming_expected := ev_total_data_len ev\<rparr>"

lemma data_cases [consumes 2, case_names dropped initial further]:
  assumes ok: "session_ok st" and ev: "event_ok ev"
  obtains (dropped) "handle_mqtt_data (Some ev) st = Some ([], reset_incoming_command st)"
  | (initial) d t where "ev_data ev = Some d" "ev_topic ev = Some t" "ev_current_data_offset ev = 0"
      "0 < length t" "length t < 128" "0 < ev_total_data_len ev" "ev_total_data_len ev < 2048"
      "handle_mqtt_data (Some ev) st = append_fragment ev d (first_session ev t st)" "session_ok (first_session ev t st)"
  | (further) d where "ev_data ev = Some d" "0 < ev_current_data_offset ev"
      "handle_mqtt_data (Some ev) st = append_fragment ev d st"
proof -
  consider (bad) "ev_data ev = None \<or> ev_total_data_len ev \<le> 0 \<or> ev_current_data_offset ev < 0"
    | (zero) d where "ev_data ev = Some d" "0 < ev_total_data_len ev" "ev_current_data_offset ev = 0"
    | (pos) d where "ev_data ev = Some d" "0 < ev_total_data_len ev" "0 < ev_current_data_offset ev"
    by (cases "ev_data ev") force+
  then show ?thesis
  proof cases
    case bad
    then show ?thesis
      using dropped ev by (cases "ev_data ev") (auto simp: handle_mqtt_data_def event_ok_def)
  next
    case zero
    have l: "ev_data_len ev = int (length d)" using ev zero by (simp add: event_ok_def)
    consider (none) "start_message ev st = Some (Inl (reset_incoming_command st))"
      | (some) t where "ev_topic ev = Some t" "0 < length t" "length t < 128" "ev_total_data_len ev < 2048"
          "start_message ev st = Some (Inr (first_session ev t st))"
    proof (cases "\<exists>t. ev_topic ev = Some t \<and> 0 < length t \<and> length t < 128 \<and> ev_total_data_len ev < 2048")
      case True
      then obtain t where t: "ev_topic ev = Some t" "0 < length t" "length t < 128" "ev_total_data_len ev < 2048" by blast
      have "ev_topic_len ev = int (length t)" using ev t(1) by (simp add: event_ok_def)
      then have "start_message ev st = Some (Inr (first_session ev t st))"
        using t by (simp add: start_message_def first_session_def mqtt_sizes read_all Let_def)
      with t that(2) show ?thesis by blast
    next
      case False
      have "start_message ev st = Some (Inl (reset_incoming_command st))"
        using ev False by (cases "ev_topic ev") (auto simp: start_message_def event_ok_def mqtt_sizes Let_def)
      then show ?thesis by (rule that(1))
    qed
    then show ?thesis
    proof cases
      case none
      then show ?thesis using dropped zero l by (simp add: handle_mqtt_data_def)
    next
      case some
      have "session_ok (first_session ev t st)"
        using reset_ok [OF ok] some(4) zero(2) by (simp add: session_ok_def first_session_def)
      then show ?thesis using initial [OF zero(1) some(1) zero(3) some(2,3) zero(2) some(4)] some(5) zero l
        by (simp add: handle_mqtt_data_def)
    qed
  next
    case pos
    have "ev_data_len ev = int (length d)" using ev pos by (simp add: event_ok_def)
    then show ?thesis using further [OF pos(1,3)] pos by (simp add: handle_mqtt_data_def)
  qed
qed

section \<open>The message in the buffer\<close>

inductive pending :: "mqtt_data_event list \<Rightarrow> string \<Rightarrow> string \<Rightarrow> int \<Rightarrow> bool" where
  pending_first: "ev_topic ev = Some t \<Longrightarrow> 0 < length t \<Longrightarrow> length t < 128 \<Longrightarrow> ev_current_data_offset ev = 0 \<Longrightarrow>
    ev_data ev = Some d \<Longrightarrow> ev_total_data_len ev = n \<Longrightarrow> pending [ev] t d n"
| pending_more: "pending fs t p n \<Longrightarrow> ev_current_data_offset ev = int (length p) \<Longrightarrow> ev_data ev = Some d \<Longrightarrow>
    pending (fs @ [ev]) t (p @ d) n"

definition receives :: "mqtt_data_event list \<Rightarrow> mqtt_session \<Rightarrow> bool" where
  "receives history st \<longleftrightarrow> (s_incoming_expected st \<noteq> 0 \<longrightarrow>
     (\<exists>old fs t. history = old @ fs \<and> s_incoming_topic st = c_str t \<and>
        pending fs t (take (nat (s_incoming_received st)) (s_incoming_payload st)) (s_incoming_expected st)))"

definition delivered :: "mqtt_data_event list \<Rightarrow> mqtt_effect list \<Rightarrow> bool" where
  "delivered history effects \<longleftrightarrow>
     (\<forall>topic p. Command topic p \<in> set effects \<longrightarrow>
        (\<exists>old fs rest t. history = old @ fs @ rest \<and> topic = c_str t \<and> pending fs t p (int (length p)) \<and>
           0 < length p \<and> length p < 2048))"

lemma delivered_later: "delivered h fx \<Longrightarrow> delivered (h @ h') fx"
  unfolding delivered_def by (metis append.assoc)

lemma delivered_append: "delivered h fx \<Longrightarrow> delivered h gx \<Longrightarrow> delivered h (fx @ gx)"
  unfolding delivered_def set_append by (intro allI impI) (elim UnE allE, drule (1) mp, assumption, drule (1) mp, assumption)

lemma append_receives:
  assumes ok: "session_ok st" and len: "ev_data_len ev = int (length d)" and off: "0 \<le> ev_current_data_offset ev"
    and pend: "s_incoming_expected st \<noteq> 0 \<Longrightarrow> ev_current_data_offset ev = s_incoming_received st \<Longrightarrow>
      \<exists>old fs t. history = old @ fs \<and> s_incoming_topic st = c_str t \<and>
        pending fs t (take (nat (s_incoming_received st)) (s_incoming_payload st) @ d) (s_incoming_expected st)"
  shows "\<exists>fx st'. append_fragment ev d st = Some (fx, st') \<and> session_ok st' \<and> receives history st' \<and> delivered history fx \<and>
    s_command_handler st' = s_command_handler st"
  using ok len off
proof (cases rule: append_cases)
  case refused
  then show ?thesis using reset_ok [OF ok] by (simp add: receives_def delivered_def)
next
  case (more st')
  have "take (nat (s_incoming_received st')) (s_incoming_payload st') = take (nat (s_incoming_received st)) (s_incoming_payload st) @ d"
  proof -
    have "nat (s_incoming_received st + int (length d)) = nat (s_incoming_received st) + length d"
      using ok by (simp add: session_ok_def nat_add_distrib)
    then show ?thesis using received_bound(1) [OF ok] by (simp add: more(5) take_write_at)
  qed
  then have "receives history st'" using pend [OF more(3,2)] unfolding receives_def by (simp add: more(5))
  then show ?thesis using more(1,5,6) by (simp add: delivered_def)
next
  case (complete st')
  let ?p = "take (nat (s_incoming_received st)) (s_incoming_payload st) @ d"
  have "int (length ?p) = s_incoming_expected st" using received_bound [OF ok] complete(4) by simp
  moreover obtain old fs t where "history = old @ fs" "s_incoming_topic st = c_str t" "pending fs t ?p (s_incoming_expected st)"
    using pend [OF complete(3,2)] by blast
  moreover have "s_incoming_expected st < 2048" "0 \<le> s_incoming_expected st" using ok by (simp_all add: session_ok_def)
  ultimately have "history = old @ fs @ [] \<and> s_incoming_topic st = c_str t \<and> pending fs t ?p (int (length ?p)) \<and>
      0 < length ?p \<and> length ?p < 2048" using complete(3) by (metis append_Nil2 of_nat_0_less_iff of_nat_less_iff of_nat_numeral le_neq_trans)
  then have "\<exists>old fs rest t. history = old @ fs @ rest \<and> s_incoming_topic st = c_str t \<and> pending fs t ?p (int (length ?p)) \<and>
      0 < length ?p \<and> length ?p < 2048" by (intro exI)
  then have "delivered history (if s_command_handler st then [Command (s_incoming_topic st) ?p] else [])"
    unfolding delivered_def by (simp only: split: if_split) simp
  then show ?thesis using complete(1,6) reset_ok [OF complete(5)] by (simp add: receives_def)
qed

lemma data_receives:
  assumes ok: "session_ok st" and ev: "event_ok ev" and inv: "receives history st"
  shows "\<exists>fx st'. handle_mqtt_data (Some ev) st = Some (fx, st') \<and> session_ok st' \<and> receives (history @ [ev]) st' \<and>
    delivered (history @ [ev]) fx \<and> s_command_handler st' = s_command_handler st"
  using ok ev
proof (cases rule: data_cases)
  case dropped
  then show ?thesis using reset_ok [OF ok] by (simp add: receives_def delivered_def)
next
  case (initial d t)
  have "pending [ev] t d (ev_total_data_len ev)" using initial by (intro pending_first) simp_all
  then have "\<exists>fx st'. append_fragment ev d (first_session ev t st) = Some (fx, st') \<and> session_ok st' \<and>
      receives (history @ [ev]) st' \<and> delivered (history @ [ev]) fx \<and>
      s_command_handler st' = s_command_handler (first_session ev t st)"
    using initial ev by (intro append_receives) (auto simp: first_session_def event_ok_def)
  then show ?thesis using initial(8) by (simp add: first_session_def)
next
  case (further d)
  have "\<exists>fx st'. append_fragment ev d st = Some (fx, st') \<and> session_ok st' \<and>
      receives (history @ [ev]) st' \<and> delivered (history @ [ev]) fx \<and> s_command_handler st' = s_command_handler st"
  proof (rule append_receives [OF ok])
    show "ev_data_len ev = int (length d)" using ev further by (simp add: event_ok_def)
    show "0 \<le> ev_current_data_offset ev" using further by simp
    assume e: "s_incoming_expected st \<noteq> 0" "ev_current_data_offset ev = s_incoming_received st"
    then obtain old fs t where f: "history = old @ fs" "s_incoming_topic st = c_str t"
        "pending fs t (take (nat (s_incoming_received st)) (s_incoming_payload st)) (s_incoming_expected st)"
      using inv unfolding receives_def by blast
    have "ev_current_data_offset ev = int (length (take (nat (s_incoming_received st)) (s_incoming_payload st)))"
      using e(2) received_bound [OF ok] by simp
    from pending_more [OF f(3) this further(1)] f(1,2)
    show "\<exists>old fs t. history @ [ev] = old @ fs \<and> s_incoming_topic st = c_str t \<and>
        pending fs t (take (nat (s_incoming_received st)) (s_incoming_payload st) @ d) (s_incoming_expected st)"
      by (intro exI [of _ old] exI [of _ "fs @ [ev]"] exI [of _ t]) simp
  qed
  then show ?thesis using further(3) by simp
qed

section \<open>Runs\<close>

text \<open>A run over events; the effects are those of the whole run. Data events of the run are its history.\<close>

fun run_mqtt :: "mqtt_event list \<Rightarrow> mqtt_session \<Rightarrow> (mqtt_effect list \<times> mqtt_session) option" where
  "run_mqtt [] st = Some ([], st)"
| "run_mqtt (e # es) st = do { (fx, st) \<leftarrow> mqtt_event_handler e st; (gx, st) \<leftarrow> run_mqtt es st; Some (fx @ gx, st) }"

primrec data_of :: "mqtt_event \<Rightarrow> mqtt_data_event list" where
  "data_of MQTT_EVENT_CONNECTED = []" | "data_of MQTT_EVENT_DISCONNECTED = []" | "data_of MQTT_EVENT_ERROR = []"
| "data_of MQTT_EVENT_SUBSCRIBED = []" | "data_of (MQTT_EVENT_DATA ev) = (case ev of None \<Rightarrow> [] | Some e \<Rightarrow> [e])"
| "data_of MQTT_EVENT_OTHER = []"

definition mqtt_event_ok :: "mqtt_event \<Rightarrow> bool" where
  "mqtt_event_ok e \<longleftrightarrow> (\<forall>ev \<in> set (data_of e). event_ok ev)"

lemma handler_receives:
  assumes "session_ok st" "mqtt_event_ok e" "receives history st"
  shows "\<exists>fx st'. mqtt_event_handler e st = Some (fx, st') \<and> session_ok st' \<and> receives (history @ data_of e) st' \<and>
    delivered (history @ data_of e) fx \<and> s_command_handler st' = s_command_handler st"
proof (cases e)
  case (MQTT_EVENT_DATA d)
  show ?thesis
  proof (cases d)
    case None
    then show ?thesis using MQTT_EVENT_DATA reset_ok [OF assms(1)]
      by (simp add: mqtt_event_handler_def handle_mqtt_data_def receives_def delivered_def)
  next
    case (Some ev)
    then have "event_ok ev" using assms(2) MQTT_EVENT_DATA by (simp add: mqtt_event_ok_def)
    from data_receives [OF assms(1) this assms(3)] show ?thesis using Some MQTT_EVENT_DATA by (simp add: mqtt_event_handler_def)
  qed
qed (use assms in \<open>auto simp: mqtt_event_handler_def set_connection_state_def session_ok_def receives_def delivered_def Let_def\<close>)

lemma run_receives:
  "session_ok st \<Longrightarrow> \<forall>e \<in> set es. mqtt_event_ok e \<Longrightarrow> receives history st \<Longrightarrow>
   \<exists>fx st'. run_mqtt es st = Some (fx, st') \<and> session_ok st' \<and> receives (history @ concat (map data_of es)) st' \<and>
    delivered (history @ concat (map data_of es)) fx \<and> s_command_handler st' = s_command_handler st"
proof (induction es arbitrary: st history)
  case Nil
  then show ?case by (simp add: delivered_def)
next
  case (Cons e es)
  obtain fx st1 where 1: "mqtt_event_handler e st = Some (fx, st1)" "session_ok st1" "receives (history @ data_of e) st1"
      "delivered (history @ data_of e) fx" "s_command_handler st1 = s_command_handler st"
    using handler_receives [OF Cons.prems(1) _ Cons.prems(3), of e] Cons.prems(2) by auto
  obtain gx st2 where 2: "run_mqtt es st1 = Some (gx, st2)" "session_ok st2"
      "receives ((history @ data_of e) @ concat (map data_of es)) st2" "delivered ((history @ data_of e) @ concat (map data_of es)) gx"
      "s_command_handler st2 = s_command_handler st1"
    using Cons.IH [OF 1(2) _ 1(3)] Cons.prems(2) by auto
  have "run_mqtt (e # es) st = Some (fx @ gx, st2)" using 1(1) 2(1) by simp
  then show ?case using 2(2,3,5) 1(5) delivered_append [OF delivered_later [OF 1(4)] 2(4)] by auto
qed

section \<open>Properties\<close>

lemma started_session:
  assumes "app_mqtt_start created registered started (Some config) mqtt_boot = (ESP_OK, st0)"
  shows "session_ok st0" "s_command_handler st0 = command_handler config" "s_incoming_expected st0 = 0"
proof -
  obtain topic where "st0 = mqtt_boot\<lparr>s_command_topic := topic, s_command_handler := command_handler config, s_client := True\<rparr>"
    using assms unfolding app_mqtt_start_def by (auto simp: Let_def split: option.splits if_split_asm)
  then show "session_ok st0" "s_command_handler st0 = command_handler config" "s_incoming_expected st0 = 0"
    using boot_ok by (simp_all add: session_ok_def) (simp add: mqtt_boot_def)
qed

text \<open>
  C35: no command is made up. After the client was started with a command handler, for any events of the client library (fragments in
  any order, with any offsets and lengths, interrupted by reconnections), the event handler returns without leaving its buffers and keeps the
  command handler, and every command it hands over is the data of consecutive data events that form one message: the first has offset 0 and
  carries the topic, the offset of each is what was received before it, and together they are as long as the first announced.
\<close>

theorem delivered_commands_are_messages:
  assumes "app_mqtt_start created registered started (Some config) mqtt_boot = (ESP_OK, st0)" "command_handler config"
    and "\<forall>e \<in> set es. mqtt_event_ok e"
  shows "\<exists>fx st. run_mqtt es st0 = Some (fx, st) \<and> session_ok st \<and> s_command_handler st \<and> delivered (concat (map data_of es)) fx"
  using run_receives [OF started_session(1) [OF assms(1)] assms(3), of "[]"] started_session(2,3) [OF assms(1)] assms(2)
  by (auto simp: receives_def)

text \<open>The events of a message that is sent in pieces, as the client library reports them.\<close>

fun further_events :: "nat \<Rightarrow> nat \<Rightarrow> string list \<Rightarrow> mqtt_event list" where
  "further_events n off [] = []"
| "further_events n off (d # ds) = MQTT_EVENT_DATA (Some \<lparr>ev_topic = None, ev_topic_len = 0, ev_data = Some d,
     ev_data_len = int (length d), ev_total_data_len = int n, ev_current_data_offset = int off\<rparr>) #
     further_events n (off + length d) ds"

definition message_events :: "string \<Rightarrow> string \<Rightarrow> string list \<Rightarrow> mqtt_event list" where
  "message_events t d ds = MQTT_EVENT_DATA (Some \<lparr>ev_topic = Some t, ev_topic_len = int (length t), ev_data = Some d,
     ev_data_len = int (length d), ev_total_data_len = int (length (d @ concat ds)), ev_current_data_offset = 0\<rparr>) #
     further_events (length (d @ concat ds)) (length d) ds"

lemma further_complete:
  assumes "n < 2048" "[] \<notin> set ds"
  shows "session_ok st \<Longrightarrow> s_command_handler st \<Longrightarrow> s_incoming_expected st = int n \<Longrightarrow>
    s_incoming_received st = int off \<Longrightarrow> 0 < off \<Longrightarrow> off + length (concat ds) = n \<Longrightarrow> ds \<noteq> [] \<Longrightarrow>
    \<exists>st'. run_mqtt (further_events n off ds) st =
      Some ([Command (s_incoming_topic st) (take off (s_incoming_payload st) @ concat ds)], st') \<and> s_incoming_expected st' = 0"
  using assms(2)
proof (induction ds arbitrary: off st)
  case (Cons d ds)
  let ?ev = "\<lparr>ev_topic = None, ev_topic_len = 0, ev_data = Some d, ev_data_len = int (length d), ev_total_data_len = int n,
    ev_current_data_offset = int off\<rparr>"
  have h: "mqtt_event_handler (MQTT_EVENT_DATA (Some ?ev)) st = append_fragment ?ev d st"
    using Cons.prems(5,6) by (simp add: mqtt_event_handler_def handle_mqtt_data_def)
  have d: "ev_data_len ?ev = int (length d)" "0 \<le> ev_current_data_offset ?ev" "0 < length d" using Cons.prems(8) by auto
  from Cons.prems(1) d(1,2) show ?case
  proof (cases rule: append_cases)
    case refused
    then show ?thesis using Cons.prems(3-6) by simp
  next
    case (complete st')
    then have "off + length d = n" using Cons.prems(3,4) by simp
    then have "length (concat ds) = 0" using Cons.prems(6) unfolding concat.simps length_append by linarith
    then have "concat ds = []" by (simp only: length_0_conv)
    then have "ds = []" using Cons.prems(8) by (cases ds) auto
    then show ?thesis using complete h Cons.prems(2,4) by simp
  next
    case (more st')
    have e: "s_command_handler st'" "s_incoming_expected st' = int n" "s_incoming_received st' = int (off + length d)"
        "s_incoming_topic st' = s_incoming_topic st"
      using more(5) Cons.prems(2,3,4) by simp_all
    have t: "take (off + length d) (s_incoming_payload st') = take off (s_incoming_payload st) @ d"
      using received_bound(1) [OF Cons.prems(1)] Cons.prems(4) by (simp add: more(5) take_write_at)
    have "ds \<noteq> []" using more(4) Cons.prems(3,4,6) by auto
    with Cons.IH [OF more(6) e(1-3)] Cons.prems(5,6,8) obtain st2 where
      "run_mqtt (further_events n (off + length d) ds) st' =
        Some ([Command (s_incoming_topic st') (take (off + length d) (s_incoming_payload st') @ concat ds)], st2)"
      "s_incoming_expected st2 = 0" by auto
    then show ?thesis using h more(1) e(4) t by simp
  qed
qed simp

text \<open>
  C36: every command that fits is handed over, exactly once and unchanged, however the client library cuts it into
  events, whatever was being received before.
\<close>

theorem message_delivered_once:
  assumes ok: "session_ok st" "s_command_handler st"
    and t: "0 < length t" "length t < 128" and d: "[] \<notin> set (d # ds)" "length (concat (d # ds)) < 2048"
  shows "\<exists>st'. run_mqtt (message_events t d ds) st = Some ([Command (c_str t) (concat (d # ds))], st') \<and>
    s_incoming_expected st' = 0"
proof -
  define n where "n = length (d @ concat ds)"
  define ev where "ev = \<lparr>ev_topic = Some t, ev_topic_len = int (length t), ev_data = Some d, ev_data_len = int (length d),
    ev_total_data_len = int n, ev_current_data_offset = 0\<rparr>"
  have n: "0 < n" "n < 2048" using d by (auto simp: n_def)
  have es: "message_events t d ds = MQTT_EVENT_DATA (Some ev) # further_events n (length d) ds"
    by (simp add: message_events_def ev_def n_def)
  have ev: "event_ok ev" "ev_data_len ev = int (length d)" "0 \<le> ev_current_data_offset ev" by (simp_all add: ev_def event_ok_def)
  define s1 where "s1 = first_session ev t st"
  have h: "mqtt_event_handler (MQTT_EVENT_DATA (Some ev)) st = append_fragment ev d s1"
    using t n unfolding mqtt_event_handler_def handle_mqtt_data_def start_message_def s1_def first_session_def ev_def
    by (simp add: Let_def mqtt_sizes read_all)
  have s1: "session_ok s1" "s_incoming_expected s1 = int n" "s_incoming_received s1 = 0" "s_incoming_topic s1 = c_str t"
      "s_command_handler s1"
    using reset_ok [OF ok(1)] n ok(2) by (simp_all add: s1_def first_session_def session_ok_def ev_def)
  from s1(1) ev(2,3) show ?thesis
  proof (cases rule: append_cases)
    case refused
    moreover have "length d \<le> n" by (simp add: n_def)
    ultimately show ?thesis using s1 n by (simp add: ev_def)
  next
    case (complete st')
    then have "length (concat ds) = 0" using s1 by (simp add: n_def)
    then have "concat ds = []" by (simp only: length_0_conv)
    then have "ds = []" using d(1) by (cases ds) auto
    then show ?thesis using complete h s1 es by simp
  next
    case (more st')
    have ds: "ds \<noteq> []" using more(4) s1 by (auto simp: n_def)
    have e: "s_command_handler st'" "s_incoming_expected st' = int n" "s_incoming_received st' = int (length d)"
        "s_incoming_topic st' = c_str t" "take (length d) (s_incoming_payload st') = d"
      using more(5) s1 received_bound(1) [OF s1(1)] take_write_at [of 0 "s_incoming_payload s1" d] by simp_all
    have "[] \<notin> set ds" "0 < length d" "length d + length (concat ds) = n" using d by (auto simp: n_def)
    from further_complete [OF n(2) this(1) more(6) e(1-3) this(2,3) ds] show ?thesis using h more(1) es e(4,5) by auto
  qed
qed

text \<open>
  A start that fails after the client was created cannot be repeated. The handle stays set, so every later call of
  \<open>app_mqtt_start\<close> with a valid configuration returns ESP_ERR_INVALID_STATE, although the main loop retries until it succeeds.
\<close>

lemma failed_start_cannot_be_retried:
  assumes "app_mqtt_start True registered started (Some c) st = (err, st')" "err = registered \<or> err = started"
    and "\<not> s_client st" "registered \<noteq> ESP_OK \<or> started \<noteq> ESP_OK"
    and "broker_uri c = Some u" "u \<noteq> []" "command_topic c = Some t" "t \<noteq> []" "length t < APP_MQTT_COMMAND_TOPIC_SIZE"
  shows "err \<noteq> ESP_OK \<and> app_mqtt_start created registered' started' (Some c) st' = (ESP_ERR_INVALID_STATE, st')"
  using assms unfolding app_mqtt_start_def by (auto simp: Let_def split: if_split_asm)

section \<open>The generation of the connection\<close>

lemma handler_generation:
  "mqtt_event_handler e st = Some (fx, st') \<Longrightarrow>
   s_connection_generation st' = s_connection_generation st + (if e = MQTT_EVENT_CONNECTED then 1 else 0)"
  unfolding mqtt_event_handler_def handle_mqtt_data_def start_message_def append_fragment_def set_connection_state_def
  by (auto simp: Let_def bind_eq_Some_conv reset_incoming_command_def
      split: mqtt_event.splits option.splits if_split_asm sum.splits)

definition connections :: "mqtt_event list \<Rightarrow> nat" where
  "connections es = length (filter (\<lambda>e. e = MQTT_EVENT_CONNECTED) es)"

lemma run_generation:
  "run_mqtt es st = Some (fx, st') \<Longrightarrow> s_connection_generation st' = s_connection_generation st + of_nat (connections es)"
proof (induction es arbitrary: st fx)
  case (Cons e es)
  then obtain f1 s1 f2 where s: "mqtt_event_handler e st = Some (f1, s1)" "run_mqtt es s1 = Some (f2, st')"
    by (auto simp: bind_eq_Some_conv)
  show ?case using Cons.IH [OF s(2)] handler_generation [OF s(1)] by (simp add: connections_def)
qed (simp add: connections_def)

text \<open>
  A larger generation is a new connection. If the generation that is read after some events is larger than before
  them, then a connection was established in between; and the generation grows by exactly the number of connections, modulo 2^32.
\<close>

lemma newer_generation_is_new_connection:
  assumes "run_mqtt es st = Some (fx, st')"
  shows "snd (app_mqtt_get_connection_state st') = snd (app_mqtt_get_connection_state st) + of_nat (connections es) \<and>
    (snd (app_mqtt_get_connection_state st) < snd (app_mqtt_get_connection_state st') \<longrightarrow> MQTT_EVENT_CONNECTED \<in> set es)"
  using run_generation [OF assms] filter_empty_conv [of "\<lambda>e. e = MQTT_EVENT_CONNECTED" es]
  by (auto simp: app_mqtt_get_connection_state_def connections_def)

section \<open>Witnesses\<close>

definition sample_events :: "mqtt_event list" where
  "sample_events = MQTT_EVENT_CONNECTED # message_events ''cmd/kick'' ''{}'' [''  '']"

lemma sample_events_ok: "\<forall>e \<in> set sample_events. mqtt_event_ok e"
  by (simp add: sample_events_def message_events_def mqtt_event_ok_def event_ok_def)

definition sample_start :: app_mqtt_config where
  "sample_start = \<lparr>broker_uri = Some ''mqtt://broker'', command_topic = Some ''cmd/#'', command_handler = True\<rparr>"

lemma sample_delivery:
  assumes "session_ok st" "s_command_handler st"
  shows "\<exists>st'. run_mqtt sample_events st = Some ([Subscribe (s_command_topic st), Command ''cmd/kick'' ''{}  ''], st')"
proof -
  have "length (s_incoming_payload st) = 2048" using assms(1) by (simp add: session_ok_def)
  then show ?thesis
    using assms(2)
    by (simp add: sample_events_def message_events_def mqtt_event_handler_def set_connection_state_def handle_mqtt_data_def
        start_message_def append_fragment_def mqtt_sizes read_bytes_def reset_incoming_command_def Let_def write_at_def c_str_def
        NUL_char numeral_2_eq_2)
qed

lemma delivered_commands_are_messages_witness:
  "\<exists>st0 fx st. app_mqtt_start True ESP_OK ESP_OK (Some sample_start) mqtt_boot = (ESP_OK, st0) \<and>
     run_mqtt sample_events st0 = Some (fx, st) \<and> Command ''cmd/kick'' ''{}  '' \<in> set fx \<and> delivered (concat (map data_of sample_events)) fx"
proof -
  obtain st0 where s: "app_mqtt_start True ESP_OK ESP_OK (Some sample_start) mqtt_boot = (ESP_OK, st0)"
    by (simp add: app_mqtt_start_def sample_start_def mqtt_boot_def mqtt_sizes Let_def)
  have h: "command_handler sample_start" by (simp add: sample_start_def)
  obtain st' where "run_mqtt sample_events st0 = Some ([Subscribe (s_command_topic st0), Command ''cmd/kick'' ''{}  ''], st')"
    using sample_delivery [OF started_session(1) [OF s]] started_session(2) [OF s] h by auto
  then show ?thesis using delivered_commands_are_messages [OF s h sample_events_ok] s by auto
qed

lemma message_delivered_once_witness:
  "\<exists>st'. run_mqtt (message_events ''cmd/kick'' ''{}'' [''  '']) (mqtt_boot\<lparr>s_command_handler := True\<rparr>) =
     Some ([Command ''cmd/kick'' ''{}  ''], st')"
proof -
  have ok: "session_ok (mqtt_boot\<lparr>s_command_handler := True\<rparr>)" using boot_ok by (simp add: session_ok_def)
  show ?thesis
    using message_delivered_once [OF ok, of "''cmd/kick''" "''{}''" "[''  '']"] by (auto simp: c_str_def NUL_char)
qed

end
