(* ===== verification/Mac_Text.thy ===== *)
theory Mac_Text
  imports Client_Access Text_Format
begin

text \<open>
  MAC addresses as text, both ways. The firmware reports a client with \<open>mac_text\<close>; commands name a client with
  that text, which client\_access and wifi\_gateway parse.
\<close>

lemma hex_digit_char: "n < 16 \<Longrightarrow> hex_digit (hex_char n) = Some n"
  by (simp add: hex_digit_def hex_char_def Let_def)

lemma hex_char_code: "n < 16 \<Longrightarrow> char_code (hex_char n) = (if n < 10 then 48 + n else 55 + n)"
  by (simp add: hex_char_def)

lemma scan_2x_hex2: "scan_2x (hex2 b @ r) = Some (ucast b, r)"
proof -
  let ?h = "unat b div 16" and ?l = "unat b mod 16"
  have h: "?h < 16" "?l < 16" using unat_u8_lt [of b] by (simp_all add: div_less_iff_less_mult)
  have c: "\<not> is_space (hex_char ?h)" "hex_char ?h \<noteq> CHR ''+''" "hex_char ?h \<noteq> CHR ''-''"
    using hex_char_code [OF h(1)] by (auto simp: is_space_def char_code_def split: if_split_asm)
  have "16 * ?h + ?l = unat b" by simp
  then have "(of_nat (16 * ?h + ?l) :: u32) = ucast b" by (simp only: of_nat_unat)
  then show ?thesis
    using c unfolding scan_2x_def hex2_def by (simp add: hex_digit_char [OF h(1)] hex_digit_char [OF h(2)] del: of_nat_add of_nat_mult)
qed

text \<open>A client can be named by the text it is reported with.\<close>

lemma parse_printed_mac:
  assumes "length mac = 6"
  shows "parse_mac_address (Some (mac_text mac)) = Inr mac"
proof -
  obtain a b c d e f where mac: "mac = [a, b, c, d, e, f]" using six_bytes [OF assms] by blast
  have printed: "mac_text mac = hex2 a @ CHR '':'' # hex2 b @ CHR '':'' # hex2 c @ CHR '':'' # hex2 d @ CHR '':'' # hex2 e @
      CHR '':'' # hex2 f @ []" by (simp add: mac mac_text_def)
  have "scan_mac 5 (mac_text mac) = Some (map ucast mac)"
    unfolding printed by (simp add: eval_nat_numeral scan_mac.simps scan_2x_hex2 scan_2x_hex2 [of f "[]", simplified] mac)
  moreover have "\<not> list_ex (\<lambda>v. v > 0xFF) (map ucast mac :: u32 list)"
  proof -
    have "\<not> (ucast x :: u32) > 0xFF" for x :: u8
    proof -
      have "unat x < 2 ^ 32" using unat_u8_lt [of x] by (rule less_trans) simp
      then have "unat (ucast x :: u32) = unat x" by (simp add: unsigned_ucast_eq take_bit_nat_eq_self)
      then show ?thesis using unat_u8_lt [of x] by (simp add: word_less_nat_alt del: unat_u8_lt)
    qed
    then show ?thesis by (simp add: mac)
  qed
  moreover have "ucast (ucast x :: u32) = x" for x :: u8
    by (rule bit_word_eqI) (auto simp: bit_simps)
  then have "map ucast (map ucast mac :: u32 list) = mac" by (simp add: mac)
  ultimately show ?thesis
    unfolding parse_mac_address_def by (simp add: mac mac_text_def hex2_def)
qed

text \<open>
  The parser does not look behind the last number it reads: an address whose last digit is not hexadecimal is
  accepted as another address.
\<close>

lemma malformed_mac_accepted: "parse_mac_address (Some ''02:00:5E:10:00:FG'') = Inr [2, 0, 0x5E, 0x10, 0, 0x0F]"
proof -
  have "scan_mac 5 ''02:00:5E:10:00:FG'' = Some [2, 0, 0x5E, 0x10, 0, 0x0F]"
    by (simp add: eval_nat_numeral scan_mac.simps scan_2x_def hex_digit_def is_space_def char_code_def)
  then show ?thesis by (simp add: parse_mac_address_def word_less_nat_alt)
qed

end
