(* ===== verification/Wifi_Gateway.thy ===== *)
theory Wifi_Gateway
  imports Mac_Text
begin

text \<open>
  The access point and station state machine, components/wifi\_gateway/wifi\_gateway.c: the events of the Wi-Fi driver, the
  failure counters that decide on recovery, switching the station to other credentials, and the start of both interfaces.

  The driver and the network stack are parameters (\<open>wifi_driver\<close>: the results of the calls). What the device asks of the driver is
  kept in \<open>driver_calls\<close>, the newest first, so that the effects of an operation can be stated. Events are handled by another task; the model
  of \<open>wifi_gateway_connect_sta\<close> lets any events be handled while the driver disconnects.
\<close>

definition STA_CREDENTIAL_FAILURE_LIMIT :: u8 where "STA_CREDENTIAL_FAILURE_LIMIT = 3"

datatype wifi_gateway_status =
    WIFI_GATEWAY_STATUS_IDLE
  | WIFI_GATEWAY_STATUS_STARTING
  | WIFI_GATEWAY_STATUS_PROVISIONING
  | WIFI_GATEWAY_STATUS_STA_CONNECTING
  | WIFI_GATEWAY_STATUS_STA_CONNECTED
  | WIFI_GATEWAY_STATUS_STA_GOT_IP
  | WIFI_GATEWAY_STATUS_STA_DISCONNECTED
  | WIFI_GATEWAY_STATUS_STA_RECOVERY_REQUIRED
  | WIFI_GATEWAY_STATUS_STA_UNREACHABLE

text \<open>The reasons of a disconnection that the code names; every other one is \<open>WIFI_REASON_OTHER n\<close>.\<close>

datatype wifi_reason =
    WIFI_REASON_AUTH_FAIL | WIFI_REASON_4WAY_HANDSHAKE_TIMEOUT | WIFI_REASON_HANDSHAKE_TIMEOUT
  | WIFI_REASON_802_1X_AUTH_FAILED | WIFI_REASON_NO_AP_FOUND_W_COMPATIBLE_SECURITY
  | WIFI_REASON_NO_AP_FOUND_IN_AUTHMODE_THRESHOLD | WIFI_REASON_OTHER nat

datatype wifi_event =
    WIFI_EVENT_STA_CONNECTED | IP_EVENT_STA_GOT_IP u32 | WIFI_EVENT_STA_DISCONNECTED "wifi_reason option"
  | WIFI_EVENT_AP_STACONNECTED | WIFI_EVENT_AP_STADISCONNECTED | WIFI_EVENT_OTHER

datatype wifi_authmode = WIFI_AUTH_OPEN | WIFI_AUTH_WPA2_PSK
datatype wifi_mode = WIFI_MODE_AP | WIFI_MODE_APSTA

text \<open>The driver's configuration of the access point; texts without the zero bytes behind them.\<close>

record wifi_ap_config =
  ap_cfg_ssid :: string
  ap_cfg_ssid_len :: u8
  ap_cfg_channel :: u8
  ap_cfg_max_connection :: u8
  ap_cfg_password :: string
  ap_cfg_authmode :: wifi_authmode

datatype driver_call =
    Wifi_connect | Wifi_disconnect | Set_sta_config string string | Set_ap_config wifi_ap_config
  | Set_mode wifi_mode | Deauth u16 | Napt_enable | Wifi_start

record wifi_gateway_config =
  sta_enabled :: bool
  sta_ssid :: "string option"
  sta_password :: "string option"
  ap_ssid :: "string option"
  ap_password :: "string option"
  ap_max_connection :: u8

record wifi_driver =
  esp_netif_init :: esp_err
  esp_event_loop_create_default :: esp_err
  register_wifi_handler :: esp_err
  register_ip_handler :: esp_err
  esp_wifi_init :: esp_err
  esp_wifi_set_storage :: esp_err
  create_default_wifi_sta :: bool
  create_default_wifi_ap :: bool
  esp_wifi_set_mode :: esp_err
  esp_wifi_set_sta_config :: esp_err
  esp_wifi_set_ap_config :: esp_err
  esp_wifi_start :: esp_err
  esp_netif_napt_enable :: esp_err
  esp_wifi_connect :: esp_err
  esp_wifi_disconnect :: esp_err
  esp_wifi_ap_get_sta_aid :: "bytes \<Rightarrow> esp_err + u16"
  esp_wifi_deauth_sta :: esp_err
  ESP_ERR_ESP_NETIF_INIT_FAILED :: esp_err

text \<open>
  The number of clients is a C \<open>int\<close>: a word, read by \<open>sint\<close>. C leaves the overflow of its increment undefined; the model wraps, and what is
  proved about the number assumes fewer than \<open>2^31\<close> connections.
\<close>

record gateway =
  s_status :: wifi_gateway_status
  s_sta_ip :: string
  s_current_clients :: "32 word"
  s_sta_credential_failure_count :: u8
  s_sta_unreachable_count :: u8
  s_sta_reconfigure_pending :: bool
  driver_calls :: "driver_call list"

definition NO_IP :: string where "NO_IP = ''0.0.0.0''"

definition gateway_boot :: gateway where
  "gateway_boot =
     \<lparr>s_status = WIFI_GATEWAY_STATUS_IDLE, s_sta_ip = NO_IP, s_current_clients = 0, s_sta_credential_failure_count = 0,
      s_sta_unreachable_count = 0, s_sta_reconfigure_pending = False, driver_calls = []\<rparr>"

definition call :: "driver_call \<Rightarrow> gateway \<Rightarrow> gateway" where
  "call c st = st\<lparr>driver_calls := c # driver_calls st\<rparr>"

section \<open>Getters and names\<close>

definition wifi_gateway_set_status :: "wifi_gateway_status \<Rightarrow> gateway \<Rightarrow> gateway" where
  "wifi_gateway_set_status status st = st\<lparr>s_status := status\<rparr>"

definition wifi_gateway_get_status :: "gateway \<Rightarrow> wifi_gateway_status" where
  "wifi_gateway_get_status st = s_status st"

definition wifi_gateway_get_sta_ip :: "gateway \<Rightarrow> string" where
  "wifi_gateway_get_sta_ip st = s_sta_ip st"

definition wifi_gateway_get_current_clients :: "gateway \<Rightarrow> int" where
  "wifi_gateway_get_current_clients st = sint (s_current_clients st)"

fun wifi_gateway_status_to_string :: "wifi_gateway_status \<Rightarrow> string" where
  "wifi_gateway_status_to_string WIFI_GATEWAY_STATUS_IDLE = ''IDLE''"
| "wifi_gateway_status_to_string WIFI_GATEWAY_STATUS_STARTING = ''STARTING''"
| "wifi_gateway_status_to_string WIFI_GATEWAY_STATUS_PROVISIONING = ''PROVISIONING''"
| "wifi_gateway_status_to_string WIFI_GATEWAY_STATUS_STA_CONNECTING = ''STA_CONNECTING''"
| "wifi_gateway_status_to_string WIFI_GATEWAY_STATUS_STA_CONNECTED = ''STA_CONNECTED''"
| "wifi_gateway_status_to_string WIFI_GATEWAY_STATUS_STA_GOT_IP = ''STA_GOT_IP''"
| "wifi_gateway_status_to_string WIFI_GATEWAY_STATUS_STA_DISCONNECTED = ''STA_DISCONNECTED''"
| "wifi_gateway_status_to_string WIFI_GATEWAY_STATUS_STA_RECOVERY_REQUIRED = ''STA_RECOVERY_REQUIRED''"
| "wifi_gateway_status_to_string WIFI_GATEWAY_STATUS_STA_UNREACHABLE = ''STA_UNREACHABLE''"

fun is_sta_credential_failure :: "wifi_reason \<Rightarrow> bool" where
  "is_sta_credential_failure WIFI_REASON_AUTH_FAIL = True"
| "is_sta_credential_failure WIFI_REASON_4WAY_HANDSHAKE_TIMEOUT = True"
| "is_sta_credential_failure WIFI_REASON_HANDSHAKE_TIMEOUT = True"
| "is_sta_credential_failure WIFI_REASON_802_1X_AUTH_FAILED = True"
| "is_sta_credential_failure WIFI_REASON_NO_AP_FOUND_W_COMPATIBLE_SECURITY = True"
| "is_sta_credential_failure WIFI_REASON_NO_AP_FOUND_IN_AUTHMODE_THRESHOLD = True"
| "is_sta_credential_failure (WIFI_REASON_OTHER n) = False"

section \<open>Disconnecting a client\<close>

definition gateway_parse_mac_address :: "string option \<Rightarrow> esp_err + bytes" where
  "gateway_parse_mac_address given =
     (case given of
        None \<Rightarrow> Inl ESP_ERR_INVALID_ARG
      | Some t \<Rightarrow>
          if length t \<noteq> 17 \<or> t ! 2 \<noteq> CHR '':'' \<or> t ! 5 \<noteq> CHR '':'' \<or> t ! 8 \<noteq> CHR '':'' \<or>
             t ! 11 \<noteq> CHR '':'' \<or> t ! 14 \<noteq> CHR '':''
          then Inl ESP_ERR_INVALID_ARG
          else (case scan_mac 5 t of
                  None \<Rightarrow> Inl ESP_ERR_INVALID_ARG
                | Some parts \<Rightarrow>
                    if list_ex (\<lambda>v. v > 0xFF) parts then Inl ESP_ERR_INVALID_ARG else Inr (map ucast parts)))"

definition wifi_gateway_disconnect_client :: "wifi_driver \<Rightarrow> string option \<Rightarrow> gateway \<Rightarrow> esp_err \<times> gateway" where
  "wifi_gateway_disconnect_client drv given st =
     (case gateway_parse_mac_address given of
        Inl err \<Rightarrow> (err, st)
      | Inr mac \<Rightarrow>
          (case esp_wifi_ap_get_sta_aid drv mac of
             Inl err \<Rightarrow> (err, st)
           | Inr aid \<Rightarrow> (esp_wifi_deauth_sta drv, call (Deauth aid) st)))"

section \<open>The configuration\<close>

definition validate_config :: "wifi_gateway_config option \<Rightarrow> esp_err" where
  "validate_config config =
     (case config of
        None \<Rightarrow> ESP_ERR_INVALID_ARG
      | Some c \<Rightarrow>
          if sta_enabled c \<and>
             (case (sta_ssid c, sta_password c) of
                (Some s, Some p) \<Rightarrow>
                  (let ssid_length = c_strnlen s 33; password_length = c_strnlen p 64
                   in ssid_length = 0 \<or> ssid_length > 32 \<or> password_length > 63 \<or>
                      (password_length > 0 \<and> password_length < 8))
              | _ \<Rightarrow> True)
          then ESP_ERR_INVALID_ARG
          else (case ap_ssid c of
                  None \<Rightarrow> ESP_ERR_INVALID_ARG
                | Some a \<Rightarrow>
                    if length (c_str a) = 0 then ESP_ERR_INVALID_ARG
                    else (case ap_password c of
                            None \<Rightarrow> ESP_OK
                          | Some p \<Rightarrow>
                              if length (c_str p) > 0 \<and> length (c_str p) < 8 then ESP_ERR_INVALID_ARG else ESP_OK)))"

definition configure_sta_credentials ::
  "wifi_driver \<Rightarrow> string option \<Rightarrow> string option \<Rightarrow> gateway \<Rightarrow> esp_err \<times> gateway" where
  "configure_sta_credentials drv ssid password st =
     (let err = validate_config (Some \<lparr>sta_enabled = True, sta_ssid = ssid, sta_password = password,
            ap_ssid = Some ''validation'', ap_password = Some [], ap_max_connection = 1\<rparr>) in
      if err \<noteq> ESP_OK then (err, st)
      else (esp_wifi_set_sta_config drv, call (Set_sta_config (c_str (the ssid)) (c_str (the password))) st))"

definition configure_sta :: "wifi_driver \<Rightarrow> wifi_gateway_config option \<Rightarrow> gateway \<Rightarrow> esp_err \<times> gateway" where
  "configure_sta drv config st =
     (case config of
        None \<Rightarrow> (ESP_ERR_INVALID_ARG, st)
      | Some c \<Rightarrow> configure_sta_credentials drv (sta_ssid c) (sta_password c) st)"

text \<open>The arrays of the driver have 32 and 64 bytes; the copies leave room for a terminator.\<close>

definition driver_ap_config :: "string \<Rightarrow> string option \<Rightarrow> u8 \<Rightarrow> wifi_ap_config" where
  "driver_ap_config ssid password max_connection =
     \<lparr>ap_cfg_ssid = take 31 (c_str ssid), ap_cfg_ssid_len = of_nat (length (c_str ssid)), ap_cfg_channel = 1,
      ap_cfg_max_connection = max_connection,
      ap_cfg_password = (case password of Some p \<Rightarrow> take 63 (c_str p) | None \<Rightarrow> []),
      ap_cfg_authmode = (if (case password of Some p \<Rightarrow> length (c_str p) > 0 | None \<Rightarrow> False)
                         then WIFI_AUTH_WPA2_PSK else WIFI_AUTH_OPEN)\<rparr>"

definition configure_ap :: "wifi_driver \<Rightarrow> wifi_gateway_config option \<Rightarrow> gateway \<Rightarrow> esp_err \<times> gateway" where
  "configure_ap drv config st =
     (case config of
        None \<Rightarrow> (ESP_ERR_INVALID_ARG, st)
      | Some c \<Rightarrow>
          (esp_wifi_set_ap_config drv,
           call (Set_ap_config (driver_ap_config (the (ap_ssid c)) (ap_password c) (ap_max_connection c))) st))"

section \<open>Events\<close>

definition count_failure :: "u8 \<Rightarrow> u8" where
  "count_failure n = (if n < STA_CREDENTIAL_FAILURE_LIMIT then n + 1 else n)"

text \<open>The station lost its connection on its own; \<open>connected\<close> is the result of \<open>esp_wifi_connect\<close>.\<close>

definition sta_disconnected :: "esp_err \<Rightarrow> wifi_reason option \<Rightarrow> gateway \<Rightarrow> gateway" where
  "sta_disconnected connected event st =
     (let st = (case event of
                  None \<Rightarrow> st
                | Some reason \<Rightarrow>
                    if is_sta_credential_failure reason
                    then st\<lparr>s_sta_credential_failure_count := count_failure (s_sta_credential_failure_count st)\<rparr>
                    else st\<lparr>s_sta_unreachable_count := count_failure (s_sta_unreachable_count st)\<rparr>);
          credential_recovery = (event \<noteq> None \<and> s_sta_credential_failure_count st \<ge> STA_CREDENTIAL_FAILURE_LIMIT);
          unreachable_recovery = (event \<noteq> None \<and> s_sta_unreachable_count st \<ge> STA_CREDENTIAL_FAILURE_LIMIT);
          st = st\<lparr>s_sta_ip := NO_IP\<rparr>
      in if credential_recovery then st\<lparr>s_status := WIFI_GATEWAY_STATUS_STA_RECOVERY_REQUIRED\<rparr>
         else if unreachable_recovery then st\<lparr>s_status := WIFI_GATEWAY_STATUS_STA_UNREACHABLE\<rparr>
         else (let st = call Wifi_connect (st\<lparr>s_status := WIFI_GATEWAY_STATUS_STA_DISCONNECTED\<rparr>) in
               if connected = ESP_OK then st\<lparr>s_status := WIFI_GATEWAY_STATUS_STA_CONNECTING\<rparr>
               else st\<lparr>s_status := WIFI_GATEWAY_STATUS_STA_DISCONNECTED\<rparr>))"

text \<open>The station was disconnected to change its credentials.\<close>

definition sta_reconfigured :: "esp_err \<Rightarrow> gateway \<Rightarrow> gateway" where
  "sta_reconfigured connected st =
     (let st = call Wifi_connect (st\<lparr>s_sta_reconfigure_pending := False, s_sta_credential_failure_count := 0,
                                     s_sta_unreachable_count := 0, s_sta_ip := NO_IP\<rparr>) in
      st\<lparr>s_status := (if connected = ESP_OK then WIFI_GATEWAY_STATUS_STA_CONNECTING
                      else WIFI_GATEWAY_STATUS_STA_DISCONNECTED)\<rparr>)"

definition wifi_event_handler :: "esp_err \<Rightarrow> wifi_event \<Rightarrow> gateway \<Rightarrow> gateway" where
  "wifi_event_handler connected event st =
     (case event of
        WIFI_EVENT_STA_CONNECTED \<Rightarrow>
          st\<lparr>s_sta_credential_failure_count := 0, s_sta_unreachable_count := 0,
             s_status := WIFI_GATEWAY_STATUS_STA_CONNECTED\<rparr>
      | IP_EVENT_STA_GOT_IP ip \<Rightarrow>
          st\<lparr>s_status := WIFI_GATEWAY_STATUS_STA_GOT_IP, s_sta_ip := take 15 (ip4_text ip)\<rparr>
      | WIFI_EVENT_STA_DISCONNECTED event \<Rightarrow>
          if s_sta_reconfigure_pending st then sta_reconfigured connected st else sta_disconnected connected event st
      | WIFI_EVENT_AP_STACONNECTED \<Rightarrow> st\<lparr>s_current_clients := s_current_clients st + 1\<rparr>
      | WIFI_EVENT_AP_STADISCONNECTED \<Rightarrow>
          if sint (s_current_clients st) > 0 then st\<lparr>s_current_clients := s_current_clients st - 1\<rparr> else st
      | WIFI_EVENT_OTHER \<Rightarrow> st)"

text \<open>Events, each with the result of the connection request its handler may make.\<close>

type_synonym wifi_trace = "(esp_err \<times> wifi_event) list"

definition handle_events :: "wifi_trace \<Rightarrow> gateway \<Rightarrow> gateway" where
  "handle_events = fold (\<lambda>(connected, event). wifi_event_handler connected event)"

section \<open>Connecting and starting\<close>

definition connect_sta :: "wifi_driver \<Rightarrow> gateway \<Rightarrow> esp_err \<times> gateway" where
  "connect_sta drv st =
     (let err = esp_wifi_connect drv; st = call Wifi_connect st in
      if err \<noteq> ESP_OK then (err, st) else (ESP_OK, st\<lparr>s_status := WIFI_GATEWAY_STATUS_STA_CONNECTING\<rparr>))"

text \<open>\<open>during\<close> are the events that are handled while \<open>esp_wifi_disconnect\<close> runs.\<close>

definition wifi_gateway_connect_sta ::
  "wifi_driver \<Rightarrow> wifi_trace \<Rightarrow> string option \<Rightarrow> string option \<Rightarrow> gateway \<Rightarrow> esp_err \<times> gateway" where
  "wifi_gateway_connect_sta drv during ssid password st =
     (case configure_sta_credentials drv ssid password st of (err, st) \<Rightarrow>
        if err \<noteq> ESP_OK then (err, st)
        else
          (let st = st\<lparr>s_sta_credential_failure_count := 0, s_sta_unreachable_count := 0, s_sta_ip := NO_IP,
                       s_sta_reconfigure_pending := True\<rparr>;
               st = handle_events during (call Wifi_disconnect st);
               err = esp_wifi_disconnect drv
           in if err = ESP_OK then (ESP_OK, st\<lparr>s_status := WIFI_GATEWAY_STATUS_STA_CONNECTING\<rparr>)
              else (let st = st\<lparr>s_sta_reconfigure_pending := False\<rparr> in
                    if err \<noteq> ESP_ERR_WIFI_NOT_CONNECT then (err, st) else connect_sta drv st)))"

definition init_network_stack :: "wifi_driver \<Rightarrow> gateway \<Rightarrow> esp_err \<times> gateway" where
  "init_network_stack drv st =
     (if esp_netif_init drv \<noteq> ESP_OK then (esp_netif_init drv, st) else (esp_event_loop_create_default drv, st))"

definition register_event_handlers :: "wifi_driver \<Rightarrow> gateway \<Rightarrow> esp_err \<times> gateway" where
  "register_event_handlers drv st =
     (if register_wifi_handler drv \<noteq> ESP_OK then (register_wifi_handler drv, st) else (register_ip_handler drv, st))"

definition init_wifi_driver :: "wifi_driver \<Rightarrow> gateway \<Rightarrow> esp_err \<times> gateway" where
  "init_wifi_driver drv st =
     (if esp_wifi_init drv \<noteq> ESP_OK then (esp_wifi_init drv, st) else (esp_wifi_set_storage drv, st))"

definition create_wifi_netifs :: "wifi_driver \<Rightarrow> bool \<Rightarrow> gateway \<Rightarrow> esp_err \<times> gateway" where
  "create_wifi_netifs drv enabled st =
     (if enabled \<and> \<not> create_default_wifi_sta drv then (ESP_ERR_ESP_NETIF_INIT_FAILED drv, st)
      else if \<not> create_default_wifi_ap drv then (ESP_ERR_ESP_NETIF_INIT_FAILED drv, st) else (ESP_OK, st))"

definition set_wifi_mode :: "wifi_driver \<Rightarrow> bool \<Rightarrow> gateway \<Rightarrow> esp_err \<times> gateway" where
  "set_wifi_mode drv enabled st =
     (esp_wifi_set_mode drv, call (Set_mode (if enabled then WIFI_MODE_APSTA else WIFI_MODE_AP)) st)"

definition start_wifi :: "wifi_driver \<Rightarrow> gateway \<Rightarrow> esp_err \<times> gateway" where
  "start_wifi drv st = (esp_wifi_start drv, call Wifi_start st)"

definition enable_softap_napt :: "wifi_driver \<Rightarrow> gateway \<Rightarrow> esp_err \<times> gateway" where
  "enable_softap_napt drv st = (esp_netif_napt_enable drv, call Napt_enable st)"

definition wifi_gateway_start :: "wifi_driver \<Rightarrow> wifi_gateway_config option \<Rightarrow> gateway \<Rightarrow> esp_err \<times> gateway" where
  "wifi_gateway_start drv config st =
     (if validate_config config \<noteq> ESP_OK then (validate_config config, st)
      else
        (let enabled = sta_enabled (the config) in
         fold if_ok
           [init_network_stack drv,
            register_event_handlers drv,
            init_wifi_driver drv,
            create_wifi_netifs drv enabled,
            set_wifi_mode drv enabled,
            \<lambda>st. if enabled then configure_sta drv config st else (ESP_OK, st),
            configure_ap drv config,
            start_wifi drv,
            \<lambda>st. if enabled then fold if_ok [enable_softap_napt drv, connect_sta drv] (ESP_OK, st)
                 else (ESP_OK, st\<lparr>s_status := WIFI_GATEWAY_STATUS_PROVISIONING\<rparr>)]
           (ESP_OK, st\<lparr>s_status := WIFI_GATEWAY_STATUS_STARTING\<rparr>)))"

end
