(* ===== verification/Gateway_Runs.thy ===== *)
theory Gateway_Runs
  imports Wifi_Gateway
begin

text \<open>
  Runs of the Wi-Fi state machine: the state keeps its ranges and the number of clients is the one of the trace, the counters of failures
  are counts of the trace since the last connection, three consecutive failures decide on recovery, and the switch to other
  credentials does not count its own disconnection.
\<close>

section \<open>The invariant of the state\<close>

definition gateway_ok :: "gateway \<Rightarrow> bool" where
  "gateway_ok st \<longleftrightarrow> s_sta_credential_failure_count st \<le> 3 \<and> s_sta_unreachable_count st \<le> 3 \<and> 0 \<le> sint (s_current_clients st) \<and>
     length (s_sta_ip st) \<le> 15"

lemma call_simps [simp]:
  "s_status (call c st) = s_status st" "s_sta_ip (call c st) = s_sta_ip st" "s_current_clients (call c st) = s_current_clients st"
  "s_sta_credential_failure_count (call c st) = s_sta_credential_failure_count st"
  "s_sta_unreachable_count (call c st) = s_sta_unreachable_count st"
  "s_sta_reconfigure_pending (call c st) = s_sta_reconfigure_pending st" "driver_calls (call c st) = c # driver_calls st"
  by (simp_all add: call_def)

lemma NO_IP_length: "length NO_IP = 7"
  by (simp add: NO_IP_def)

lemma count_failure_le: "n \<le> 3 \<Longrightarrow> count_failure n \<le> 3"
proof -
  have "n + 1 \<le> 3" if "n < (3 :: u8)" using that by (rule inc_le)
  then show "n \<le> 3 \<Longrightarrow> count_failure n \<le> 3" by (simp add: count_failure_def STA_CREDENTIAL_FAILURE_LIMIT_def)
qed

lemma unat_count_failure: "unat n \<le> 3 \<Longrightarrow> unat (count_failure n) = min 3 (Suc (unat n))"
proof -
  assume n: "unat n \<le> 3"
  then have "unat (n + 1) = unat n + 1" by (simp add: unat_word_ariths)
  then show ?thesis using n by (auto simp: count_failure_def STA_CREDENTIAL_FAILURE_LIMIT_def word_less_nat_alt)
qed

text \<open>The number of clients, counted in unbounded integers: it grows with each that connects and does not fall below zero.\<close>

fun stations :: "int \<Rightarrow> wifi_trace \<Rightarrow> int" where
  "stations n [] = n"
| "stations n ((c, e) # es) =
     stations (if e = WIFI_EVENT_AP_STACONNECTED then n + 1 else if e = WIFI_EVENT_AP_STADISCONNECTED then max 0 (n - 1) else n) es"

definition joins :: "wifi_trace \<Rightarrow> nat" where
  "joins es = length (filter (\<lambda>(c, e). e = WIFI_EVENT_AP_STACONNECTED) es)"

lemma sint_step:
  fixes x :: "32 word"
  shows "sint x + 1 < 2 ^ 31 \<Longrightarrow> sint (x + 1) = sint x + 1" "0 < sint x \<Longrightarrow> sint (x - 1) = sint x - 1"
  using sint_ge [of x] sint_lt [of x] by (simp_all add: sint_word_ariths signed_take_bit_int_eq_self)

lemma event_ok_step:
  assumes "gateway_ok st" "e = WIFI_EVENT_AP_STACONNECTED \<Longrightarrow> sint (s_current_clients st) + 1 < 2 ^ 31"
  shows "gateway_ok (wifi_event_handler c e st)"
    "sint (s_current_clients (wifi_event_handler c e st)) = stations (sint (s_current_clients st)) [(c, e)]"
  using assms unfolding wifi_event_handler_def sta_reconfigured_def sta_disconnected_def gateway_ok_def
  by (auto simp: Let_def count_failure_le NO_IP_length sint_step split: wifi_event.split option.split)

lemma handle_events_ok:
  assumes "gateway_ok st" "sint (s_current_clients st) + int (joins es) < 2 ^ 31"
  shows "gateway_ok (handle_events es st) \<and>
    sint (s_current_clients (handle_events es st)) = stations (sint (s_current_clients st)) es \<and>
    stations (sint (s_current_clients st)) es \<le> sint (s_current_clients st) + int (joins es)"
  using assms
proof (induction es arbitrary: st)
  case Nil
  then show ?case by (simp add: handle_events_def joins_def)
next
  case (Cons x es)
  obtain c e where x: "x = (c, e)" by (cases x)
  let ?s = "wifi_event_handler c e st"
  have room: "e = WIFI_EVENT_AP_STACONNECTED \<Longrightarrow> sint (s_current_clients st) + 1 < 2 ^ 31"
    using Cons.prems(2) by (simp add: x joins_def)
  have step: "gateway_ok ?s" "sint (s_current_clients ?s) = stations (sint (s_current_clients st)) [x]"
    using event_ok_step [OF Cons.prems(1), of e c] room by (simp_all add: x)
  have n: "0 \<le> sint (s_current_clients st)" using Cons.prems(1) by (simp add: gateway_ok_def)
  have le: "sint (s_current_clients ?s) + int (joins es) \<le> sint (s_current_clients st) + int (joins (x # es))"
    using step(2) n by (auto simp: x joins_def)
  have "stations (sint (s_current_clients st)) (x # es) = stations (sint (s_current_clients ?s)) es" by (simp add: step(2) x)
  moreover have "handle_events (x # es) st = handle_events es ?s" by (simp add: handle_events_def x)
  ultimately show ?case using Cons.IH [OF step(1)] Cons.prems(2) le by simp
qed

lemma sta_config_ok: "configure_sta_credentials drv s p st = (err, st') \<Longrightarrow>
    s_status st' = s_status st \<and> s_sta_ip st' = s_sta_ip st \<and> s_current_clients st' = s_current_clients st \<and>
    s_sta_credential_failure_count st' = s_sta_credential_failure_count st \<and>
    s_sta_unreachable_count st' = s_sta_unreachable_count st \<and> s_sta_reconfigure_pending st' = s_sta_reconfigure_pending st"
  by (auto simp: configure_sta_credentials_def Let_def split: if_split_asm)

section \<open>The counters count\<close>

fun is_credential_failure :: "wifi_event \<Rightarrow> bool" where
  "is_credential_failure (WIFI_EVENT_STA_DISCONNECTED (Some r)) = is_sta_credential_failure r"
| "is_credential_failure _ = False"

fun is_other_failure :: "wifi_event \<Rightarrow> bool" where
  "is_other_failure (WIFI_EVENT_STA_DISCONNECTED (Some r)) = (\<not> is_sta_credential_failure r)"
| "is_other_failure _ = False"

definition failures :: "(wifi_event \<Rightarrow> bool) \<Rightarrow> wifi_trace \<Rightarrow> nat" where
  "failures P es = length (filter (P \<circ> snd) es)"

text \<open>The part of a trace after the last connection of the station.\<close>

definition since_connected :: "wifi_trace \<Rightarrow> wifi_trace" where
  "since_connected es = rev (takeWhile (\<lambda>(c, e). e \<noteq> WIFI_EVENT_STA_CONNECTED) (rev es))"

lemma since_connected_snoc:
  "since_connected (es @ [(c, e)]) = (if e = WIFI_EVENT_STA_CONNECTED then [] else since_connected es @ [(c, e)])"
  by (simp add: since_connected_def)

lemma failures_snoc: "failures P (es @ [(c, e)]) = failures P es + (if P e then 1 else 0)"
  by (simp add: failures_def)

lemma handle_events_snoc: "handle_events (es @ [(c, e)]) st = wifi_event_handler c e (handle_events es st)"
  by (simp add: handle_events_def)

lemma disconnected_fields:
  "s_sta_reconfigure_pending (sta_disconnected c r st) = s_sta_reconfigure_pending st"
  "s_sta_credential_failure_count (sta_disconnected c r st) =
    (if is_credential_failure (WIFI_EVENT_STA_DISCONNECTED r) then count_failure (s_sta_credential_failure_count st)
     else s_sta_credential_failure_count st)"
  "s_sta_unreachable_count (sta_disconnected c r st) =
    (if is_other_failure (WIFI_EVENT_STA_DISCONNECTED r) then count_failure (s_sta_unreachable_count st)
     else s_sta_unreachable_count st)"
  by (cases r; simp add: sta_disconnected_def Let_def)+

definition fresh_gateway :: "gateway \<Rightarrow> bool" where
  "fresh_gateway st \<longleftrightarrow> s_sta_credential_failure_count st = 0 \<and> s_sta_unreachable_count st = 0 \<and> \<not> s_sta_reconfigure_pending st"

lemma counters_count:
  assumes "fresh_gateway st"
  shows "\<not> s_sta_reconfigure_pending (handle_events es st) \<and>
    unat (s_sta_credential_failure_count (handle_events es st)) = min 3 (failures is_credential_failure (since_connected es)) \<and>
    unat (s_sta_unreachable_count (handle_events es st)) = min 3 (failures is_other_failure (since_connected es))"
proof (induction es rule: rev_induct)
  case Nil
  then show ?case using assms by (simp add: handle_events_def fresh_gateway_def since_connected_def failures_def)
next
  case (snoc x es)
  obtain c e where x: "x = (c, e)" by (cases x)
  let ?s = "handle_events es st"
  have ih: "\<not> s_sta_reconfigure_pending ?s"
      "unat (s_sta_credential_failure_count ?s) = min 3 (failures is_credential_failure (since_connected es))"
      "unat (s_sta_unreachable_count ?s) = min 3 (failures is_other_failure (since_connected es))"
    using snoc.IH by simp_all
  show ?case
  proof (cases e)
    case (WIFI_EVENT_STA_DISCONNECTED r)
    have "unat (count_failure (s_sta_credential_failure_count ?s)) = min 3 (Suc (failures is_credential_failure (since_connected es)))"
        "unat (count_failure (s_sta_unreachable_count ?s)) = min 3 (Suc (failures is_other_failure (since_connected es)))"
      using ih(2,3) by (simp_all add: unat_count_failure)
    then show ?thesis
      using ih unfolding x handle_events_snoc since_connected_snoc
      by (simp add: WIFI_EVENT_STA_DISCONNECTED wifi_event_handler_def disconnected_fields failures_snoc)
  qed (use ih in \<open>simp_all add: x handle_events_snoc since_connected_snoc failures_snoc wifi_event_handler_def
      fresh_gateway_def failures_def\<close>)
qed

lemma limit_unat: "(x :: u8) \<ge> STA_CREDENTIAL_FAILURE_LIMIT \<longleftrightarrow> unat x \<ge> 3"
  by (simp add: STA_CREDENTIAL_FAILURE_LIMIT_def word_le_nat_alt)

lemma disconnected_decision:
  fixes st c r
  defines "t \<equiv> sta_disconnected c (Some r) st"
  shows "s_status t = (if unat (s_sta_credential_failure_count t) \<ge> 3 then WIFI_GATEWAY_STATUS_STA_RECOVERY_REQUIRED
      else if unat (s_sta_unreachable_count t) \<ge> 3 then WIFI_GATEWAY_STATUS_STA_UNREACHABLE
      else if c = ESP_OK then WIFI_GATEWAY_STATUS_STA_CONNECTING else WIFI_GATEWAY_STATUS_STA_DISCONNECTED)"
    "driver_calls t = (if unat (s_sta_credential_failure_count t) \<ge> 3 \<or> unat (s_sta_unreachable_count t) \<ge> 3
      then driver_calls st else Wifi_connect # driver_calls st)"
  unfolding t_def sta_disconnected_def limit_unat [symmetric] by (simp_all add: Let_def)

section \<open>Switching the credentials\<close>

lemma valid_credentials_set:
  "validate_config (Some \<lparr>sta_enabled = True, sta_ssid = Some i, sta_password = Some p, ap_ssid = Some ''validation'',
     ap_password = Some [], ap_max_connection = 1\<rparr>) = ESP_OK \<Longrightarrow>
   configure_sta_credentials drv (Some i) (Some p) st = (esp_wifi_set_sta_config drv, call (Set_sta_config (c_str i) (c_str p)) st)"
  by (simp add: configure_sta_credentials_def)

definition credentials_valid :: "string \<Rightarrow> string \<Rightarrow> bool" where
  "credentials_valid i p \<longleftrightarrow> (let n = c_strnlen i 33; m = c_strnlen p 64 in n \<noteq> 0 \<and> n \<le> 32 \<and> m \<le> 63 \<and> (m = 0 \<or> 8 \<le> m))"

lemma validate_credentials:
  "validate_config (Some \<lparr>sta_enabled = True, sta_ssid = Some i, sta_password = Some p, ap_ssid = Some ''validation'',
     ap_password = Some [], ap_max_connection = 1\<rparr>) = ESP_OK \<longleftrightarrow> credentials_valid i p"
  by (auto simp: validate_config_def credentials_valid_def Let_def c_str_def NUL_char)

section \<open>Properties\<close>

text \<open>
  C37: the fields of the state keep their ranges. Every sequence of events, every operation and every start, whatever the driver
  answers, keeps both counters at most 3 and the text of the address within its 16 bytes. As long as the C integer has room for the
  clients that connect, the number of clients is the number that unbounded integers would count: not negative, and at most that of the connections.
\<close>

theorem gateway_ok_preserved:
  assumes "gateway_ok st" "wifi_gateway_get_current_clients st + int (joins es) < 2 ^ 31"
  shows "gateway_ok (handle_events es st) \<and>
    wifi_gateway_get_current_clients (handle_events es st) = stations (wifi_gateway_get_current_clients st) es \<and>
    wifi_gateway_get_current_clients (handle_events es st) \<in> {0..wifi_gateway_get_current_clients st + int (joins es)} \<and>
    gateway_ok (wifi_gateway_set_status status st) \<and>
    gateway_ok (snd (wifi_gateway_disconnect_client drv mac st)) \<and>
    gateway_ok (snd (wifi_gateway_connect_sta drv es i p st)) \<and>
    gateway_ok (snd (wifi_gateway_start drv config st))"
proof (intro conjI)
  have call: "gateway_ok (call x s) = gateway_ok s" "gateway_ok (s\<lparr>s_status := w\<rparr>) = gateway_ok s"
      "gateway_ok (s\<lparr>s_sta_reconfigure_pending := b\<rparr>) = gateway_ok s" for x s w b
    by (simp_all add: gateway_ok_def)
  have sta: "gateway_ok (snd (configure_sta_credentials drv a b s)) = gateway_ok s" for a b s
    by (simp add: configure_sta_credentials_def Let_def call)
  have con: "gateway_ok (snd (connect_sta drv s)) = gateway_ok s" for s
    by (simp add: connect_sta_def Let_def call)
  have ev: "gateway_ok (handle_events es st) \<and>
      sint (s_current_clients (handle_events es st)) = stations (sint (s_current_clients st)) es \<and>
      stations (sint (s_current_clients st)) es \<le> sint (s_current_clients st) + int (joins es)"
    using assms by (intro handle_events_ok) (simp_all add: wifi_gateway_get_current_clients_def)
  show "gateway_ok (handle_events es st)" using ev by blast
  show "wifi_gateway_get_current_clients (handle_events es st) = stations (wifi_gateway_get_current_clients st) es"
    "wifi_gateway_get_current_clients (handle_events es st) \<in> {0..wifi_gateway_get_current_clients st + int (joins es)}"
    using ev by (simp_all add: wifi_gateway_get_current_clients_def gateway_ok_def)
  show "gateway_ok (wifi_gateway_set_status status st)" using assms(1) by (simp add: wifi_gateway_set_status_def call)
  show "gateway_ok (snd (wifi_gateway_disconnect_client drv mac st))"
    using assms(1) by (simp add: wifi_gateway_disconnect_client_def call split: sum.split)
  show "gateway_ok (snd (wifi_gateway_connect_sta drv es i p st))"
  proof -
    obtain err s1 where c: "configure_sta_credentials drv i p st = (err, s1)" by fastforce
    have s1: "gateway_ok s1" "s_current_clients s1 = s_current_clients st"
      using sta [of i p st] assms(1) c sta_config_ok [OF c] by simp_all
    let ?s = "call Wifi_disconnect (s1\<lparr>s_sta_credential_failure_count := 0, s_sta_unreachable_count := 0,
        s_sta_ip := NO_IP, s_sta_reconfigure_pending := True\<rparr>)"
    have "gateway_ok ?s" using s1 by (simp add: gateway_ok_def NO_IP_length)
    moreover have "sint (s_current_clients ?s) + int (joins es) < 2 ^ 31"
      using assms(2) s1 by (simp add: wifi_gateway_get_current_clients_def)
    ultimately show ?thesis
      using handle_events_ok [of ?s es] s1(1) unfolding wifi_gateway_connect_sta_def c by (simp add: Let_def call con split: if_split)
  qed
  have steps: "gateway_ok (snd (init_network_stack drv s)) = gateway_ok s" "gateway_ok (snd (register_event_handlers drv s)) = gateway_ok s"
      "gateway_ok (snd (init_wifi_driver drv s)) = gateway_ok s" "gateway_ok (snd (create_wifi_netifs drv b s)) = gateway_ok s"
      "gateway_ok (snd (set_wifi_mode drv b s)) = gateway_ok s" "gateway_ok (snd (configure_sta drv x s)) = gateway_ok s"
      "gateway_ok (snd (configure_ap drv x s)) = gateway_ok s" "gateway_ok (snd (start_wifi drv s)) = gateway_ok s"
      "gateway_ok (snd (enable_softap_napt drv s)) = gateway_ok s" for s b x
    by (simp_all add: init_network_stack_def register_event_handlers_def init_wifi_driver_def create_wifi_netifs_def
        set_wifi_mode_def configure_sta_def configure_ap_def start_wifi_def enable_softap_napt_def call sta split: option.split)
  show "gateway_ok (snd (wifi_gateway_start drv config st))"
    unfolding wifi_gateway_start_def Let_def
    using assms(1) by (auto simp: steps con call intro!: if_ok_keeps [where P = gateway_ok])
qed

text \<open>What the counters decide after a disconnection with a reason: recovery by the failures of each kind since the last connection.\<close>

lemma recovery_decision_by_counts:
  assumes "fresh_gateway st" "trace = es @ [(c, WIFI_EVENT_STA_DISCONNECTED (Some r))]"
  shows "let credential = failures is_credential_failure (since_connected trace);
             other = failures is_other_failure (since_connected trace);
             st' = handle_events trace st
    in s_status st' = (if credential \<ge> 3 then WIFI_GATEWAY_STATUS_STA_RECOVERY_REQUIRED
        else if other \<ge> 3 then WIFI_GATEWAY_STATUS_STA_UNREACHABLE
        else if c = ESP_OK then WIFI_GATEWAY_STATUS_STA_CONNECTING else WIFI_GATEWAY_STATUS_STA_DISCONNECTED) \<and>
      driver_calls st' = (if credential \<ge> 3 \<or> other \<ge> 3 then driver_calls (handle_events es st)
        else Wifi_connect # driver_calls (handle_events es st))"
proof -
  have p: "\<not> s_sta_reconfigure_pending (handle_events es st)" using counters_count [OF assms(1), of es] by simp
  then have t: "handle_events trace st = sta_disconnected c (Some r) (handle_events es st)"
    by (simp add: assms(2) handle_events_snoc wifi_event_handler_def)
  have "unat (s_sta_credential_failure_count (handle_events trace st)) \<ge> 3 \<longleftrightarrow>
      failures is_credential_failure (since_connected trace) \<ge> 3"
    "unat (s_sta_unreachable_count (handle_events trace st)) \<ge> 3 \<longleftrightarrow> failures is_other_failure (since_connected trace) \<ge> 3"
    using counters_count [OF assms(1), of trace] by auto
  then show ?thesis using disconnected_decision [of c r "handle_events es st"] unfolding Let_def t by simp
qed

text \<open>The failures of one kind at the end of a trace, with no connection and no failure of another kind between them.\<close>

definition consecutive :: "(wifi_event \<Rightarrow> bool) \<Rightarrow> wifi_trace \<Rightarrow> nat" where
  "consecutive P es = length (takeWhile P (filter (\<lambda>e. is_credential_failure e \<or> is_other_failure e) (rev (map snd (since_connected es)))))"

lemma kinds_disjoint: "\<not> (is_credential_failure e \<and> is_other_failure e)"
  by (cases e rule: is_credential_failure.cases) simp_all

lemma length_takeWhile_filter:
  "(\<And>x. P x \<Longrightarrow> Q x) \<Longrightarrow> length (takeWhile P (filter Q xs)) \<le> length (filter P xs)"
  by (induction xs) auto

lemma consecutive_le:
  assumes "P = is_credential_failure \<or> P = is_other_failure"
  shows "consecutive P es \<le> failures P (since_connected es)"
proof -
  have "consecutive P es \<le> length (filter P (rev (map snd (since_connected es))))"
    unfolding consecutive_def using assms by (intro length_takeWhile_filter) auto
  also have "... = failures P (since_connected es)" by (simp add: failures_def filter_map rev_filter [symmetric] rev_map [symmetric])
  finally show ?thesis .
qed

lemma consecutive_eq:
  assumes "failures Q (since_connected es) = 0"
    and "(P, Q) \<in> {(is_credential_failure, is_other_failure), (is_other_failure, is_credential_failure)}"
  shows "consecutive P es = failures P (since_connected es)"
proof -
  let ?xs = "rev (map snd (since_connected es))"
  have "\<forall>e \<in> set ?xs. \<not> Q e" using assms(1) by (auto simp: failures_def filter_empty_conv)
  then have "filter (\<lambda>e. is_credential_failure e \<or> is_other_failure e) ?xs = filter P ?xs"
    using assms(2) by (intro filter_cong) auto
  moreover have "takeWhile P (filter P ?xs) = filter P ?xs" by (simp add: takeWhile_eq_all_conv)
  ultimately have "consecutive P es = length (filter P ?xs)" by (simp only: consecutive_def)
  also have "... = failures P (since_connected es)" by (simp add: failures_def filter_map rev_filter [symmetric] rev_map [symmetric])
  finally show ?thesis .
qed


text \<open>
  The failures need not be consecutive. Three credential failures with unreachable periods between them, none following
  another directly, already require recovery, which may erase the stored credentials.
\<close>

lemma alternating_failures_require_recovery:
  "s_status (handle_events
     [(ESP_OK, WIFI_EVENT_STA_DISCONNECTED (Some WIFI_REASON_AUTH_FAIL)), (ESP_OK, WIFI_EVENT_STA_DISCONNECTED (Some (WIFI_REASON_OTHER n))),
      (ESP_OK, WIFI_EVENT_STA_DISCONNECTED (Some WIFI_REASON_AUTH_FAIL)), (ESP_OK, WIFI_EVENT_STA_DISCONNECTED (Some (WIFI_REASON_OTHER m))),
      (ESP_OK, WIFI_EVENT_STA_DISCONNECTED (Some WIFI_REASON_AUTH_FAIL))] gateway_boot) = WIFI_GATEWAY_STATUS_STA_RECOVERY_REQUIRED"
  by (simp add: handle_events_def wifi_event_handler_def sta_disconnected_def gateway_boot_def count_failure_def
      STA_CREDENTIAL_FAILURE_LIMIT_def Let_def)

text \<open>
  C39: switching the station to other credentials is not counted as a failure. If the driver accepts the new credentials
  and the disconnection, then the disconnection that follows, whatever its reason, resets both counters and requests a connection with the new
  credentials; the driver is asked nothing else.
\<close>

theorem switch_ignores_own_disconnect:
  assumes "credentials_valid i p" "esp_wifi_set_sta_config drv = ESP_OK" "esp_wifi_disconnect drv = ESP_OK"
  shows "\<exists>st'. wifi_gateway_connect_sta drv [] (Some i) (Some p) st = (ESP_OK, st') \<and>
    s_status st' = WIFI_GATEWAY_STATUS_STA_CONNECTING \<and>
    (let st'' = wifi_event_handler ESP_OK (WIFI_EVENT_STA_DISCONNECTED reason) st'
     in fresh_gateway st'' \<and> s_status st'' = WIFI_GATEWAY_STATUS_STA_CONNECTING \<and>
        driver_calls st'' = [Wifi_connect, Wifi_disconnect, Set_sta_config (c_str i) (c_str p)] @ driver_calls st)"
proof -
  have "configure_sta_credentials drv (Some i) (Some p) st = (ESP_OK, call (Set_sta_config (c_str i) (c_str p)) st)"
    using valid_credentials_set [of i p drv st] assms(1,2) by (simp add: validate_credentials)
  then show ?thesis
    using assms(3) unfolding wifi_gateway_connect_sta_def
    by (simp add: Let_def handle_events_def wifi_event_handler_def sta_reconfigured_def fresh_gateway_def)
qed

text \<open>
  C40: the start does what the mode asks for. A start without an error in station mode sets the mode, the station's
  credentials and the access point, starts, enables NAPT and requests a connection, in this order; in provisioning mode the
  station is never configured or connected and NAPT stays off.
\<close>

theorem start_by_mode:
  assumes "wifi_gateway_start drv (Some c) st = (ESP_OK, st')"
  shows "validate_config (Some c) = ESP_OK \<and>
    (let ap = Set_ap_config (driver_ap_config (the (ap_ssid c)) (ap_password c) (ap_max_connection c))
     in if sta_enabled c
        then s_status st' = WIFI_GATEWAY_STATUS_STA_CONNECTING \<and> (\<exists>i p. sta_ssid c = Some i \<and> sta_password c = Some p \<and>
          driver_calls st' = [Wifi_connect, Napt_enable, Wifi_start, ap, Set_sta_config (c_str i) (c_str p), Set_mode WIFI_MODE_APSTA] @
            driver_calls st)
        else s_status st' = WIFI_GATEWAY_STATUS_PROVISIONING \<and>
          driver_calls st' = [Wifi_start, ap, Set_mode WIFI_MODE_AP] @ driver_calls st)"
proof -
  have v: "validate_config (Some c) = ESP_OK" using assms by (auto simp: wifi_gateway_start_def split: if_split_asm)
  show ?thesis
  proof (cases "sta_enabled c")
    case True
    then obtain i p where ip: "sta_ssid c = Some i" "sta_password c = Some p"
      using v by (auto simp: validate_config_def split: option.splits)
    show ?thesis
      using assms v True ip unfolding wifi_gateway_start_def
      by (auto simp: if_ok_def init_network_stack_def register_event_handlers_def init_wifi_driver_def create_wifi_netifs_def
          set_wifi_mode_def configure_sta_def configure_ap_def start_wifi_def enable_softap_napt_def configure_sta_credentials_def
          connect_sta_def Let_def split: if_split_asm)
  next
    case False
    then show ?thesis
      using assms v unfolding wifi_gateway_start_def
      by (auto simp: if_ok_def init_network_stack_def register_event_handlers_def init_wifi_driver_def create_wifi_netifs_def
          set_wifi_mode_def configure_ap_def start_wifi_def Let_def split: if_split_asm)
  qed
qed

section \<open>Witnesses\<close>

definition sample_driver :: wifi_driver where
  "sample_driver =
     \<lparr>esp_netif_init = ESP_OK, esp_event_loop_create_default = ESP_OK, register_wifi_handler = ESP_OK,
      register_ip_handler = ESP_OK, esp_wifi_init = ESP_OK, esp_wifi_set_storage = ESP_OK, create_default_wifi_sta = True,
      create_default_wifi_ap = True, esp_wifi_set_mode = ESP_OK, esp_wifi_set_sta_config = ESP_OK,
      esp_wifi_set_ap_config = ESP_OK, esp_wifi_start = ESP_OK, esp_netif_napt_enable = ESP_OK, esp_wifi_connect = ESP_OK,
      esp_wifi_disconnect = ESP_OK, esp_wifi_ap_get_sta_aid = (\<lambda>_. Inr 1), esp_wifi_deauth_sta = ESP_OK,
      ESP_ERR_ESP_NETIF_INIT_FAILED = ESP_ERR_OTHER 0\<rparr>"

lemma boot_gateway: "gateway_ok gateway_boot" "fresh_gateway gateway_boot"
  by (simp_all add: gateway_ok_def fresh_gateway_def gateway_boot_def NO_IP_length)

lemma gateway_ok_preserved_witness:
  "wifi_gateway_get_current_clients (handle_events
     [(ESP_OK, WIFI_EVENT_AP_STACONNECTED), (ESP_OK, WIFI_EVENT_AP_STACONNECTED), (ESP_OK, WIFI_EVENT_AP_STADISCONNECTED)] gateway_boot) = 1"
proof -
  let ?es = "[(ESP_OK, WIFI_EVENT_AP_STACONNECTED), (ESP_OK, WIFI_EVENT_AP_STACONNECTED), (ESP_OK, WIFI_EVENT_AP_STADISCONNECTED)]"
  have n: "wifi_gateway_get_current_clients gateway_boot = 0" by (simp add: wifi_gateway_get_current_clients_def gateway_boot_def)
  have "wifi_gateway_get_current_clients gateway_boot + int (joins ?es) < 2 ^ 31" by (simp add: n joins_def)
  from gateway_ok_preserved [OF boot_gateway(1) this] show ?thesis by (simp add: n)
qed


lemma switch_ignores_own_disconnect_witness:
  "\<exists>st'. wifi_gateway_connect_sta sample_driver [] (Some ''office'') (Some ''secret-password'') gateway_boot = (ESP_OK, st')"
proof -
  have "credentials_valid ''office'' ''secret-password''"
    by (simp add: credentials_valid_def Let_def c_strnlen_def NUL_char)
  moreover have "esp_wifi_set_sta_config sample_driver = ESP_OK" "esp_wifi_disconnect sample_driver = ESP_OK"
    by (simp_all add: sample_driver_def)
  ultimately show ?thesis using switch_ignores_own_disconnect [of _ _ sample_driver gateway_boot None] by blast
qed

definition sample_gateway_config :: wifi_gateway_config where
  "sample_gateway_config = \<lparr>sta_enabled = False, sta_ssid = None, sta_password = None, ap_ssid = Some ''setup'',
     ap_password = Some ''setup-password'', ap_max_connection = 4\<rparr>"

lemma start_by_mode_witness:
  "\<exists>st'. wifi_gateway_start sample_driver (Some sample_gateway_config) gateway_boot = (ESP_OK, st') \<and>
    s_status st' = WIFI_GATEWAY_STATUS_PROVISIONING"
proof -
  obtain st' where r: "wifi_gateway_start sample_driver (Some sample_gateway_config) gateway_boot = (ESP_OK, st')"
    by (simp add: wifi_gateway_start_def validate_config_def sample_gateway_config_def sample_driver_def if_ok_def c_str_def
        NUL_char Let_def init_network_stack_def register_event_handlers_def init_wifi_driver_def create_wifi_netifs_def
        set_wifi_mode_def configure_ap_def start_wifi_def)
  show ?thesis using r start_by_mode [OF r] by (simp add: sample_gateway_config_def Let_def)
qed

end
