(* ===== verification/Portal_Dns.thy ===== *)
theory Portal_Dns
  imports Access_Rules Client_Access Text_Format
begin

text \<open>
  The DNS service of the portal and the DHCP settings that make clients use it,
  components/captive\_portal/portal\_dns.c.

  A packet is the list of the received bytes; a read outside of it does not occur, because every read is guarded as in the code.
  An address is the 32-bit word in network byte order; its bytes in memory are those of a little-endian machine. Parameters of the model:
  \<open>getaddrinfo\<close> (the first address of a name, if there is one) and the results of the calls of ESP-NETIF, of the sockets and of
  FreeRTOS (\<open>dns_start_env\<close>, \<open>dhcp_service\<close>). The calls that change the DHCP server are recorded, the newest first.
\<close>

definition PORTAL_DNS_PACKET_SIZE :: nat where "PORTAL_DNS_PACKET_SIZE = 512"
definition DNS_HEADER_SIZE :: nat where "DNS_HEADER_SIZE = 12"
definition DNS_TYPE_A :: u16 where "DNS_TYPE_A = 1"
definition DNS_CLASS_IN :: u16 where "DNS_CLASS_IN = 1"
definition DNS_FLAG_RESPONSE :: u16 where "DNS_FLAG_RESPONSE = 0x8000"
definition DNS_FLAG_AUTHORITATIVE :: u16 where "DNS_FLAG_AUTHORITATIVE = 0x0400"
definition DNS_FLAG_RECURSION_DESIRED :: u16 where "DNS_FLAG_RECURSION_DESIRED = 0x0100"
definition DNS_FLAG_RECURSION_AVAILABLE :: u16 where "DNS_FLAG_RECURSION_AVAILABLE = 0x0080"
definition DNS_OPCODE_MASK :: u16 where "DNS_OPCODE_MASK = 0x7800"
definition DNS_RCODE_SERVER_FAILURE :: u16 where "DNS_RCODE_SERVER_FAILURE = 2"
definition DNS_NAME_POINTER :: u16 where "DNS_NAME_POINTER = 0xC00C"
definition DNS_RCODE_REFUSED :: u16 where "DNS_RCODE_REFUSED = 5"
definition PORTAL_DNS_TTL_SECONDS :: u32 where "PORTAL_DNS_TTL_SECONDS = 5"

text \<open>The size of \<open>domain_name\<close> in \<open>build_dns_response\<close> and of \<open>s_external_portal_domain\<close>; of \<open>s_portal_uri\<close>; of an answer.\<close>

definition DOMAIN_NAME_SIZE :: nat where "DOMAIN_NAME_SIZE = 256"
definition PORTAL_URI_SIZE :: nat where "PORTAL_URI_SIZE = 32"
definition DNS_ANSWER_SIZE :: nat where "DNS_ANSWER_SIZE = 16"

datatype dhcp_call =
    Dhcps_stop | Offer_dns | Set_dns_address u32 | Set_portal_uri string | Dhcps_start

record portal_dns =
  s_dns_task :: bool
  s_dns_socket :: int
  s_portal_ipv4 :: u32
  s_external_portal_domain :: string
  s_external_portal_ipv4 :: u32
  s_external_portal_enabled :: bool
  s_portal_uri :: string
  dhcp_calls :: "dhcp_call list"

definition portal_dns_boot :: portal_dns where
  "portal_dns_boot =
     \<lparr>s_dns_task = False, s_dns_socket = - 1, s_portal_ipv4 = 0, s_external_portal_domain = [],
      s_external_portal_ipv4 = 0, s_external_portal_enabled = False, s_portal_uri = [], dhcp_calls = []\<rparr>"

section \<open>Numbers in network byte order\<close>

definition be16_bytes :: "u16 \<Rightarrow> bytes" where
  "be16_bytes w = [ucast (drop_bit 8 w), ucast w]"

definition be32_bytes :: "u32 \<Rightarrow> bytes" where
  "be32_bytes w = [ucast (drop_bit 24 w), ucast (drop_bit 16 w), ucast (drop_bit 8 w), ucast w]"

definition memory_bytes :: "u32 \<Rightarrow> bytes" where
  "memory_bytes w = [ucast w, ucast (drop_bit 8 w), ucast (drop_bit 16 w), ucast (drop_bit 24 w)]"

definition packet_u16 :: "bytes \<Rightarrow> nat \<Rightarrow> u16" where
  "packet_u16 packet i = be16 (packet ! i) (packet ! (i + 1))"

section \<open>The question\<close>

text \<open>The loop over the labels: the offset and the name read so far.\<close>

function read_name :: "nat \<Rightarrow> bytes \<Rightarrow> nat \<Rightarrow> string \<Rightarrow> esp_err + (string \<times> nat)" where
  "read_name name_size packet offset name =
     (if offset < length packet then
        (let label_length = packet ! offset; n = unat label_length; offset = offset + 1 in
         if label_length = 0 then Inr (name, offset)
         else if label_length AND 0xC0 \<noteq> 0 then Inl ESP_ERR_NOT_SUPPORTED
         else if label_length > 63 \<or> offset + n > length packet then Inl ESP_ERR_INVALID_SIZE
         else if length name > 0 \<and> length name + 1 \<ge> name_size then Inl ESP_ERR_INVALID_SIZE
         else
           (let name = (if length name > 0 then name @ [CHR ''.''] else name) in
            if length name + n \<ge> name_size then Inl ESP_ERR_INVALID_SIZE
            else read_name name_size packet (offset + n) (name @ map byte_char (take n (drop offset packet)))))
      else Inr (name, offset))"
  by pat_completeness auto
termination
  by (relation "measure (\<lambda>(name_size, packet, offset, name). length packet - offset)") auto

declare read_name.simps [simp del]

text \<open>The name, the offset behind the question, the type and the class. The check of the offset against the length stays as written.\<close>

definition parse_dns_question :: "bytes \<Rightarrow> nat \<Rightarrow> esp_err + (string \<times> nat \<times> u16 \<times> u16)" where
  "parse_dns_question packet domain_name_size =
     (if domain_name_size = 0 then Inl ESP_ERR_INVALID_ARG
      else if length packet < DNS_HEADER_SIZE then Inl ESP_ERR_INVALID_SIZE
      else
        (let request_flags = packet_u16 packet 2 in
         if request_flags AND DNS_FLAG_RESPONSE \<noteq> 0 \<or> request_flags AND DNS_OPCODE_MASK \<noteq> 0
         then Inl ESP_ERR_NOT_SUPPORTED
         else if packet_u16 packet 4 \<noteq> 1 then Inl ESP_ERR_NOT_SUPPORTED
         else
           (case read_name domain_name_size packet DNS_HEADER_SIZE [] of
              Inl err \<Rightarrow> Inl err
            | Inr (name, offset) \<Rightarrow>
                if offset > length packet then Inl ESP_ERR_INVALID_SIZE
                else if offset + 4 > length packet then Inl ESP_ERR_INVALID_SIZE
                else Inr (name, offset + 4, packet_u16 packet offset, packet_u16 packet (offset + 2)))))"

section \<open>The answer\<close>

definition resolve_authorized_ipv4 :: "(string \<Rightarrow> u32 option) \<Rightarrow> string \<Rightarrow> esp_err + u32" where
  "resolve_authorized_ipv4 getaddrinfo domain_name =
     (if domain_name = [] then Inl ESP_ERR_INVALID_ARG
      else case getaddrinfo domain_name of
             None \<Rightarrow> Inl ESP_FAIL
           | Some ip \<Rightarrow> if ip = 0 then Inl ESP_FAIL else Inr ip)"

text \<open>\<open>strcasecmp\<close> of two C strings.\<close>

definition strcasecmp_equal :: "string \<Rightarrow> string \<Rightarrow> bool" where
  "strcasecmp_equal a b \<longleftrightarrow> map char_lower a = map char_lower b"

text \<open>The choice of the answer: the address, if there is one, and the response code.\<close>

definition dns_answer ::
  "(string \<Rightarrow> u32 option) \<Rightarrow> portal_dns \<Rightarrow> access_rules \<Rightarrow> bool \<Rightarrow> string \<Rightarrow> u16 \<Rightarrow> u16 \<Rightarrow> u32 option \<times> u16" where
  "dns_answer getaddrinfo portal rules client_authorized domain_name query_type query_class =
     (if query_type = DNS_TYPE_A \<and> query_class = DNS_CLASS_IN \<and> s_external_portal_enabled portal \<and>
         strcasecmp_equal domain_name (s_external_portal_domain portal)
      then (Some (s_external_portal_ipv4 portal), 0)
      else if client_authorized \<and> query_class = DNS_CLASS_IN \<and>
              access_filter_is_hostname_blocked rules (Some domain_name)
      then (None, DNS_RCODE_REFUSED)
      else if query_type = DNS_TYPE_A \<and> query_class = DNS_CLASS_IN
      then (if \<not> client_authorized then (Some (s_portal_ipv4 portal), 0)
            else (case resolve_authorized_ipv4 getaddrinfo domain_name of
                    Inr ip \<Rightarrow> (Some ip, 0)
                  | Inl _ \<Rightarrow> (None, DNS_RCODE_SERVER_FAILURE)))
      else (None, 0))"

definition dns_answer_a :: "u32 \<Rightarrow> bytes" where
  "dns_answer_a ipv4 =
     be16_bytes DNS_NAME_POINTER @ be16_bytes DNS_TYPE_A @ be16_bytes DNS_CLASS_IN @
     be32_bytes PORTAL_DNS_TTL_SECONDS @ be16_bytes 4 @ memory_bytes ipv4"

text \<open>\<open>None\<close> is the result \<open>-1\<close>: nothing is sent.\<close>

definition build_dns_response ::
  "(string \<Rightarrow> u32 option) \<Rightarrow> portal_dns \<Rightarrow> access_rules \<Rightarrow> bytes \<Rightarrow> bool \<Rightarrow> nat \<Rightarrow> bytes option" where
  "build_dns_response getaddrinfo portal rules request client_authorized response_capacity =
     (case parse_dns_question request DOMAIN_NAME_SIZE of
        Inl err \<Rightarrow> None
      | Inr (name, question_end, query_type, query_class) \<Rightarrow>
          if question_end > response_capacity then None
          else
            (let request_flags = packet_u16 request 2;
                 response_flags = DNS_FLAG_RESPONSE OR (request_flags AND DNS_FLAG_RECURSION_DESIRED);
                 response_flags = (if client_authorized then response_flags OR DNS_FLAG_RECURSION_AVAILABLE
                                   else response_flags OR DNS_FLAG_AUTHORITATIVE);
                 (answer_ipv4, response_code) =
                   dns_answer getaddrinfo portal rules client_authorized (c_str name) query_type query_class;
                 response_flags = response_flags OR response_code;
                 response = take 2 request @ be16_bytes response_flags @ be16_bytes 1 @
                   be16_bytes (if answer_ipv4 \<noteq> None then 1 else 0) @ be16_bytes 0 @ be16_bytes 0 @
                   drop DNS_HEADER_SIZE (take question_end request)
             in case answer_ipv4 of
                  None \<Rightarrow> Some response
                | Some ip \<Rightarrow>
                    if question_end + DNS_ANSWER_SIZE > response_capacity then None
                    else Some (response @ dns_answer_a ip)))"

section \<open>The task\<close>

text \<open>What \<open>recvfrom\<close> delivers: a datagram and its source, \<open>EINTR\<close>, or another error.\<close>

datatype dns_receive = Received u32 bytes | Interrupted | Receive_failed

text \<open>
  One round of the loop at time \<open>now\<close>: the datagram is cut to the buffer, an answer goes to its source. The loop
  ends on an error, or when the socket is closed.
\<close>

type_synonym dns_state = "portal_dns \<times> client_access"

definition answer_query ::
  "(string \<Rightarrow> u32 option) \<Rightarrow> access_rules \<Rightarrow> u32 \<Rightarrow> u32 \<Rightarrow> bytes \<Rightarrow> dns_state \<Rightarrow> (u32 \<times> bytes) list \<times> dns_state" where
  "answer_query getaddrinfo rules now source datagram st =
     (case st of (portal, clients) \<Rightarrow>
        (case client_access_can_forward_ipv4 now source clients of (client_authorized, clients) \<Rightarrow>
           (case build_dns_response getaddrinfo portal rules (take PORTAL_DNS_PACKET_SIZE datagram) client_authorized
                   PORTAL_DNS_PACKET_SIZE of
              None \<Rightarrow> ([], (portal, clients))
            | Some response \<Rightarrow>
                (if response = [] then [] else [(source, response)], (portal, clients)))))"

definition close_dns :: "portal_dns \<Rightarrow> portal_dns" where
  "close_dns portal =
     portal\<lparr>s_dns_socket := (if s_dns_socket portal \<ge> 0 then - 1 else s_dns_socket portal), s_dns_task := False\<rparr>"

fun portal_dns_task ::
  "(string \<Rightarrow> u32 option) \<Rightarrow> access_rules \<Rightarrow> (u32 \<times> dns_receive) list \<Rightarrow> dns_state \<Rightarrow> (u32 \<times> bytes) list \<times> dns_state" where
  "portal_dns_task getaddrinfo rules [] st = ([], st)"
| "portal_dns_task getaddrinfo rules ((now, r) # rs) st =
     (if s_dns_socket (fst st) < 0 then ([], (close_dns (fst st), snd st))
      else case r of
             Interrupted \<Rightarrow> portal_dns_task getaddrinfo rules rs st
           | Receive_failed \<Rightarrow> ([], (close_dns (fst st), snd st))
           | Received source datagram \<Rightarrow>
               (case answer_query getaddrinfo rules now source datagram st of (sent, st) \<Rightarrow>
                  (case portal_dns_task getaddrinfo rules rs st of (later, st) \<Rightarrow> (sent @ later, st))))"

section \<open>DHCP\<close>

record dhcp_service =
  esp_netif_dhcps_get_status :: "esp_err + bool"
  esp_netif_dhcps_stop :: esp_err
  dhcps_option_dns :: esp_err
  esp_netif_set_dns_info :: esp_err
  dhcps_option_uri :: esp_err
  esp_netif_dhcps_start :: esp_err
  ESP_ERR_ESP_NETIF_DHCP_ALREADY_STARTED :: esp_err

definition dhcp_call :: "dhcp_call \<Rightarrow> portal_dns \<Rightarrow> portal_dns" where
  "dhcp_call c portal = portal\<lparr>dhcp_calls := c # dhcp_calls portal\<rparr>"

text \<open>Every option is asked for, as long as the ones before succeeded; then the server is started whatever happened.\<close>

definition configure_options :: "dhcp_service \<Rightarrow> u32 \<Rightarrow> portal_dns \<Rightarrow> esp_err \<times> portal_dns" where
  "configure_options dhcp ip portal =
     fold if_ok
       [\<lambda>p. (dhcps_option_dns dhcp, dhcp_call Offer_dns p),
        \<lambda>p. (esp_netif_set_dns_info dhcp, dhcp_call (Set_dns_address ip) p),
        \<lambda>p. (dhcps_option_uri dhcp, dhcp_call (Set_portal_uri (s_portal_uri p)) p)] (ESP_OK, portal)"

definition configure_softap_dhcp :: "dhcp_service \<Rightarrow> u32 \<Rightarrow> portal_dns \<Rightarrow> esp_err \<times> portal_dns" where
  "configure_softap_dhcp dhcp ip portal =
     (let uri = ''http://'' @ ip4_text ip @ ''/'';
          portal = portal\<lparr>s_portal_uri := take (PORTAL_URI_SIZE - 1) uri\<rparr>
      in if length uri \<ge> PORTAL_URI_SIZE then (ESP_ERR_NO_MEM, portal)
         else case esp_netif_dhcps_get_status dhcp of
                Inl err \<Rightarrow> (err, portal)
              | Inr started \<Rightarrow>
                  (let portal = (if started then dhcp_call Dhcps_stop portal else portal) in
                   if started \<and> esp_netif_dhcps_stop dhcp \<noteq> ESP_OK then (esp_netif_dhcps_stop dhcp, portal)
                   else
                     (case configure_options dhcp ip portal of (configure_err, portal) \<Rightarrow>
                        (let start_err = esp_netif_dhcps_start dhcp; portal = dhcp_call Dhcps_start portal in
                         if start_err \<noteq> ESP_OK \<and> start_err \<noteq> ESP_ERR_ESP_NETIF_DHCP_ALREADY_STARTED dhcp
                         then (start_err, portal)
                         else (configure_err, portal)))))"

section \<open>Starting\<close>

definition configure_external_portal ::
  "lwip_api \<Rightarrow> string option \<Rightarrow> string option \<Rightarrow> portal_dns \<Rightarrow> esp_err \<times> portal_dns" where
  "configure_external_portal lw domain ipv4 portal =
     (case (domain, ipv4) of
        (None, None) \<Rightarrow>
          (ESP_OK, portal\<lparr>s_external_portal_enabled := False, s_external_portal_domain := [], s_external_portal_ipv4 := 0\<rparr>)
      | (Some d, Some i) \<Rightarrow>
          if d = [] \<or> i = [] then (ESP_ERR_INVALID_ARG, portal)
          else
            (let portal = portal\<lparr>s_external_portal_domain := take (DOMAIN_NAME_SIZE - 1) d\<rparr> in
             if length d \<ge> DOMAIN_NAME_SIZE then (ESP_ERR_NO_MEM, portal)
             else case ip4addr_aton lw i of
                    None \<Rightarrow> (ESP_ERR_INVALID_ARG, portal\<lparr>s_external_portal_domain := []\<rparr>)
                  | Some ip \<Rightarrow> (ESP_OK, portal\<lparr>s_external_portal_ipv4 := ip, s_external_portal_enabled := True\<rparr>))
      | _ \<Rightarrow> (ESP_ERR_INVALID_ARG, portal))"

record dns_start_env =
  ap_netif_exists :: bool
  esp_netif_get_ip_info :: "esp_err + u32"
  dns_socket :: int
  dns_setsockopt :: int
  dns_bind :: int
  dhcp_env :: dhcp_service
  dns_task_created :: bool

definition portal_dns_start ::
  "lwip_api \<Rightarrow> dns_start_env \<Rightarrow> string option \<Rightarrow> string option \<Rightarrow> portal_dns \<Rightarrow> esp_err \<times> portal_dns" where
  "portal_dns_start lw env domain ipv4 portal =
     (case configure_external_portal lw domain ipv4 portal of (err, portal) \<Rightarrow>
        if err \<noteq> ESP_OK then (err, portal)
        else if s_dns_task portal \<or> s_dns_socket portal \<ge> 0 then (ESP_OK, portal)
        else if \<not> ap_netif_exists env then (ESP_ERR_INVALID_STATE, portal)
        else case esp_netif_get_ip_info env of
               Inl err \<Rightarrow> (err, portal)
             | Inr ip \<Rightarrow>
                 if ip = 0 then (ESP_ERR_INVALID_STATE, portal)
                 else
                   (let portal = portal\<lparr>s_portal_ipv4 := ip\<rparr> in
                    if dns_socket env < 0 then (ESP_FAIL, portal)
                    else if dns_setsockopt env < 0 then (ESP_FAIL, portal)
                    else if dns_bind env < 0 then (ESP_FAIL, portal)
                    else
                      (case configure_softap_dhcp (dhcp_env env) ip portal of (err, portal) \<Rightarrow>
                         if err \<noteq> ESP_OK then (err, portal)
                         else if \<not> dns_task_created env
                         then (ESP_ERR_NO_MEM, portal\<lparr>s_dns_socket := - 1, s_dns_task := False\<rparr>)
                         else (ESP_OK, portal\<lparr>s_dns_socket := dns_socket env, s_dns_task := True\<rparr>))))"

end
