(* ===== verification/Dns_Runs.thy ===== *)
theory Dns_Runs
  imports Portal_Dns
begin

text \<open>
  What the DNS service answers. \<open>dns_query\<close> is the format in which a client asks (RFC 1035, one question without
  compression) and \<open>dns_reply\<close> the format of an answer, both written independently of the code.
\<close>

section \<open>The formats\<close>

definition dns_label :: "string \<Rightarrow> bytes" where
  "dns_label l = of_nat (length l) # map (\<lambda>c. of_nat (char_code c)) l"

definition dns_question :: "string list \<Rightarrow> u16 \<Rightarrow> u16 \<Rightarrow> bytes" where
  "dns_question labels t c = concat (map dns_label labels) @ [0] @ be16_bytes t @ be16_bytes c"

text \<open>\<open>counts\<close> are the other three counts of the header, \<open>additional\<close> what follows the question, such as an EDNS record.\<close>

definition dns_query :: "u16 \<Rightarrow> u16 \<Rightarrow> bytes \<Rightarrow> string list \<Rightarrow> u16 \<Rightarrow> u16 \<Rightarrow> bytes \<Rightarrow> bytes" where
  "dns_query ident flags counts labels t c additional =
     be16_bytes ident @ be16_bytes flags @ be16_bytes 1 @ counts @ dns_question labels t c @ additional"

definition answer_record :: "u32 \<Rightarrow> bytes" where
  "answer_record ip = [0xC0, 12, 0, 1, 0, 1, 0, 0, 0, 5, 0, 4] @ memory_bytes ip"

definition dns_reply :: "u16 \<Rightarrow> u16 \<Rightarrow> bytes \<Rightarrow> u32 option \<Rightarrow> bytes" where
  "dns_reply ident flags question answer =
     be16_bytes ident @ be16_bytes flags @ [0, 1, 0, if answer = None then 0 else 1, 0, 0, 0, 0] @ question @
     (case answer of None \<Rightarrow> [] | Some ip \<Rightarrow> answer_record ip)"

definition query_ok :: "u16 \<Rightarrow> bytes \<Rightarrow> string list \<Rightarrow> bool" where
  "query_ok flags counts labels \<longleftrightarrow>
     flags AND 0xF800 = 0 \<and> length counts = 6 \<and> (\<forall>l \<in> set labels. 1 \<le> length l \<and> length l \<le> 63) \<and>
     length (join_text (CHR ''.'') labels) \<le> 255"

section \<open>Words and bytes\<close>

lemma length_dns_label: "length (dns_label l) = Suc (length l)"
  by (simp add: dns_label_def)

lemma be16_split: "be16 (ucast (drop_bit 8 w)) (ucast w) = w"
proof (rule word_unat_eq_iff [THEN iffD2])
  have w: "unat w < 256 * 256" using unat_u16_lt [of w] by simp
  have "unat (ucast (drop_bit 8 w) :: u8) = unat w div 256"
    using w by (simp add: unsigned_ucast_eq unat_drop_bit_eq drop_bit_eq_div take_bit_nat_def less_mult_imp_div_less unat_div)
  moreover have "unat (ucast w :: u8) = unat w mod 256" by (simp add: unsigned_ucast_eq take_bit_nat_def)
  ultimately show "unat (be16 (ucast (drop_bit 8 w)) (ucast w)) = unat w" by (simp add: unat_be16)
qed

lemma packet_u16_at:
  assumes "packet = u @ be16_bytes w @ v" "i = length u"
  shows "packet_u16 packet i = w"
  using assms by (simp add: packet_u16_def be16_bytes_def nth_append be16_split)

lemma length_be16_bytes [simp]: "length (be16_bytes w) = 2"
  by (simp add: be16_bytes_def)

lemma low_byte_mask: "unat (b :: u8) < 64 \<Longrightarrow> b AND 0xC0 = 0"
proof -
  assume "unat b < 64"
  then have "take_bit 6 b = b" by (simp add: word_unat_eq_iff unsigned_take_bit_eq take_bit_nat_eq_self)
  then have b: "b AND 63 = b" by (simp add: take_bit_eq_mask mask_eq_exp_minus_1)
  have "(b AND 63) AND 0xC0 = 0" by (simp add: and.assoc)
  then show ?thesis by (simp only: b)
qed

lemma flags_parts:
  assumes "flags AND 0xF800 = (0 :: u16)"
  shows "flags AND DNS_FLAG_RESPONSE = 0" "flags AND DNS_OPCODE_MASK = 0"
proof -
  have "flags AND (0xF800 AND m) = 0" for m using assms by (metis and.assoc zero_and_eq)
  from this [of "0x8000"] this [of "0x7800"] show "flags AND DNS_FLAG_RESPONSE = 0" "flags AND DNS_OPCODE_MASK = 0"
    by (simp_all add: DNS_FLAG_RESPONSE_def DNS_OPCODE_MASK_def)
qed

lemma split_bytes: "[ucast (drop_bit 8 w), ucast w] = be16_bytes w"
  by (simp add: be16_bytes_def)

lemma answer_record_eq: "dns_answer_a ip = answer_record ip"
  by (simp add: dns_answer_a_def answer_record_def be16_bytes_def be32_bytes_def DNS_NAME_POINTER_def DNS_TYPE_A_def
      DNS_CLASS_IN_def PORTAL_DNS_TTL_SECONDS_def drop_bit_eq_div)

section \<open>Reading a name\<close>

lemma label_chars: "map byte_char (map (\<lambda>c. of_nat (char_code c)) l) = l"
proof -
  have "byte_char (of_nat (char_code c)) = c" for c
    by (simp add: byte_char_def unat_of_nat take_bit_nat_eq_self)
  then show ?thesis by (simp add: map_idI)
qed

definition extended_name :: "string \<Rightarrow> string list \<Rightarrow> string" where
  "extended_name name labels =
     (if labels = [] then name else if name = [] then join_text (CHR ''.'') labels
      else name @ CHR ''.'' # join_text (CHR ''.'') labels)"

lemma extended_name_Cons:
  "extended_name name (l # ls) = extended_name ((if name \<noteq> [] then name @ [CHR ''.''] else name) @ l) ls"
  if "l \<noteq> []"
  using that by (cases ls) (auto simp: extended_name_def)

lemma extended_name_length: "length name \<le> length (extended_name name ls)"
  by (auto simp: extended_name_def)

lemma read_name_labels:
  assumes "\<forall>l \<in> set labels. 1 \<le> length l \<and> length l \<le> 63" "length (extended_name name labels) < name_size"
  shows "read_name name_size (u @ concat (map dns_label labels) @ 0 # v) (length u) name =
    Inr (extended_name name labels, length u + length (concat (map dns_label labels)) + 1)"
  using assms
proof (induction labels arbitrary: u name)
  case Nil
  then show ?case by (subst read_name.simps) (simp add: nth_append extended_name_def)
next
  case (Cons l ls)
  let ?packet = "u @ concat (map dns_label (l # ls)) @ 0 # v"
  let ?name = "(if name \<noteq> [] then name @ [CHR ''.''] else name) @ l"
  have l: "l \<noteq> []" "length l \<le> 63" using Cons.prems(1) by auto
  have n: "unat (of_nat (length l) :: u8) = length l" using l(2) by (simp add: unat_of_nat take_bit_nat_eq_self)
  have nz: "(of_nat (length l) :: u8) \<noteq> 0" using l(1) n by (metis length_0_conv unat_0)
  have hi: "(of_nat (length l) :: u8) AND 0xC0 = 0" using n l(2) by (intro low_byte_mask) simp
  have le: "\<not> (of_nat (length l) :: u8) > 63" using n l(2) by (simp add: word_less_nat_alt)
  have size: "length ?name < name_size"
    using extended_name_length [of ?name ls] Cons.prems(2) extended_name_Cons [OF l(1), of name ls] by simp
  have dot: "name = [] \<or> \<not> name_size \<le> Suc (length name)" using size l(1) by (auto simp: neq_Nil_conv)
  have at: "?packet ! length u = of_nat (length l)" by (simp add: nth_append dns_label_def)
  have step: "read_name name_size ?packet (length u) name =
      read_name name_size ?packet (length u + 1 + length l) ?name"
    using size l dot by (subst read_name.simps)
      (auto simp: at n nz hi le Let_def dns_label_def label_chars [unfolded map_map o_def] o_def)
  have p: "?packet = (u @ dns_label l) @ concat (map dns_label ls) @ 0 # v" by simp
  have u: "length u + 1 + length l = length (u @ dns_label l)" by (simp add: dns_label_def)
  have "read_name name_size ((u @ dns_label l) @ concat (map dns_label ls) @ 0 # v) (length (u @ dns_label l)) ?name =
      Inr (extended_name ?name ls, length (u @ dns_label l) + length (concat (map dns_label ls)) + 1)"
    using Cons.prems extended_name_Cons [OF l(1), of name ls] by (intro Cons.IH) auto
  then show ?case
    unfolding step unfolding p u unfolding extended_name_Cons [OF l(1)] by (simp add: length_dns_label)
qed

section \<open>A query and its reply\<close>

lemma parse_query:
  assumes "query_ok flags counts labels"
  shows "parse_dns_question (dns_query ident flags counts labels t c additional) DOMAIN_NAME_SIZE =
    Inr (join_text (CHR ''.'') labels, 12 + length (dns_question labels t c), t, c)"
proof -
  let ?u = "be16_bytes ident @ be16_bytes flags @ be16_bytes 1 @ counts"
  let ?n = "length (concat (map dns_label labels))"
  let ?p = "dns_query ident flags counts labels t c additional"
  have q: "length counts = 6" "flags AND 0xF800 = 0" using assms by (simp_all add: query_ok_def)
  have u: "length ?u = 12" using q(1) by simp
  have name: "read_name DOMAIN_NAME_SIZE ?p 12 [] = Inr (join_text (CHR ''.'') labels, 12 + ?n + 1)"
    using read_name_labels [of labels "[]" DOMAIN_NAME_SIZE ?u "be16_bytes t @ be16_bytes c @ additional"] assms u
    by (simp add: query_ok_def extended_name_def DOMAIN_NAME_SIZE_def dns_query_def dns_question_def split: if_split_asm)
  have "packet_u16 ?p 2 = flags"
    by (rule packet_u16_at [of _ "be16_bytes ident"]) (simp_all add: dns_query_def)
  moreover have "packet_u16 ?p 4 = 1"
    by (rule packet_u16_at [of _ "be16_bytes ident @ be16_bytes flags"]) (simp_all add: dns_query_def)
  moreover have "packet_u16 ?p (12 + ?n + 1) = t"
    by (rule packet_u16_at [of _ "?u @ concat (map dns_label labels) @ [0]"]) (simp_all add: dns_query_def dns_question_def q(1))
  moreover have "packet_u16 ?p (12 + ?n + 1 + 2) = c"
    by (rule packet_u16_at [of _ "?u @ concat (map dns_label labels) @ [0] @ be16_bytes t"])
      (simp_all add: dns_query_def dns_question_def q(1))
  moreover have "length ?p \<ge> 12 + ?n + 1 + 4" by (simp add: dns_query_def dns_question_def q(1))
  ultimately show ?thesis
    unfolding parse_dns_question_def DNS_HEADER_SIZE_def name using flags_parts [OF q(2)]
    by (simp add: DOMAIN_NAME_SIZE_def dns_question_def)
qed

lemma length_labels:
  "\<forall>l \<in> set labels. l \<noteq> [] \<Longrightarrow> length (concat (map dns_label labels)) \<le> Suc (length (join_text (CHR ''.'') labels))"
proof (induction labels)
  case (Cons l ls)
  then show ?case by (cases ls) (auto simp: length_dns_label)
qed simp

lemma question_fits: "query_ok flags counts labels \<Longrightarrow> 12 + length (dns_question labels t c) + DNS_ANSWER_SIZE \<le> PORTAL_DNS_PACKET_SIZE"
  using length_labels [of labels]
  by (fastforce simp: query_ok_def dns_question_def DNS_ANSWER_SIZE_def PORTAL_DNS_PACKET_SIZE_def)

definition reply_flags :: "u16 \<Rightarrow> bool \<Rightarrow> u16 \<Rightarrow> u16" where
  "reply_flags flags client_authorized code =
     0x8000 OR (flags AND 0x0100) OR (if client_authorized then 0x0080 else 0x0400) OR code"

lemma build_reply:
  assumes "query_ok flags counts labels"
  shows "build_dns_response getaddrinfo portal rules (dns_query ident flags counts labels t c additional) authorized
      PORTAL_DNS_PACKET_SIZE =
    (let (answer, code) = dns_answer getaddrinfo portal rules authorized (c_str (join_text (CHR ''.'') labels)) t c
     in Some (dns_reply ident (reply_flags flags authorized code) (dns_question labels t c) answer))"
proof -
  let ?p = "dns_query ident flags counts labels t c additional"
  have u: "length (be16_bytes ident @ be16_bytes flags @ be16_bytes 1 @ counts) = 12" using assms by (simp add: query_ok_def)
  have f: "packet_u16 ?p 2 = flags"
    by (rule packet_u16_at [of _ "be16_bytes ident"]) (simp_all add: dns_query_def)
  have p: "?p = (be16_bytes ident @ be16_bytes flags @ be16_bytes 1 @ counts) @ dns_question labels t c @ additional"
    by (simp add: dns_query_def)
  have q: "drop 12 (take (12 + length (dns_question labels t c)) ?p) = dns_question labels t c"
    unfolding p using u by simp
  have h: "take 2 ?p = be16_bytes ident" by (simp add: dns_query_def)
  obtain answer code where a: "dns_answer getaddrinfo portal rules authorized (c_str (join_text (CHR ''.'') labels)) t c = (answer, code)"
    by fastforce
  show ?thesis
    using question_fits [OF assms, of t c]
    unfolding build_dns_response_def parse_query [OF assms] DNS_HEADER_SIZE_def
    by (simp add: Let_def f q h a dns_reply_def reply_flags_def DNS_FLAG_RESPONSE_def DNS_FLAG_RECURSION_DESIRED_def
        DNS_FLAG_RECURSION_AVAILABLE_def DNS_FLAG_AUTHORITATIVE_def answer_record_eq be16_bytes_def or.assoc
        split: option.split)
qed

section \<open>Any packet\<close>

lemma be16_bytes_be16: "be16_bytes (be16 a b) = [a, b]"
proof -
  have u: "unat (be16 a b) = 256 * unat a + unat b" by (rule unat_be16)
  have d: "unat (be16 a b) div 256 = unat a" "unat (be16 a b) mod 256 = unat b"
    unfolding u using unat_u8_lt [of b] by simp_all
  have lt: "unat a < 256" "unat b < 256" by (rule unat_u8_lt)+
  have "unat (ucast (drop_bit 8 (be16 a b)) :: u8) = unat a"
    using d(1) lt by (simp add: unsigned_ucast_eq drop_bit_eq_div unat_div take_bit_nat_def)
  moreover have "unat (ucast (be16 a b) :: u8) = unat b"
    using d(2) by (simp add: unsigned_ucast_eq take_bit_nat_def)
  ultimately show ?thesis by (simp add: be16_bytes_def word_unat_eq_iff)
qed

lemma read_name_offset: "read_name name_size packet offset name = Inr (name', offset') \<Longrightarrow> offset \<le> offset'"
proof (induction name_size packet offset name rule: read_name.induct)
  case (1 name_size packet offset name)
  show ?case
  proof (cases "offset < length packet")
    case True
    then show ?thesis
      using 1(2) by (subst (asm) read_name.simps)
        (auto simp: Let_def split: if_split_asm dest!: 1(1) [OF True refl refl refl _ _ _ _ refl, simplified])
  next
    case False
    then show ?thesis using 1(2) by (subst (asm) read_name.simps) simp
  qed
qed

lemma first_two: "12 \<le> length p \<Longrightarrow> take 2 p = be16_bytes (packet_u16 p 0)"
  by (cases p; cases "tl p") (simp_all add: packet_u16_def be16_bytes_be16 numeral_2_eq_2)

text \<open>Whatever the packet, what is sent is a reply with the identifier of the packet, and it fits the buffer.\<close>

lemma built_reply:
  assumes "build_dns_response getaddrinfo portal rules p authorized capacity = Some r"
  obtains name question_end t c answer code where
    "parse_dns_question p DOMAIN_NAME_SIZE = Inr (name, question_end, t, c)"
    "dns_answer getaddrinfo portal rules authorized (c_str name) t c = (answer, code)"
    "r = dns_reply (packet_u16 p 0) (reply_flags (packet_u16 p 2) authorized code) (drop 12 (take question_end p)) answer"
    "length r \<le> capacity"
proof -
  obtain name question_end t c where q: "parse_dns_question p DOMAIN_NAME_SIZE = Inr (name, question_end, t, c)"
    using assms by (fastforce simp: build_dns_response_def split: sum.splits)
  obtain answer code where a: "dns_answer getaddrinfo portal rules authorized (c_str name) t c = (answer, code)" by fastforce
  have len: "12 \<le> length p"
    using q by (auto simp: parse_dns_question_def DNS_HEADER_SIZE_def split: if_split_asm)
  have qe: "question_end \<le> length p"
    using q by (auto simp: parse_dns_question_def Let_def split: if_split_asm sum.splits prod.splits)
  have hd: "length (take 2 p) = 2" using len by simp
  have r: "r = dns_reply (packet_u16 p 0) (reply_flags (packet_u16 p 2) authorized code) (drop 12 (take question_end p)) answer"
    using assms unfolding build_dns_response_def q first_two [OF len]
    by (auto simp: Let_def a dns_reply_def reply_flags_def DNS_FLAG_RESPONSE_def DNS_FLAG_RECURSION_DESIRED_def
        DNS_FLAG_RECURSION_AVAILABLE_def DNS_FLAG_AUTHORITATIVE_def DNS_HEADER_SIZE_def answer_record_eq be16_bytes_def or.assoc
        split: option.split_asm if_split_asm)
  have "12 \<le> question_end"
    using q by (auto simp: parse_dns_question_def Let_def DNS_HEADER_SIZE_def dest!: read_name_offset
        split: if_split_asm sum.splits prod.splits)
  then have "length (dns_reply i f (drop 12 (take question_end p)) x) = question_end + (if x = None then 0 else 16)" for i f x
    using qe by (cases x) (simp_all add: dns_reply_def answer_record_def memory_bytes_def)
  moreover have "question_end + (if answer = None then 0 else 16) \<le> capacity"
    using assms unfolding build_dns_response_def q
    by (auto simp: Let_def a DNS_ANSWER_SIZE_def split: option.split_asm if_split_asm)
  ultimately have "length r \<le> capacity" unfolding r by simp
  from that [OF q a r this] show ?thesis .
qed

section \<open>Runs of the task\<close>

lemma can_forward_pair: "\<exists>b clients'. client_access_can_forward_ipv4 now ip clients = (b, clients')"
  by (rule surj_pair)

lemma answer_query_portal: "fst (snd (answer_query getaddrinfo rules now source d st)) = fst st"
  by (simp add: answer_query_def split: prod.split option.split)

lemma task_append:
  assumes "Receive_failed \<notin> snd ` set before" "s_dns_socket (fst st) \<ge> 0"
  shows "portal_dns_task getaddrinfo rules (before @ rs) st =
      (let (sent, st') = portal_dns_task getaddrinfo rules before st;
           (later, st'') = portal_dns_task getaddrinfo rules rs st' in (sent @ later, st'')) \<and>
    fst (snd (portal_dns_task getaddrinfo rules before st)) = fst st"
  using assms
proof (induction before arbitrary: st)
  case (Cons x before)
  obtain now r where x: "x = (now, r)" by fastforce
  show ?case
  proof (cases r)
    case (Received source d)
    obtain s st1 where a: "answer_query getaddrinfo rules now source d st = (s, st1)" by (rule prod.exhaust)
    have "fst st1 = fst st" using answer_query_portal [of getaddrinfo rules now source d st] by (simp add: a)
    moreover obtain s' st2 where "portal_dns_task getaddrinfo rules before st1 = (s', st2)" by (rule prod.exhaust)
    ultimately show ?thesis
      using Cons.IH [of st1] Cons.prems by (simp add: x Received a split: prod.split)
  next
    case Interrupted
    then show ?thesis using Cons.IH [of st] Cons.prems by (simp add: x)
  qed (use Cons.prems x in auto)
qed simp

lemma take_query:
  assumes "query_ok flags counts labels"
  shows "take PORTAL_DNS_PACKET_SIZE (dns_query ident flags counts labels t c additional) =
    dns_query ident flags counts labels t c (take (PORTAL_DNS_PACKET_SIZE - 12 - length (dns_question labels t c)) additional)"
  using question_fits [OF assms, of t c] assms
  by (simp add: dns_query_def query_ok_def DNS_ANSWER_SIZE_def PORTAL_DNS_PACKET_SIZE_def)

lemma dns_reply_not_Nil: "dns_reply i f q a \<noteq> []"
  by (simp add: dns_reply_def be16_bytes_def)

section \<open>Properties\<close>

text \<open>
  C14: the policy of the DNS service. A query of one question, with any further records, for the name
  \<open>n\<close> is answered with its identifier and its question; the answer is the address of the portal server
  for the portal's domain, in any case, for every client; otherwise the device's own address for a client without access; for a
  client with access REFUSED if the name is blocked, and otherwise the address that the upstream DNS gives, or SERVFAIL. Questions of
  another type get no address.
\<close>

theorem dns_reply_by_policy:
  assumes "query_ok flags counts labels"
  shows "let n = c_str (join_text (CHR ''.'') labels);
      reply = build_dns_response getaddrinfo portal rules (dns_query ident flags counts labels t c additional) authorized
        PORTAL_DNS_PACKET_SIZE;
      answered = (\<lambda>code answer. reply = Some (dns_reply ident (reply_flags flags authorized code) (dns_question labels t c) answer));
      address = (t = 1 \<and> c = 1);
      portal_server = (s_external_portal_enabled portal \<and> map char_lower n = map char_lower (s_external_portal_domain portal));
      blocked = access_filter_is_hostname_blocked rules (Some n)
    in if address \<and> portal_server then answered 0 (Some (s_external_portal_ipv4 portal))
       else if authorized \<and> c = 1 \<and> blocked then answered 5 None
       else if \<not> address then answered 0 None
       else if \<not> authorized then answered 0 (Some (s_portal_ipv4 portal))
       else case getaddrinfo n of
              None \<Rightarrow> answered 2 None
            | Some ip \<Rightarrow> if n = [] \<or> ip = 0 then answered 2 None else answered 0 (Some ip)"
  unfolding Let_def build_reply [OF assms]
  by (auto simp: dns_answer_def strcasecmp_equal_def resolve_authorized_ipv4_def DNS_TYPE_A_def DNS_CLASS_IN_def
      DNS_RCODE_REFUSED_def DNS_RCODE_SERVER_FAILURE_def split: option.split)

text \<open>
  C17: no query goes unanswered. Whatever datagrams came before, malformed ones included, and as long as receiving
  does not fail, a query of one question is answered by one reply to its sender, with its identifier and its question, before anything later is
  answered.
\<close>

theorem dns_query_always_answered:
  assumes "query_ok flags counts labels" "Receive_failed \<notin> snd ` set before" "s_dns_socket (fst st) \<ge> 0"
  shows "\<exists>code authorized answer later.
    fst (portal_dns_task getaddrinfo rules (before @ (now, Received source (dns_query ident flags counts labels t c additional)) # rest) st) =
      fst (portal_dns_task getaddrinfo rules before st) @
      (source, dns_reply ident (reply_flags flags authorized code) (dns_question labels t c) answer) # later"
proof -
  let ?r = "(now, Received source (dns_query ident flags counts labels t c additional)) # rest"
  obtain sent portal clients where b: "portal_dns_task getaddrinfo rules before st = (sent, portal, clients)"
    using prod_cases3 by blast
  have split: "portal_dns_task getaddrinfo rules (before @ ?r) st =
      (let (later, st'') = portal_dns_task getaddrinfo rules ?r (portal, clients) in (sent @ later, st''))"
    and portal: "s_dns_socket portal \<ge> 0"
    using task_append [OF assms(2,3), of getaddrinfo rules ?r] assms(3) by (simp_all add: b)
  obtain authorized clients' where f: "client_access_can_forward_ipv4 now source clients = (authorized, clients')"
    using can_forward_pair by blast
  obtain answer code where a: "dns_answer getaddrinfo portal rules authorized (c_str (join_text (CHR ''.'') labels)) t c = (answer, code)"
    by fastforce
  have q: "answer_query getaddrinfo rules now source (dns_query ident flags counts labels t c additional) (portal, clients) =
      ([(source, dns_reply ident (reply_flags flags authorized code) (dns_question labels t c) answer)], portal, clients')"
    by (simp add: answer_query_def f take_query [OF assms(1)] build_reply [OF assms(1)] a dns_reply_not_Nil)
  have "fst (portal_dns_task getaddrinfo rules ?r (portal, clients)) =
      (source, dns_reply ident (reply_flags flags authorized code) (dns_question labels t c) answer) #
      fst (portal_dns_task getaddrinfo rules rest (portal, clients'))"
    using portal by (simp add: q split: prod.split)
  moreover have "fst (portal_dns_task getaddrinfo rules (before @ ?r) st) = sent @ fst (portal_dns_task getaddrinfo rules ?r (portal, clients))"
    unfolding split by (simp split: prod.split)
  ultimately show ?thesis unfolding b by auto
qed

text \<open>
  C15: a client without access learns nothing from the DNS service. For every datagram of such a client, what is
  sent does not depend on the upstream DNS and not on the blocking rules; it goes back to the client, fits the buffer, and holds no address but the
  device's own and that of the portal server.
\<close>

theorem dns_unauthorized_isolated:
  assumes "\<not> fst (client_access_can_forward_ipv4 now source clients)"
  shows "answer_query getaddrinfo rules now source datagram (portal, clients) =
      answer_query getaddrinfo' rules' now source datagram (portal, clients) \<and>
    (\<forall>(dest, r) \<in> set (fst (answer_query getaddrinfo rules now source datagram (portal, clients))).
      dest = source \<and> length r \<le> PORTAL_DNS_PACKET_SIZE \<and>
      (\<exists>flags question answer. r = dns_reply (packet_u16 datagram 0) flags question answer \<and>
        (answer = None \<or> answer = Some (s_portal_ipv4 portal) \<or>
         s_external_portal_enabled portal \<and> answer = Some (s_external_portal_ipv4 portal))))"
proof
  obtain clients' where f: "client_access_can_forward_ipv4 now source clients = (False, clients')"
    using assms by (cases "client_access_can_forward_ipv4 now source clients") auto
  have "dns_answer getaddrinfo portal rules False n t c = dns_answer getaddrinfo' portal rules' False n t c" for n t c
    by (cases "t = DNS_TYPE_A"; cases "c = DNS_CLASS_IN") (simp_all add: dns_answer_def)
  then have same: "dns_answer getaddrinfo portal rules False = dns_answer getaddrinfo' portal rules' False"
    by (intro ext)
  have "build_dns_response getaddrinfo portal rules p False n = build_dns_response getaddrinfo' portal rules' p False n" for p n
    unfolding build_dns_response_def same by (rule refl)
  then show "answer_query getaddrinfo rules now source datagram (portal, clients) =
      answer_query getaddrinfo' rules' now source datagram (portal, clients)"
    by (simp add: answer_query_def f)
  let ?p = "take PORTAL_DNS_PACKET_SIZE datagram"
  have "dest = source \<and> length r \<le> PORTAL_DNS_PACKET_SIZE \<and>
      (\<exists>flags question answer. r = dns_reply (packet_u16 datagram 0) flags question answer \<and>
        (answer = None \<or> answer = Some (s_portal_ipv4 portal) \<or>
         s_external_portal_enabled portal \<and> answer = Some (s_external_portal_ipv4 portal)))"
    if mem: "(dest, r) \<in> set (fst (answer_query getaddrinfo rules now source datagram (portal, clients)))" for dest r
  proof -
    from mem have d: "dest = source" and b: "build_dns_response getaddrinfo portal rules ?p False PORTAL_DNS_PACKET_SIZE = Some r"
      by (auto simp: answer_query_def f split: option.splits if_splits)
    from b obtain name question_end t c answer code where
      a: "dns_answer getaddrinfo portal rules False (c_str name) t c = (answer, code)" and
      r: "r = dns_reply (packet_u16 ?p 0) (reply_flags (packet_u16 ?p 2) False code) (drop 12 (take question_end ?p)) answer"
        "length r \<le> PORTAL_DNS_PACKET_SIZE"
      by (rule built_reply)
    have "packet_u16 ?p 0 = packet_u16 datagram 0" by (simp add: packet_u16_def PORTAL_DNS_PACKET_SIZE_def)
    moreover have "answer = None \<or> answer = Some (s_portal_ipv4 portal) \<or>
         s_external_portal_enabled portal \<and> answer = Some (s_external_portal_ipv4 portal)"
      using a by (auto simp: dns_answer_def split: if_split_asm)
    ultimately show ?thesis using d r by auto
  qed
  then show "\<forall>(dest, r) \<in> set (fst (answer_query getaddrinfo rules now source datagram (portal, clients))).
      dest = source \<and> length r \<le> PORTAL_DNS_PACKET_SIZE \<and>
      (\<exists>flags question answer. r = dns_reply (packet_u16 datagram 0) flags question answer \<and>
        (answer = None \<or> answer = Some (s_portal_ipv4 portal) \<or>
         s_external_portal_enabled portal \<and> answer = Some (s_external_portal_ipv4 portal)))"
    by blast
qed

section \<open>Witnesses\<close>

definition open_dns :: portal_dns where
  "open_dns = portal_dns_boot\<lparr>s_dns_task := True, s_dns_socket := 3, s_portal_ipv4 := 0x0104A8C0\<rparr>"

definition sample_labels :: "string list" where "sample_labels = [''example'', ''com'']"

lemma sample_query_ok: "query_ok 0x0100 (replicate 6 0) sample_labels"
  by (simp add: query_ok_def sample_labels_def)

lemma dns_reply_by_policy_witness:
  "build_dns_response (\<lambda>_. None) open_dns access_rules_boot (dns_query 7 0x0100 (replicate 6 0) sample_labels 1 1 []) False
     PORTAL_DNS_PACKET_SIZE = Some (dns_reply 7 0x8500 (dns_question sample_labels 1 1) (Some 0x0104A8C0))"
  using dns_reply_by_policy [OF sample_query_ok, of "\<lambda>_. None" open_dns access_rules_boot 7 1 1 "[]" False]
  by (simp add: open_dns_def portal_dns_boot_def reply_flags_def Let_def)

lemma dns_query_always_answered_witness:
  "\<exists>code authorized answer later.
    fst (portal_dns_task (\<lambda>_. None) access_rules_boot [(0, Received 9 [1, 2, 3]), (0, Interrupted),
      (0, Received 9 (dns_query 7 0x0100 (replicate 6 0) sample_labels 1 1 []))] (open_dns, client_access_boot 4)) =
    fst (portal_dns_task (\<lambda>_. None) access_rules_boot [(0, Received 9 [1, 2, 3]), (0, Interrupted)] (open_dns, client_access_boot 4)) @
      (9, dns_reply 7 (reply_flags 0x0100 authorized code) (dns_question sample_labels 1 1) answer) # later"
  using dns_query_always_answered [OF sample_query_ok, of "[(0, Received 9 [1, 2, 3]), (0, Interrupted)]" "(open_dns, client_access_boot 4)"
      "\<lambda>_. None" access_rules_boot 0 9 7 1 1 "[]" "[]"]
  by (simp add: open_dns_def portal_dns_boot_def)

lemma dns_unauthorized_isolated_witness:
  "answer_query (\<lambda>_. None) access_rules_boot 0 9 [1, 2, 3] (open_dns, client_access_boot 4) =
   answer_query (\<lambda>_. Some 1) access_rules_boot 0 9 [1, 2, 3] (open_dns, client_access_boot 4)"
proof -
  have "\<not> fst (client_access_can_forward_ipv4 0 9 (client_access_boot 4))"
  proof -
    have "find_idx (has_ip 9) (replicate 4 zero_entry) = None" by (simp add: find_idx_None has_ip_def zero_entry_def)
    then show ?thesis by (simp add: client_access_can_forward_ipv4_def client_access_boot_def)
  qed
  from dns_unauthorized_isolated [OF this] show ?thesis by blast
qed

end
