(* ===== verification/Captive_Portal.thy ===== *)
theory Captive_Portal
  imports Portal_Dns
begin

text \<open>
  The local HTTP server of the portal, components/captive\_portal/captive\_portal.c: the page for clients, the
  redirect to the portal server, the form for the credentials of the upstream network, and the start.

  The HTTP server, \<open>getpeername\<close> and the DNS and DHCP services are parameters. A handler returns what it sent, in order, and its
  result. The two HTML pages and the page after saving are constants of \<open>http_body\<close>; their contents are not modelled. The function that stores the
  credentials is a field of the configuration, as in the code; it acts on a state of its own.
\<close>

definition PROVISION_BODY_SIZE :: nat where "PROVISION_BODY_SIZE = 384"
definition PROVISION_ENCODED_SSID_SIZE :: nat where "PROVISION_ENCODED_SSID_SIZE = 128"
definition PROVISION_ENCODED_PASSWORD_SIZE :: nat where "PROVISION_ENCODED_PASSWORD_SIZE = 192"
definition PROVISION_SSID_SIZE :: nat where "PROVISION_SSID_SIZE = 33"
definition PROVISION_PASSWORD_SIZE :: nat where "PROVISION_PASSWORD_SIZE = 64"
definition REDIRECT_URL_SIZE :: nat where "REDIRECT_URL_SIZE = 320"

lemmas provision_sizes = PROVISION_BODY_SIZE_def PROVISION_ENCODED_SSID_SIZE_def PROVISION_ENCODED_PASSWORD_SIZE_def
  PROVISION_SSID_SIZE_def PROVISION_PASSWORD_SIZE_def

record 's captive_portal_config =
  provisioning_mode :: bool
  external_portal_url :: "string option"
  device_code :: "string option"
  external_portal_domain :: "string option"
  external_portal_ipv4 :: "string option"
  provision_handler :: "(string \<Rightarrow> string \<Rightarrow> 's \<Rightarrow> esp_err \<times> 's) option"

record 's captive_portal =
  s_server :: bool
  s_config :: "'s captive_portal_config"
  registered_uris :: "string list"
  portal_dns :: portal_dns

section \<open>Requests and responses\<close>

text \<open>What \<open>httpd_req_recv\<close> returns; what \<open>getpeername\<close> finds.\<close>

datatype http_recv = Recv_timeout | Recv_failed | Recv_data string

datatype peer = No_peer | Peer_ipv4 u32 | Peer_ipv6 bytes | Peer_other

record http_request =
  req_sockfd :: int
  req_peer :: peer
  content_len :: nat
  req_recv :: "http_recv list"

datatype http_body = Provisioning_html | Portal_html | Saved_html | Plain_text string

record http_response =
  resp_status :: string
  resp_type :: string
  resp_headers :: "(string \<times> string) list"
  resp_body :: http_body

datatype http_reply = Response http_response | Error_response nat string

text \<open>The functions of the HTTP server and \<open>IN6_IS_ADDR_V4MAPPED\<close>.\<close>

record http_api =
  httpd_resp_send :: "http_reply \<Rightarrow> esp_err"
  httpd_query_key_value :: "string \<Rightarrow> string \<Rightarrow> nat \<Rightarrow> esp_err + string"
  in6_is_addr_v4mapped :: "bytes \<Rightarrow> bool"

definition captive_portal_set_provisioning_mode :: "bool \<Rightarrow> 's captive_portal \<Rightarrow> 's captive_portal" where
  "captive_portal_set_provisioning_mode provisioning portal =
     portal\<lparr>s_config := s_config portal\<lparr>provisioning_mode := provisioning\<rparr>\<rparr>"

section \<open>Form values\<close>

definition hex_character_to_value :: "char \<Rightarrow> int" where
  "hex_character_to_value c =
     (let n = int (char_code c) in
      if 48 \<le> n \<and> n \<le> 57 then n - 48
      else if 97 \<le> n \<and> n \<le> 102 then n - 97 + 10
      else if 65 \<le> n \<and> n \<le> 70 then n - 65 + 10
      else - 1)"

text \<open>The next character of the value and what follows it.\<close>

definition decode_next :: "char \<Rightarrow> string \<Rightarrow> esp_err + (nat \<times> string)" where
  "decode_next c rest =
     (if c = CHR ''+'' then Inr (32, rest)
      else if c = CHR ''%'' then
        (case rest of
           a # b # rest \<Rightarrow>
             (let high = hex_character_to_value a; low = hex_character_to_value b in
              if high < 0 \<or> low < 0 then Inl ESP_ERR_INVALID_ARG else Inr (nat (16 * high + low), rest))
         | _ \<Rightarrow> Inl ESP_ERR_INVALID_ARG)
      else Inr (char_code c, rest))"

lemma decode_next_shorter: "decode_next c rest = Inr (v, rest') \<Longrightarrow> length rest' \<le> length rest"
  by (auto simp: decode_next_def Let_def split: if_split_asm list.splits)

function decode_loop :: "nat \<Rightarrow> string \<Rightarrow> string \<Rightarrow> esp_err + string" where
  "decode_loop decoded_size [] decoded = Inr decoded"
| "decode_loop decoded_size (c # encoded) decoded =
     (case decode_next c encoded of
        Inl err \<Rightarrow> Inl err
      | Inr (decoded_character, encoded) \<Rightarrow>
          if decoded_character = 0 then Inl ESP_ERR_INVALID_ARG
          else if length decoded + 1 \<ge> decoded_size then Inl ESP_ERR_NO_MEM
          else decode_loop decoded_size encoded (decoded @ [char_of decoded_character]))"
  by pat_completeness auto
termination
  by (relation "measure (\<lambda>(decoded_size, encoded, decoded). length encoded)")
    (auto dest!: decode_next_shorter simp: less_Suc_eq_le)

definition decode_form_value :: "string \<Rightarrow> nat \<Rightarrow> esp_err + string" where
  "decode_form_value encoded decoded_size =
     (if decoded_size = 0 then Inl ESP_ERR_INVALID_ARG else decode_loop decoded_size (c_str encoded) [])"

section \<open>The page for clients\<close>

text \<open>The address in memory order.\<close>

definition memory_word :: "bytes \<Rightarrow> u32" where
  "memory_word bs = of_nat (unat (bs ! 0) + 256 * unat (bs ! 1) + 256 ^ 2 * unat (bs ! 2) + 256 ^ 3 * unat (bs ! 3))"

definition get_request_source_ipv4 :: "http_api \<Rightarrow> http_request \<Rightarrow> esp_err + u32" where
  "get_request_source_ipv4 http request =
     (if req_sockfd request < 0 then Inl ESP_FAIL
      else case req_peer request of
             No_peer \<Rightarrow> Inl ESP_FAIL
           | Peer_ipv4 ip \<Rightarrow> Inr ip
           | Peer_ipv6 addr \<Rightarrow>
               if \<not> in6_is_addr_v4mapped http addr then Inl ESP_ERR_NOT_SUPPORTED
               else Inr (memory_word (take 4 (drop 12 addr)))
           | Peer_other \<Rightarrow> Inl ESP_ERR_NOT_SUPPORTED)"

definition redirect_url :: "string \<Rightarrow> string \<Rightarrow> client_access_snapshot \<Rightarrow> string" where
  "redirect_url url code snapshot =
     url @ ''?deviceCode='' @ code @ ''&mac='' @ mac_text (snap_mac snapshot) @ ''&ip='' @ ip4_text (snap_ipv4 snapshot)"

definition redirect_response :: "string \<Rightarrow> string \<Rightarrow> http_response" where
  "redirect_response location message =
     \<lparr>resp_status = ''302 Found'', resp_type = ''text/plain; charset=utf-8'',
      resp_headers = [(''Location'', location), (''Cache-Control'', ''no-store'')], resp_body = Plain_text message\<rparr>"

definition send_external_portal_redirect ::
  "http_api \<Rightarrow> 's captive_portal_config \<Rightarrow> client_access_snapshot \<Rightarrow> http_reply list \<times> esp_err" where
  "send_external_portal_redirect http config snapshot =
     (case (external_portal_url config, device_code config) of
        (Some url, Some code) \<Rightarrow>
          if length (mac_text (snap_mac snapshot)) \<ge> 18 then ([], ESP_ERR_NO_MEM)
          else
            (let location = redirect_url url code snapshot in
             if length location \<ge> REDIRECT_URL_SIZE then ([], ESP_ERR_NO_MEM)
             else
               (let reply = Response (redirect_response location ''Redirecting to external portal'')
                in ([reply], httpd_resp_send http reply)))
      | _ \<Rightarrow> ([], ESP_ERR_INVALID_ARG))"

definition send_error :: "http_api \<Rightarrow> nat \<Rightarrow> string \<Rightarrow> http_reply list \<times> esp_err" where
  "send_error http code message = ([Error_response code message], httpd_resp_send http (Error_response code message))"

definition html_response :: "(string \<times> string) list \<Rightarrow> http_body \<Rightarrow> http_response" where
  "html_response headers page =
     \<lparr>resp_status = ''200 OK'', resp_type = ''text/html; charset=utf-8'', resp_headers = headers, resp_body = page\<rparr>"

text \<open>
  The snapshot of the requesting client, if it is asked for and found; \<open>arp\<close> and \<open>meanwhile\<close> are the parameters of
  \<open>client_access_get_snapshot_by_ipv4\<close>.
\<close>

definition request_snapshot ::
  "http_api \<Rightarrow> arp_service \<Rightarrow> (client_access \<Rightarrow> client_access) \<Rightarrow> http_request \<Rightarrow> client_access \<Rightarrow>
     client_access_snapshot option \<times> client_access" where
  "request_snapshot http arp meanwhile request clients =
     (case get_request_source_ipv4 http request of
        Inl _ \<Rightarrow> (None, clients)
      | Inr source_ip \<Rightarrow>
          (case client_access_get_snapshot_by_ipv4 arp meanwhile source_ip clients of
             (Inl _, clients) \<Rightarrow> (None, clients)
           | (Inr snapshot, clients) \<Rightarrow> (Some snapshot, clients)))"

definition portal_page_handler ::
  "http_api \<Rightarrow> arp_service \<Rightarrow> (client_access \<Rightarrow> client_access) \<Rightarrow> 's captive_portal_config \<Rightarrow> http_request \<Rightarrow>
     client_access \<Rightarrow> (http_reply list \<times> esp_err) \<times> client_access" where
  "portal_page_handler http arp meanwhile config request clients =
     (case (if provisioning_mode config then (None, clients) else request_snapshot http arp meanwhile request clients) of
        (found, clients) \<Rightarrow>
          (if \<not> provisioning_mode config \<and> external_portal_url config \<noteq> None \<and> found \<noteq> None
           then (case send_external_portal_redirect http config (the found) of (sent, redirect_err) \<Rightarrow>
                   if redirect_err \<noteq> ESP_OK
                   then (case send_error http 500 ''Portal redirect failed'' of (sent', err) \<Rightarrow> (sent @ sent', err))
                   else (sent, ESP_OK))
           else
             (let reply = Response (html_response [(''Cache-Control'', ''no-store'')]
                    (if provisioning_mode config then Provisioning_html else Portal_html))
              in ([reply], httpd_resp_send http reply)), clients))"

definition portal_not_found_handler :: "http_api \<Rightarrow> http_reply list \<times> esp_err" where
  "portal_not_found_handler http =
     (let reply = Response (redirect_response ''/'' ''Redirecting to captive portal'') in ([reply], httpd_resp_send http reply))"

section \<open>The form for the upstream network\<close>

text \<open>
  The loop that reads the body: the results of \<open>httpd_req_recv\<close>, of which at most the requested length is used.
  \<open>None\<close>: the loop still waits.
\<close>

fun receive_body :: "http_recv list \<Rightarrow> nat \<Rightarrow> string \<Rightarrow> nat \<Rightarrow> (esp_err + string) option" where
  "receive_body rs n body timeout_count =
     (if length body < n then
        (case rs of
           [] \<Rightarrow> None
         | r # rs \<Rightarrow>
             (case r of
                Recv_timeout \<Rightarrow>
                  if timeout_count + 1 \<ge> 3 then Some (Inl ESP_FAIL) else receive_body rs n body (timeout_count + 1)
              | Recv_failed \<Rightarrow> Some (Inl ESP_FAIL)
              | Recv_data d \<Rightarrow>
                  if d = [] then Some (Inl ESP_FAIL)
                  else receive_body rs n (body @ take (n - length body) d) 0))
      else Some (Inr body))"

declare receive_body.simps [simp del]

text \<open>The two fields of the form, decoded; \<open>Inl\<close> is the message of the error response.\<close>

definition form_credentials :: "http_api \<Rightarrow> string \<Rightarrow> string + (string \<times> string)" where
  "form_credentials http body =
     (case httpd_query_key_value http (c_str body) ''ssid'' PROVISION_ENCODED_SSID_SIZE of
        Inl _ \<Rightarrow> Inl ''SSID is missing or invalid''
      | Inr encoded_ssid \<Rightarrow>
          (case httpd_query_key_value http (c_str body) ''password'' PROVISION_ENCODED_PASSWORD_SIZE of
             Inl _ \<Rightarrow> Inl ''Password field is missing''
           | Inr encoded_password \<Rightarrow>
               (case decode_form_value encoded_ssid PROVISION_SSID_SIZE of
                  Inl _ \<Rightarrow> Inl ''SSID decoding failed''
                | Inr ssid \<Rightarrow>
                    (case decode_form_value encoded_password PROVISION_PASSWORD_SIZE of
                       Inl _ \<Rightarrow> Inl ''Password decoding failed''
                     | Inr password \<Rightarrow> Inr (ssid, password)))))"

text \<open>What a handler does: the replies, its result, and whether the device restarts.\<close>

record post_result =
  post_replies :: "http_reply list"
  post_err :: esp_err
  post_restart :: bool

definition post_error :: "http_api \<Rightarrow> nat \<Rightarrow> string \<Rightarrow> post_result" where
  "post_error http code message =
     \<lparr>post_replies = fst (send_error http code message), post_err = snd (send_error http code message), post_restart = False\<rparr>"

definition provision_post_handler ::
  "http_api \<Rightarrow> 's captive_portal_config \<Rightarrow> http_request \<Rightarrow> 's \<Rightarrow> (post_result \<times> 's) option" where
  "provision_post_handler http config request st =
     (if \<not> provisioning_mode config \<or> provision_handler config = None
      then Some (post_error http 400 ''Provisioning mode is not active'', st)
      else if content_len request = 0 \<or> content_len request \<ge> PROVISION_BODY_SIZE
      then Some (post_error http 413 ''Provision request is too large'', st)
      else
        (case receive_body (req_recv request) (content_len request) [] 0 of
           None \<Rightarrow> None
         | Some (Inl err) \<Rightarrow> Some (\<lparr>post_replies = [], post_err = err, post_restart = False\<rparr>, st)
         | Some (Inr body) \<Rightarrow>
             (case form_credentials http body of
                Inl message \<Rightarrow> Some (post_error http 400 message, st)
              | Inr (ssid, password) \<Rightarrow>
                  (case the (provision_handler config) ssid password st of (err, st) \<Rightarrow>
                     if err = ESP_ERR_INVALID_ARG then Some (post_error http 400 ''WiFi credentials are invalid'', st)
                     else if err \<noteq> ESP_OK then Some (post_error http 500 ''Save WiFi credentials failed'', st)
                     else
                       (let reply = Response (html_response [] Saved_html); send_err = httpd_resp_send http reply in
                        Some (\<lparr>post_replies = [reply], post_err = send_err, post_restart = (send_err = ESP_OK)\<rparr>, st))))))"

section \<open>Starting\<close>

definition validate_external_portal_config :: "'s captive_portal_config option \<Rightarrow> esp_err" where
  "validate_external_portal_config config =
     (case config of
        None \<Rightarrow> ESP_ERR_INVALID_ARG
      | Some c \<Rightarrow>
          if external_portal_url c = None \<and> external_portal_domain c = None \<and> external_portal_ipv4 c = None then ESP_OK
          else (case (external_portal_url c, external_portal_domain c, external_portal_ipv4 c, device_code c) of
                  (Some url, Some domain, Some ip, Some code) \<Rightarrow>
                    if url = [] \<or> domain = [] \<or> ip = [] \<or> code = [] then ESP_ERR_INVALID_ARG
                    else if CHR ''?'' \<in> set url then ESP_ERR_INVALID_ARG
                    else ESP_OK
                | _ \<Rightarrow> ESP_ERR_INVALID_ARG))"

record portal_start_env =
  httpd_start :: esp_err
  httpd_register_err_handler :: esp_err
  httpd_register_uri_handler :: "string \<Rightarrow> esp_err"
  dns_env :: dns_start_env

definition httpd_stop :: "'s captive_portal \<Rightarrow> 's captive_portal" where
  "httpd_stop portal = portal\<lparr>s_server := False, registered_uris := []\<rparr>"

definition register_uri :: "portal_start_env \<Rightarrow> string \<Rightarrow> 's captive_portal \<Rightarrow> esp_err \<times> 's captive_portal" where
  "register_uri env uri portal =
     (let err = httpd_register_uri_handler env uri in
      (err, if err = ESP_OK then portal\<lparr>registered_uris := registered_uris portal @ [uri]\<rparr> else portal))"

definition portal_uris :: "string list" where
  "portal_uris = [''/'', ''/generate_204'', ''/hotspot-detect.html'', ''/connecttest.txt'', ''/ncsi.txt'']"

definition start_portal_dns :: "lwip_api \<Rightarrow> portal_start_env \<Rightarrow> 's captive_portal \<Rightarrow> esp_err \<times> 's captive_portal" where
  "start_portal_dns lw env portal =
     (let c = s_config portal;
          (err, dns) = (if provisioning_mode c then portal_dns_start lw (dns_env env) None None (portal_dns portal)
                        else portal_dns_start lw (dns_env env) (external_portal_domain c) (external_portal_ipv4 c)
                               (portal_dns portal))
      in (err, portal\<lparr>portal_dns := dns\<rparr>))"

definition captive_portal_start ::
  "lwip_api \<Rightarrow> portal_start_env \<Rightarrow> 's captive_portal_config option \<Rightarrow> 's captive_portal \<Rightarrow> esp_err \<times> 's captive_portal" where
  "captive_portal_start lw env config portal =
     (case config of
        None \<Rightarrow> (ESP_ERR_INVALID_ARG, portal)
      | Some c \<Rightarrow>
          if provisioning_mode c \<and> provision_handler c = None then (ESP_ERR_INVALID_ARG, portal)
          else if \<not> provisioning_mode c \<and> validate_external_portal_config config \<noteq> ESP_OK
          then (validate_external_portal_config config, portal)
          else if s_server portal then (ESP_OK, portal)
          else
            (let portal = portal\<lparr>s_config := c\<rparr> in
             if httpd_start env \<noteq> ESP_OK then (httpd_start env, portal)
             else
               (case fold if_ok
                       ((\<lambda>p. (httpd_register_err_handler env, p)) # map (register_uri env) portal_uris @
                        [register_uri env ''/api/provision'', start_portal_dns lw env])
                       (ESP_OK, portal\<lparr>s_server := True\<rparr>) of
                  (err, portal) \<Rightarrow> if err \<noteq> ESP_OK then (err, httpd_stop portal) else (ESP_OK, portal))))"

end
