(* ===== verification/Portal_Runs.thy ===== *)
theory Portal_Runs
  imports Captive_Portal Mac_Text Client_Table
begin

text \<open>
  The portal's HTTP handlers: reading and decoding the form, what a POST can change, and the redirect that tells the
  portal server which client to let in.
\<close>

section \<open>Decoding inverts every encoding\<close>

text \<open>
  A browser writes a character as itself, as a plus sign (the space), or as a percent sign and two hexadecimal digits; which characters
  it leaves alone differs (\<open>literal\<close>), but never those with a meaning in the format.
\<close>

definition form_char :: "(char \<Rightarrow> bool) \<Rightarrow> char \<Rightarrow> string" where
  "form_char literal c =
     (if literal c then [c] else if c = CHR '' '' then ''+''
      else CHR ''%'' # hex2 (of_nat (char_code c)))"

definition form_encode :: "(char \<Rightarrow> bool) \<Rightarrow> string \<Rightarrow> string" where
  "form_encode literal s = concat (map (form_char literal) s)"

definition literal_ok :: "(char \<Rightarrow> bool) \<Rightarrow> bool" where
  "literal_ok literal \<longleftrightarrow> (\<forall>c \<in> {CHR ''+'', CHR ''%'', CHR ''&'', CHR ''='', NUL}. \<not> literal c)"

lemma hex_char_value: "n < 16 \<Longrightarrow> hex_character_to_value (hex_char n) = int n"
  by (simp add: hex_character_to_value_def hex_char_def Let_def)

lemma unat_code: "unat (of_nat (char_code c) :: u8) = char_code c"
  by (simp add: unat_of_nat take_bit_nat_eq_self)

lemma decode_char:
  assumes "literal_ok literal"
  shows "\<exists>a r. form_char literal c = a # r \<and> decode_next a (r @ rest) = Inr (char_code c, rest)"
proof -
  have d: "char_code c div 16 < 16" "char_code c mod 16 < 16"
    using char_code_lt [of c] by (simp_all add: div_less_iff_less_mult del: char_code_lt)
  have v: "16 * int (char_code c div 16) + int (char_code c mod 16) = int (char_code c)"
    by (metis mult_div_mod_eq of_nat_add of_nat_mult of_nat_numeral)
  consider "literal c" | "\<not> literal c" "c = CHR '' ''" | "\<not> literal c" "c \<noteq> CHR '' ''" by blast
  then show ?thesis
  proof cases
    case 1
    then have "c \<noteq> CHR ''+''" "c \<noteq> CHR ''%''" using assms by (auto simp: literal_ok_def)
    then show ?thesis using 1 by (simp add: form_char_def decode_next_def)
  next
    case 2
    then show ?thesis by (simp add: form_char_def decode_next_def char_code_def)
  next
    case 3
    then show ?thesis
      using v by (simp add: form_char_def decode_next_def hex2_def unat_code hex_char_value [OF d(1)] hex_char_value [OF d(2)] Let_def)
  qed
qed

lemma decode_loop_encoded:
  assumes "literal_ok literal"
  shows "NUL \<notin> set s \<Longrightarrow> length decoded + length s < size' \<Longrightarrow>
    decode_loop size' (form_encode literal s) decoded = Inr (decoded @ s)"
proof (induction s arbitrary: decoded)
  case (Cons c s)
  obtain a r where c: "form_char literal c = a # r" "decode_next a (r @ form_encode literal s) = Inr (char_code c, form_encode literal s)"
    using decode_char [OF assms] by blast
  have "char_code c \<noteq> 0"
  proof
    assume "char_code c = 0"
    then have "char_of (char_code c) = NUL" by (simp add: NUL_def)
    then show False using Cons.prems(1) by simp
  qed
  then have "decode_loop size' (form_encode literal (c # s)) decoded = decode_loop size' (form_encode literal s) (decoded @ [c])"
    using Cons.prems(2) c by (simp add: form_encode_def)
  then show ?case using Cons.IH [of "decoded @ [c]"] Cons.prems by simp
qed (simp add: form_encode_def)

lemma form_char_set: "literal_ok literal \<Longrightarrow> x \<in> set (form_char literal c) \<Longrightarrow> x \<notin> {CHR ''&'', CHR ''='', NUL}"
proof -
  assume ok: "literal_ok literal" and x: "x \<in> set (form_char literal c)"
  have hex: "hex_char n \<notin> {CHR ''&'', CHR ''='', NUL}" if "n < 16" for n
  proof -
    have "char_code (hex_char n) \<in> {48..57} \<union> {65..70}" using hex_char_code [OF that] that by simp
    then show ?thesis by (auto simp: char_code_def NUL_char)
  qed
  have "char_code c div 16 < 16" "char_code c mod 16 < 16"
    using char_code_lt [of c] by (simp_all add: div_less_iff_less_mult del: char_code_lt)
  from hex [OF this(1)] hex [OF this(2)] ok x show ?thesis
    by (auto simp: form_char_def literal_ok_def hex2_def unat_code NUL_char split: if_split_asm)
qed

lemma form_encode_plain:
  assumes "literal_ok literal"
  shows "CHR ''&'' \<notin> set (form_encode literal s)" "CHR ''='' \<notin> set (form_encode literal s)" "NUL \<notin> set (form_encode literal s)"
  using form_char_set [OF assms] by (auto simp: form_encode_def)

lemma length_form_encode: "length (form_encode literal s) \<le> 3 * length s"
  by (induction s) (auto simp: form_encode_def form_char_def hex2_def)

lemma decode_form_encoded:
  assumes "literal_ok literal" "NUL \<notin> set s" "length s < n"
  shows "decode_form_value (form_encode literal s) n = Inr s"
  using decode_loop_encoded [OF assms(1,2), of "[]" n] assms(3) form_encode_plain(3) [OF assms(1)]
  by (simp add: decode_form_value_def c_str_noNUL)

section \<open>Receiving the body\<close>

text \<open>With three results per byte the loop has always decided.\<close>

lemma receive_body_decides:
  assumes "timeout_count < 3" "length body < n \<Longrightarrow> 3 * (n - length body) \<le> length rs + timeout_count"
  shows "receive_body rs n body timeout_count \<noteq> None"
  using assms
proof (induction rs arbitrary: body timeout_count)
  case Nil
  then show ?case by (subst receive_body.simps) auto
next
  case (Cons r rs)
  show ?case
  proof (cases r)
    case Recv_timeout
    then show ?thesis using Cons by (subst receive_body.simps) auto
  next
    case (Recv_data d)
    have "receive_body rs n (body @ take (n - length body) d) 0 \<noteq> None" if "d \<noteq> []" "length body < n"
    proof (rule Cons.IH)
      have "Suc 0 \<le> length d" using that(1) by (cases d) simp_all
      then have "Suc (n - (length body + min (length d) (n - length body))) \<le> n - length body" using that(2) by linarith
      then show "3 * (n - length (body @ take (n - length body) d)) \<le> length rs + 0"
        using Cons.prems that(2) by simp
    qed simp
    then show ?thesis using Recv_data by (subst receive_body.simps) auto
  qed (subst receive_body.simps, simp)
qed

text \<open>A body that arrives in pieces, each after at most two timeouts.\<close>

definition arrives :: "(nat \<times> string) list \<Rightarrow> http_recv list" where
  "arrives pieces = concat (map (\<lambda>(k, d). replicate k Recv_timeout @ [Recv_data d]) pieces)"

lemma receive_timeouts:
  "k + t < 3 \<Longrightarrow> length body < n \<Longrightarrow> receive_body (replicate k Recv_timeout @ rs) n body t = receive_body rs n body (k + t)"
proof (induction k arbitrary: t)
  case (Suc k)
  then show ?case using Suc.IH [of "Suc t"] by (subst receive_body.simps) simp
qed simp

lemma receive_pieces:
  assumes "\<forall>(k, d) \<in> set pieces. k < 3 \<and> d \<noteq> []"
  shows "receive_body (arrives pieces) (length body + length (concat (map snd pieces))) body 0 =
    Some (Inr (body @ concat (map snd pieces)))"
  using assms
proof (induction pieces arbitrary: body)
  case Nil
  then show ?case by (subst receive_body.simps) (simp add: arrives_def)
next
  case (Cons x pieces)
  obtain k d where x: "x = (k, d)" by fastforce
  have k: "k < 3" "d \<noteq> []" using Cons.prems x by auto
  let ?n = "length body + length (concat (map snd (x # pieces)))"
  have n: "length body < ?n" "?n = length (body @ d) + length (concat (map snd pieces))" using k x by simp_all
  have "receive_body (arrives (x # pieces)) ?n body 0 = receive_body (Recv_data d # arrives pieces) ?n body k"
    using receive_timeouts [of k 0 body ?n "Recv_data d # arrives pieces"] k n(1) by (simp add: arrives_def x)
  also have "\<dots> = receive_body (arrives pieces) ?n (body @ d) 0"
    using k n by (subst receive_body.simps) (simp add: x)
  also have "\<dots> = Some (Inr ((body @ d) @ concat (map snd pieces)))"
    unfolding n(2) using Cons.prems by (intro Cons.IH) simp
  finally show ?case by (simp add: x)
qed

section \<open>The form\<close>

text \<open>The body of a form, and what \<open>httpd_query_key_value\<close> promises of it: the value of a field that fits.\<close>

fun render_query :: "(string \<times> string) list \<Rightarrow> string" where
  "render_query [] = []"
| "render_query [(k, v)] = k @ CHR ''='' # v"
| "render_query ((k, v) # fs) = k @ CHR ''='' # v @ CHR ''&'' # render_query fs"

definition query_fields_ok :: "(string \<times> string) list \<Rightarrow> bool" where
  "query_fields_ok fs \<longleftrightarrow> distinct (map (map char_lower \<circ> fst) fs) \<and>
     (\<forall>(k, v) \<in> set fs. k \<noteq> [] \<and> set (k @ v) \<inter> {CHR ''&'', CHR ''='', NUL} = {})"

definition query_contract :: "http_api \<Rightarrow> bool" where
  "query_contract http \<longleftrightarrow>
     (\<forall>fs k v n. query_fields_ok fs \<and> (k, v) \<in> set fs \<and> length v < n \<longrightarrow>
        httpd_query_key_value http (render_query fs) k n = Inr v)"

definition form_body :: "(char \<Rightarrow> bool) \<Rightarrow> string \<Rightarrow> string \<Rightarrow> string" where
  "form_body literal i p = render_query [(''ssid'', form_encode literal i), (''password'', form_encode literal p)]"

text \<open>What can be entered: the limits of the form's fields, and no zero byte.\<close>

definition entered :: "string \<Rightarrow> string \<Rightarrow> bool" where
  "entered i p \<longleftrightarrow> length i \<le> 32 \<and> length p \<le> 63 \<and> NUL \<notin> set i \<and> NUL \<notin> set p"

lemma form_fields_ok:
  assumes "literal_ok literal"
  shows "query_fields_ok [(''ssid'', form_encode literal i), (''password'', form_encode literal p)]"
  using form_encode_plain [OF assms]
  by (simp add: query_fields_ok_def NUL_char char_lower_def char_code_def c_tolower_def)

lemma form_credentials_encoded:
  assumes "literal_ok literal" "entered i p" "query_contract http"
  shows "form_credentials http (form_body literal i p) = Inr (i, p)"
proof -
  let ?fs = "[(''ssid'', form_encode literal i), (''password'', form_encode literal p)]"
  have e: "length i \<le> 32" "length p \<le> 63" "NUL \<notin> set i" "NUL \<notin> set p" using assms(2) by (simp_all add: entered_def)
  have "NUL \<notin> set (form_body literal i p)"
    using form_encode_plain(3) [OF assms(1)] by (simp add: form_body_def NUL_char)
  then have c: "c_str (form_body literal i p) = render_query ?fs" by (simp add: c_str_noNUL form_body_def)
  have q: "httpd_query_key_value http (render_query ?fs) k n = Inr v" if "(k, v) \<in> set ?fs" "length v < n" for k v n
    using assms(3) form_fields_ok [OF assms(1)] that unfolding query_contract_def by blast
  have "httpd_query_key_value http (render_query ?fs) ''ssid'' PROVISION_ENCODED_SSID_SIZE = Inr (form_encode literal i)"
    using length_form_encode [of literal i] e(1) by (intro q) (simp_all add: provision_sizes)
  moreover have "httpd_query_key_value http (render_query ?fs) ''password'' PROVISION_ENCODED_PASSWORD_SIZE = Inr (form_encode literal p)"
    using length_form_encode [of literal p] e(2) by (intro q) (simp_all add: provision_sizes)
  ultimately show ?thesis
    using e by (simp add: form_credentials_def c decode_form_encoded [OF assms(1)] provision_sizes)
qed

lemma form_body_fits:
  assumes "entered i p"
  shows "0 < length (form_body literal i p)" "length (form_body literal i p) < PROVISION_BODY_SIZE"
  using assms length_form_encode [of literal i] length_form_encode [of literal p]
  by (simp_all add: form_body_def entered_def provision_sizes)

text \<open>The handler of the credentials gets what was entered, however the browser encodes it and the network cuts it.\<close>

lemma post_delivers:
  assumes "literal_ok literal" "entered i p" "query_contract http"
    and "provisioning_mode config" "provision_handler config = Some h"
    and "\<forall>(k, d) \<in> set pieces. k < 3 \<and> d \<noteq> []" "concat (map snd pieces) = form_body literal i p"
    and "content_len request = length (form_body literal i p)" "req_recv request = arrives pieces"
    and "h i p st = (ESP_OK, st')" "httpd_resp_send http (Response (html_response [] Saved_html)) = ESP_OK"
  shows "provision_post_handler http config request st =
    Some (\<lparr>post_replies = [Response (html_response [] Saved_html)], post_err = ESP_OK, post_restart = True\<rparr>, st')"
proof -
  have "receive_body (req_recv request) (content_len request) [] 0 = Some (Inr (form_body literal i p))"
    using receive_pieces [OF assms(6), of "[]"] assms(7-9) by simp
  then show ?thesis
    using form_body_fits [OF assms(2), of literal] assms(4,5,8,10,11) form_credentials_encoded [OF assms(1-3)]
    by (simp add: provision_post_handler_def Let_def)
qed

section \<open>Properties\<close>

lemma decoded_text:
  "decode_loop n s decoded = Inr t \<Longrightarrow> NUL \<notin> set decoded \<Longrightarrow> length decoded < n \<Longrightarrow> NUL \<notin> set t \<and> length t < n"
proof (induction n s decoded rule: decode_loop.induct)
  case (2 n c encoded decoded)
  obtain v rest where d: "decode_next c encoded = Inr (v, rest)" "v \<noteq> 0" "length decoded + 1 < n"
    "decode_loop n rest (decoded @ [char_of v]) = Inr t"
    using 2(2) by (auto split: sum.splits if_split_asm)
  have v: "v < 256"
    using d(1) char_code_lt
    by (auto simp: decode_next_def hex_character_to_value_def Let_def split: if_split_asm list.splits)
  have "char_of v \<noteq> NUL"
  proof
    assume "char_of v = NUL"
    then have "char_code (char_of v) = char_code (char_of (0 :: nat))" by (simp add: NUL_def)
    then show False using d(2) v by simp
  qed
  then show ?case using 2(1) [OF d(1) refl] d(2-4) 2(3) by auto
qed simp

lemma decoded_form_text: "decode_form_value s n = Inr t \<Longrightarrow> NUL \<notin> set t \<and> length t < n"
  using decoded_text [of n "c_str s" "[]" t] by (simp add: decode_form_value_def split: if_split_asm)

text \<open>
  C16: the form returns and is confined. If the socket gives three results for every byte of the announced
  length, the POST handler returns, whatever the browser and the network do. It changes the credentials or restarts the device only in
  provisioning mode, only through the handler of the configuration, and only for credentials within the limits of the form; it
  restarts only after they were stored and the confirmation was sent.
\<close>

theorem provision_post_confined:
  assumes "3 * content_len request \<le> length (req_recv request)"
  shows "\<exists>r st'. provision_post_handler http config request st = Some (r, st') \<and>
    (st' \<noteq> st \<or> post_restart r \<longrightarrow>
      provisioning_mode config \<and>
      (\<exists>h i p err. provision_handler config = Some h \<and> entered i p \<and> h i p st = (err, st') \<and>
        (post_restart r \<longrightarrow> err = ESP_OK \<and> post_replies r = [Response (html_response [] Saved_html)] \<and> post_err r = ESP_OK)))"
proof -
  consider (refused) "\<not> provisioning_mode config \<or> provision_handler config = None"
    | (size) "provisioning_mode config" "content_len request = 0 \<or> content_len request \<ge> PROVISION_BODY_SIZE"
    | (body) h where "provisioning_mode config" "provision_handler config = Some h"
        "content_len request \<noteq> 0" "content_len request < PROVISION_BODY_SIZE"
    by (metis not_le option.exhaust)
  then show ?thesis
  proof cases
    case body
    have "receive_body (req_recv request) (content_len request) [] 0 \<noteq> None"
      using assms by (intro receive_body_decides) simp_all
    then consider err where "receive_body (req_recv request) (content_len request) [] 0 = Some (Inl err)"
      | b message where "receive_body (req_recv request) (content_len request) [] 0 = Some (Inr b)" "form_credentials http b = Inl message"
      | b i p where "receive_body (req_recv request) (content_len request) [] 0 = Some (Inr b)" "form_credentials http b = Inr (i, p)"
      by (metis not_Some_eq old.sum.exhaust prod.exhaust)
    then show ?thesis
    proof cases
      case (3 b i p)
      have "entered i p"
        using 3(2) by (auto simp: form_credentials_def entered_def provision_sizes split: sum.splits dest!: decoded_form_text)
      moreover obtain err st' where h: "h i p st = (err, st')" by fastforce
      ultimately show ?thesis
        using body 3 by (auto simp: provision_post_handler_def post_error_def Let_def)
    qed (use body in \<open>auto simp: provision_post_handler_def post_error_def\<close>)
  qed (auto simp: provision_post_handler_def post_error_def)
qed

lemma redirect_length:
  assumes "length url + length code \<le> 266" "length (snap_mac snapshot) = 6"
  shows "length (redirect_url url code snapshot) < REDIRECT_URL_SIZE"
  using assms length_ip4_text [of "snap_ipv4 snapshot"] length_mac_text [OF assms(2)]
  by (simp add: redirect_url_def REDIRECT_URL_SIZE_def)

text \<open>A snapshot that is found, at once or after the address was learnt from the ARP table, is of an entry with that address.\<close>

lemma snapshot_found:
  assumes "clients_ok st" "\<And>x. clients_ok x \<Longrightarrow> clients_ok (meanwhile x)"
    and "client_access_get_snapshot_by_ipv4 arp meanwhile ip st = (Inr snapshot, cs)"
  obtains i where "clients_ok cs" "ip \<noteq> 0" "find_idx (has_ip ip) (s_clients cs) = Some i" "snapshot = snapshot_of (s_clients cs ! i)"
proof -
  have copy: "\<exists>i. find_idx (has_ip ip) (s_clients x) = Some i \<and> snapshot = snapshot_of (s_clients x ! i)"
    if "copy_client_snapshot_by_ipv4 ip x = Inr snapshot" for x
    using that by (auto simp: copy_client_snapshot_by_ipv4_def split: option.splits)
  have track: "clients_ok st'" if "track_client_ip (Some mac) (Some ip) x = (err, st')" "clients_ok x" for mac err st' x
    using that by (cases rule: track_client_ip_cases [OF that(2), of mac ip]) simp_all
  have "clients_ok cs \<and> ip \<noteq> 0 \<and> copy_client_snapshot_by_ipv4 ip cs = Inr snapshot"
    using assms(3) track assms(1,2) unfolding client_access_get_snapshot_by_ipv4_def
    by (auto simp: Let_def split: if_split_asm sum.splits prod.splits)
  then show ?thesis using that copy by blast
qed

text \<open>
  C13: the portal server can let in exactly the client it was told about. In the normal mode a client whose address is
  in the table, or is learnt from the ARP table for this request, is redirected to the portal server with the device code, a MAC address and its
  own address. An authorize command that names that MAC address changes the entry of this client and no other entry; the packet filter
  then lets the client's packets through, and decides on every other address as before.
\<close>

theorem redirect_then_allow:
  assumes "clients_ok clients" "\<And>x. clients_ok x \<Longrightarrow> clients_ok (meanwhile x)"
    and "get_request_source_ipv4 http request = Inr ip"
    and "client_access_get_snapshot_by_ipv4 arp meanwhile ip clients = (Inr snapshot, cs)" "length (snap_mac snapshot) = 6"
    and "\<not> provisioning_mode config" "external_portal_url config = Some url" "device_code config = Some code"
    and "length url + length code \<le> 266" "\<And>reply. httpd_resp_send http reply = ESP_OK" "0 < session"
  shows "\<exists>e mac_text clients'. client_map cs (e_mac e) = Some e \<and> e_ip e = ip \<and>
    portal_page_handler http arp meanwhile config request clients =
      (([Response (redirect_response (url @ ''?deviceCode='' @ code @ ''&mac='' @ mac_text @ ''&ip='' @ ip4_text ip)
          ''Redirecting to external portal'')], ESP_OK), cs) \<and>
    client_access_authorize ms_to_ticks now (Some mac_text) session ttl cs = (ESP_OK, clients') \<and>
    client_map clients' = (client_map cs)(e_mac e \<mapsto> e\<lparr>e_state := CLIENT_ACCESS_STATE_AUTHORIZED, e_session_id := session,
      authorized_at_ticks := uint now, ttl_ticks := uint (ms_to_ticks (ttl * 1000))\<rparr>) \<and>
    fst (client_access_can_forward_ipv4 now ip clients') \<and>
    (\<forall>t other. other \<noteq> ip \<longrightarrow> fst (client_access_can_forward_ipv4 t other clients') = fst (client_access_can_forward_ipv4 t other cs))"
proof -
  from snapshot_found [OF assms(1,2,4)] obtain i where ok: "clients_ok cs" and ip: "ip \<noteq> 0"
    and find: "find_idx (has_ip ip) (s_clients cs) = Some i" and snap: "snapshot = snapshot_of (s_clients cs ! i)" by blast
  let ?e = "s_clients cs ! i"
  let ?f = "\<lambda>e. e\<lparr>e_state := CLIENT_ACCESS_STATE_AUTHORIZED, e_session_id := session, authorized_at_ticks := uint now,
      ttl_ticks := uint (ms_to_ticks (ttl * 1000))\<rparr>"
  have i: "i < length (s_clients cs)" "in_use ?e" "e_ip ?e = ip"
    using find_idx_SomeD [OF find] by (simp_all add: has_ip_def)
  have six: "length (e_mac ?e) = 6" using assms(5) by (simp add: snap snapshot_of_def)
  have mac: "parse_mac_address (Some (mac_text (e_mac ?e))) = Inr (e_mac ?e)" by (rule parse_printed_mac [OF six])
  have tab: "table_ok in_use e_mac (s_clients cs)" using ok by (simp add: clients_ok_def)
  have idx: "find_client_index (s_clients cs) (e_mac ?e) = Some i"
    unfolding find_client_index_slot slot_of_eq [OF tab] using i by simp
  have grant: "client_access_authorize ms_to_ticks now (Some (mac_text (e_mac ?e))) session ttl cs = (ESP_OK, set_entry i (?f ?e) cs)"
    using assms(11) by (simp add: client_access_authorize_def mac idx)
  have map: "client_map (set_entry i (?f ?e) cs) = (client_map cs)(e_mac ?e \<mapsto> ?f ?e)"
    using change_entry(2) [OF ok idx, of ?f] uint_lt2p [of now] uint_lt2p [of "ms_to_ticks (ttl * 1000)"] by (simp add: entry_ok_def)
  have same: "find_idx (has_ip other) ((s_clients cs)[i := ?f ?e]) = find_idx (has_ip other) (s_clients cs)" for other
    by (rule find_idx_update) (simp add: i has_ip_def)
  have here: "fst (client_access_can_forward_ipv4 now ip (set_entry i (?f ?e) cs))"
    using ip i find same [of ip] by (auto simp: client_access_can_forward_ipv4_def Let_def word_less_def split: if_split)
  have others: "fst (client_access_can_forward_ipv4 t other (set_entry i (?f ?e) cs)) = fst (client_access_can_forward_ipv4 t other cs)"
    if "other \<noteq> ip" for t other
  proof (cases "find_idx (has_ip other) (s_clients cs)")
    case (Some k)
    then have "k \<noteq> i" using find_idx_SomeD [OF Some] that i(3) by (auto simp: has_ip_def)
    then show ?thesis using same [of other] Some by (simp add: client_access_can_forward_ipv4_def Let_def)
  qed (use same [of other] in \<open>simp add: client_access_can_forward_ipv4_def\<close>)
  have found: "request_snapshot http arp meanwhile request clients = (Some (snapshot_of ?e), cs)"
    using assms(3,4) by (simp add: request_snapshot_def snap)
  have "portal_page_handler http arp meanwhile config request clients =
      (([Response (redirect_response (url @ ''?deviceCode='' @ code @ ''&mac='' @ mac_text (e_mac ?e) @ ''&ip='' @ ip4_text ip)
          ''Redirecting to external portal'')], ESP_OK), cs)"
    using assms(6-10) six redirect_length [OF assms(9), of "snapshot_of ?e"] length_mac_text [OF six] i(3)
    by (simp add: portal_page_handler_def found send_external_portal_redirect_def redirect_url_def snapshot_of_def Let_def)
  moreover have "client_map cs (e_mac ?e) = Some ?e" using change_entry(3) [OF ok idx, of "\<lambda>e. e"] by simp
  ultimately show ?thesis using i(3) grant map here others by blast
qed

section \<open>Witnesses\<close>

definition silent_http :: http_api where
  "silent_http = \<lparr>httpd_resp_send = (\<lambda>_. ESP_OK), httpd_query_key_value = (\<lambda>_ _ _. Inl ESP_ERR_NOT_FOUND),
     in6_is_addr_v4mapped = (\<lambda>_. False)\<rparr>"

definition sample_portal_config :: "bool \<Rightarrow> (nat option) captive_portal_config" where
  "sample_portal_config provisioning = \<lparr>provisioning_mode = provisioning, external_portal_url = Some ''http://portal.test/portal'',
     device_code = Some ''gw-1'', external_portal_domain = Some ''portal.test'', external_portal_ipv4 = Some ''192.168.4.2'',
     provision_handler = Some (\<lambda>i p st. (ESP_OK, Some 1))\<rparr>"

definition sample_request :: http_request where
  "sample_request = \<lparr>req_sockfd = 5, req_peer = Peer_ipv4 9, content_len = 1, req_recv = [Recv_data ''x'', Recv_timeout, Recv_timeout]\<rparr>"

text \<open>A client whose address the table does not know yet.\<close>

definition new_client :: client_access where
  "new_client = \<lparr>s_clients = [fresh_client [2, 0, 0, 0, 0, 1]], s_disconnect_queue = None, access_handlers = [], s_started = True\<rparr>"

definition sample_arp :: arp_service where
  "sample_arp = \<lparr>arp_netif = True, arp_netif_impl = True, arp_exec_error = None,
     etharp_find_addr = (\<lambda>ip. if ip = 9 then Some [2, 0, 0, 0, 0, 1] else None)\<rparr>"

lemma new_client_ok: "clients_ok new_client"
  by (simp add: clients_ok_def new_client_def table_ok_def entry_ok_def fresh_client_def connected_entry_def zero_entry_def)

lemma new_client_snapshot:
  "\<exists>snapshot cs. client_access_get_snapshot_by_ipv4 sample_arp (\<lambda>x. x) 9 new_client = (Inr snapshot, cs) \<and> length (snap_mac snapshot) = 6"
  by (simp add: client_access_get_snapshot_by_ipv4_def copy_client_snapshot_by_ipv4_def new_client_def fresh_client_def connected_entry_def
      zero_entry_def has_ip_def resolve_client_mac_by_ipv4_def sample_arp_def find_client_mac_in_arp_table_def track_client_ip_def
      find_client_index_def has_mac_def snapshot_of_def Let_def)

lemma provision_post_confined_witness:
  "\<exists>r st'. provision_post_handler silent_http (sample_portal_config True) sample_request None = Some (r, st')"
proof -
  have "3 * content_len sample_request \<le> length (req_recv sample_request)" by (simp add: sample_request_def)
  from provision_post_confined [OF this, of silent_http "sample_portal_config True" None] show ?thesis by blast
qed

lemma redirect_then_allow_witness:
  "\<exists>cs mac_text clients'.
    snd (portal_page_handler silent_http sample_arp (\<lambda>x. x) (sample_portal_config False) sample_request new_client) = cs \<and>
    client_access_authorize (\<lambda>ms. ms) 0 (Some mac_text) 7 60 cs = (ESP_OK, clients') \<and>
    fst (client_access_can_forward_ipv4 0 9 clients')"
proof -
  obtain snapshot cs where s: "client_access_get_snapshot_by_ipv4 sample_arp (\<lambda>x. x) 9 new_client = (Inr snapshot, cs)"
      "length (snap_mac snapshot) = 6" using new_client_snapshot by blast
  have r: "get_request_source_ipv4 silent_http sample_request = Inr 9"
    by (simp add: get_request_source_ipv4_def sample_request_def)
  have c: "\<not> provisioning_mode (sample_portal_config False)"
      "external_portal_url (sample_portal_config False) = Some ''http://portal.test/portal''"
      "device_code (sample_portal_config False) = Some ''gw-1''"
    by (simp_all add: sample_portal_config_def)
  have h: "httpd_resp_send silent_http reply = ESP_OK" for reply by (simp add: silent_http_def)
  obtain page mac_text clients' where
      "portal_page_handler silent_http sample_arp (\<lambda>x. x) (sample_portal_config False) sample_request new_client = (page, cs)"
      "client_access_authorize (\<lambda>ms. ms) 0 (Some mac_text) 7 60 cs = (ESP_OK, clients')"
      "fst (client_access_can_forward_ipv4 0 9 clients')"
    using redirect_then_allow [OF new_client_ok _ r s c _ h, of 7 "\<lambda>ms. ms" 0 60] by auto
  then show ?thesis by (metis snd_conv)
qed

end
