(* ===== verification/Device_Status.thy ===== *)
theory Device_Status
  imports App_Storage Wifi_Gateway
begin

text \<open>
  The status message, components/device\_status/device\_status.c. cJSON is a parameter (\<open>json_writer\<close>): whether the object
  can be created, whether a field can be added, and what \<open>cJSON_PrintPreallocated\<close> prints into a buffer of a given size, if it
  fits. A snapshot holds the texts its pointers point to at the time of the collection.
\<close>

datatype json_value = Json_string string | Json_number int | Json_bool bool

type_synonym json_object = "(string \<times> json_value) list"

record json_writer =
  cJSON_CreateObject :: bool
  cJSON_AddToObject :: "string \<times> json_value \<Rightarrow> bool"
  cJSON_PrintPreallocated :: "json_object \<Rightarrow> nat \<Rightarrow> string option"

text \<open>
  The object is built field by field and printed; any failure, and a buffer that is larger than an \<open>int\<close>, is
  \<open>ESP_ERR_NO_MEM\<close>. Both messages of the firmware that cJSON writes are made this way.
\<close>

definition print_object :: "json_writer \<Rightarrow> json_object \<Rightarrow> nat \<Rightarrow> esp_err + string" where
  "print_object w items buffer_size =
     (if \<not> cJSON_CreateObject w then Inl ESP_ERR_NO_MEM
      else if list_all (cJSON_AddToObject w) items \<and> buffer_size < 2 ^ 31
      then (case cJSON_PrintPreallocated w items buffer_size of None \<Rightarrow> Inl ESP_ERR_NO_MEM | Some json \<Rightarrow> Inr json)
      else Inl ESP_ERR_NO_MEM)"

definition STATUS_DEVICE_CODE :: string where "STATUS_DEVICE_CODE = ''esp32-gateway-001''"
definition STATUS_FIRMWARE_VERSION :: string where "STATUS_FIRMWARE_VERSION = ''0.1.4''"

record device_status_snapshot =
  status_device_code :: string
  status_up :: int
  status_rssi :: int
  status_wifi :: string
  status_ip :: string
  status_clients :: int
  status_firmware :: string
  status_active_request_id :: string
  status_active_version :: u32
  status_pending_request_id :: string
  status_pending_version :: u32

text \<open>\<open>ap_info\<close> is the signal strength that \<open>esp_wifi_sta_get_ap_info\<close> reports, if it succeeds.\<close>

definition device_status_collect ::
  "'s nvs_api \<Rightarrow> int option \<Rightarrow> gateway \<Rightarrow> 's app_storage \<Rightarrow> (esp_err + device_status_snapshot) \<times> 's app_storage" where
  "device_status_collect api ap_info gw storage =
     (let wifi_status = wifi_gateway_get_status gw in
      case app_storage_load_wifi_config_status api storage of
        (Inl err, storage) \<Rightarrow> (Inl err, storage)
      | (Inr st, storage) \<Rightarrow>
          (Inr \<lparr>status_device_code = STATUS_DEVICE_CODE,
                status_up = (if wifi_status = WIFI_GATEWAY_STATUS_STA_GOT_IP then 1 else 0),
                status_rssi = (case ap_info of Some rssi \<Rightarrow> rssi | None \<Rightarrow> 0),
                status_wifi = wifi_gateway_status_to_string wifi_status,
                status_ip = wifi_gateway_get_sta_ip gw,
                status_clients = wifi_gateway_get_current_clients gw,
                status_firmware = STATUS_FIRMWARE_VERSION,
                status_active_request_id = take (APP_STORAGE_WIFI_REQUEST_ID_SIZE - 1) (c_str (active_request_id st)),
                status_active_version = active_version st,
                status_pending_request_id = take (APP_STORAGE_WIFI_REQUEST_ID_SIZE - 1) (c_str (pending_request_id st)),
                status_pending_version = pending_version st\<rparr>, storage))"

definition status_fields :: "device_status_snapshot \<Rightarrow> json_object" where
  "status_fields s =
     [(''deviceCode'', Json_string (status_device_code s)),
      (''status'', Json_number (status_up s)),
      (''rssi'', Json_number (status_rssi s)),
      (''wifiStatus'', Json_string (status_wifi s)),
      (''ip'', Json_string (status_ip s)),
      (''currentClients'', Json_number (status_clients s)),
      (''firmwareVersion'', Json_string (status_firmware s)),
      (''activeWifiConfigRequestId'', Json_string (status_active_request_id s)),
      (''activeWifiConfigVersion'', Json_number (uint (status_active_version s))),
      (''pendingWifiConfigRequestId'', Json_string (status_pending_request_id s)),
      (''pendingWifiConfigVersion'', Json_number (uint (status_pending_version s)))]"

definition device_status_to_json :: "json_writer \<Rightarrow> device_status_snapshot \<Rightarrow> nat \<Rightarrow> esp_err + string" where
  "device_status_to_json w snapshot buffer_size =
     (if buffer_size = 0 then Inl ESP_ERR_INVALID_ARG else print_object w (status_fields snapshot) buffer_size)"

end
