(* ===== verification/App_Main.thy ===== *)
theory App_Main
  imports Device_Status App_Command App_Mqtt Captive_Portal Mac_Text Packet_Filter
begin

text \<open>
  The application, src/main.c: it starts the components, dispatches the commands, switches between the current and the
  candidate configuration of the upstream network, and publishes the state of the device.

  \<open>device\<close> is the state of all components and of main.c. What does not change while the firmware runs is in \<open>platform\<close>: the
  settings of secrets.h and the libraries that are functions of their arguments; what a call to the Wi-Fi driver, the MQTT client or FreeRTOS
  answers at one time is in \<open>services\<close>. Logging and delays are left out. \<open>wifi_config.sta_ssid\<close> points to \<open>s_wifi_credentials\<close>; the model copies the
  text, which is only read at the start.
\<close>

section \<open>The device\<close>

record secrets =
  AP_SSID :: string
  AP_PASSWORD :: string
  PROVISION_AP_SSID :: string
  PROVISION_AP_PASSWORD :: string
  PORTAL_EXTERNAL_URL :: string
  PORTAL_EXTERNAL_DOMAIN :: string
  PORTAL_SERVER_IPV4 :: string
  MQTT_BROKER_URI :: string
  DEVICE_CODE :: string

record ('s, 'j) platform =
  secrets :: secrets
  nvs_lib :: "'s nvs_api"
  lwip :: lwip_api
  cjson :: "'j cjson_api"
  json_out :: json_writer
  esp_err_to_name :: "esp_err \<Rightarrow> string"
  pdMS_TO_TICKS :: "u32 \<Rightarrow> u32"

record services =
  wifi :: wifi_driver
  during_disconnect :: wifi_trace
  now :: u32
  msg_id :: "string \<Rightarrow> string \<Rightarrow> int"
  ap_info :: "int option"
  softap_list :: "esp_err + (bytes \<times> int) list"
  mqtt_client_created :: bool
  mqtt_registered :: esp_err
  mqtt_client_started :: esp_err
  task_created :: bool

datatype upstream_wifi_slot = UPSTREAM_WIFI_SLOT_CURRENT | UPSTREAM_WIFI_SLOT_CANDIDATE

text \<open>\<open>publishing\<close>: the event and the attempt of the task that publishes disconnections. \<open>published\<close>: what the MQTT client accepted, the newest first.\<close>

record 's device =
  storage :: "'s app_storage"
  dev_gateway :: gateway
  dev_mqtt :: mqtt_session
  dev_clients :: client_access
  dev_rules :: access_rules
  dev_flows :: "tls_flow list"
  dev_portal :: "'s app_storage captive_portal"
  s_wifi_credentials :: wifi_credentials
  s_candidate_config :: wifi_config
  s_upstream_wifi_slot :: upstream_wifi_slot
  s_candidate_mqtt_generation :: u32
  s_client_disconnect_publish_task :: bool
  dev_wifi_config :: wifi_gateway_config
  dev_portal_config :: "'s app_storage captive_portal_config"
  mqtt_started :: bool
  publishing :: "(client_access_disconnect_event \<times> nat) option"
  published :: "(string \<times> string) list"
  restarting :: bool

definition CLIENT_DISCONNECT_JSON_SIZE :: nat where "CLIENT_DISCONNECT_JSON_SIZE = 256"
definition CLIENT_DISCONNECT_PUBLISH_MAX_ATTEMPTS :: nat where "CLIENT_DISCONNECT_PUBLISH_MAX_ATTEMPTS = 3"
definition CLIENT_SIGNAL_MAX_CLIENTS :: nat where "CLIENT_SIGNAL_MAX_CLIENTS = 4"
definition CLIENT_SIGNAL_JSON_SIZE :: nat where "CLIENT_SIGNAL_JSON_SIZE = 768"
definition STATUS_JSON_SIZE :: nat where "STATUS_JSON_SIZE = 1280"
definition RESULT_JSON_SIZE :: nat where "RESULT_JSON_SIZE = 768"
definition APP_COMMAND_MESSAGE_SIZE :: nat where "APP_COMMAND_MESSAGE_SIZE = 96"

definition device_topic :: "('s, 'j) platform \<Rightarrow> string \<Rightarrow> string" where
  "device_topic pf suffix = ''wifi/device/'' @ DEVICE_CODE (secrets pf) @ suffix"

definition DEVICE_STATUS_TOPIC :: "('s, 'j) platform \<Rightarrow> string" where
  "DEVICE_STATUS_TOPIC pf = device_topic pf ''/event/status''"
definition DEVICE_COMMAND_TOPIC :: "('s, 'j) platform \<Rightarrow> string" where
  "DEVICE_COMMAND_TOPIC pf = device_topic pf ''/cmd/#''"
definition DEVICE_COMMAND_RESULT_TOPIC :: "('s, 'j) platform \<Rightarrow> string" where
  "DEVICE_COMMAND_RESULT_TOPIC pf = device_topic pf ''/event/command-result''"
definition DEVICE_CLIENT_SIGNAL_TOPIC :: "('s, 'j) platform \<Rightarrow> string" where
  "DEVICE_CLIENT_SIGNAL_TOPIC pf = device_topic pf ''/event/client-signal''"
definition DEVICE_CLIENT_DISCONNECT_TOPIC :: "('s, 'j) platform \<Rightarrow> string" where
  "DEVICE_CLIENT_DISCONNECT_TOPIC pf = device_topic pf ''/event/client-disconnect''"

definition empty_wifi_config :: wifi_config where
  "empty_wifi_config = \<lparr>credentials = \<lparr>ssid = [], password = []\<rparr>, request_id = [], config_version = 0\<rparr>"

section \<open>Provisioning and the choice of the mode\<close>

definition handle_wifi_provisioning ::
  "('s, 'j) platform \<Rightarrow> string option \<Rightarrow> string option \<Rightarrow> 's app_storage \<Rightarrow> esp_err \<times> 's app_storage" where
  "handle_wifi_provisioning pf given_ssid given_password st =
     (case (given_ssid, given_password) of
        (Some i, Some p) \<Rightarrow>
          if length (c_str i) \<ge> APP_STORAGE_WIFI_SSID_SIZE then (ESP_ERR_INVALID_ARG, st)
          else if length (c_str p) \<ge> APP_STORAGE_WIFI_PASSWORD_SIZE then (ESP_ERR_INVALID_ARG, st)
          else app_storage_save_wifi_credentials (nvs_lib pf) (Some \<lparr>ssid = c_str i, password = c_str p\<rparr>) st
      | _ \<Rightarrow> (ESP_ERR_INVALID_ARG, st))"

definition select_normal_gateway_mode :: "('s, 'j) platform \<Rightarrow> 's device \<Rightarrow> 's device" where
  "select_normal_gateway_mode pf d =
     d\<lparr>dev_wifi_config := (dev_wifi_config d)\<lparr>ap_ssid := Some (AP_SSID (secrets pf)),
         wifi_gateway_config.ap_password := Some (AP_PASSWORD (secrets pf))\<rparr>,
       dev_portal_config := (dev_portal_config d)\<lparr>provisioning_mode := False\<rparr>\<rparr>"

definition select_provisioning_mode :: "('s, 'j) platform \<Rightarrow> 's device \<Rightarrow> 's device" where
  "select_provisioning_mode pf d =
     d\<lparr>dev_wifi_config := (dev_wifi_config d)\<lparr>sta_enabled := False, sta_ssid := None, sta_password := None,
         ap_ssid := Some (PROVISION_AP_SSID (secrets pf)),
         wifi_gateway_config.ap_password := Some (PROVISION_AP_PASSWORD (secrets pf))\<rparr>,
       dev_portal_config := (dev_portal_config d)\<lparr>provisioning_mode := True\<rparr>\<rparr>"

text \<open>The normal mode with the stored credentials.\<close>

definition use_credentials :: "('s, 'j) platform \<Rightarrow> wifi_credentials \<Rightarrow> 's device \<Rightarrow> 's device" where
  "use_credentials pf c d =
     (let d = select_normal_gateway_mode pf d in
      d\<lparr>dev_wifi_config := (dev_wifi_config d)\<lparr>sta_enabled := True, sta_ssid := Some (ssid c), sta_password := Some (password c)\<rparr>\<rparr>)"

definition prepare_wifi_gateway_config :: "('s, 'j) platform \<Rightarrow> 's device \<Rightarrow> esp_err \<times> 's device" where
  "prepare_wifi_gateway_config pf d =
     (case app_storage_load_candidate_wifi_config (nvs_lib pf) (storage d) of (candidate, st) \<Rightarrow>
        let d = d\<lparr>storage := st, s_candidate_config := (case candidate of Inr c \<Rightarrow> c | Inl _ \<Rightarrow> empty_wifi_config)\<rparr> in
        case app_storage_load_wifi_credentials (nvs_lib pf) st of
          (Inr c, st) \<Rightarrow>
            (let d = d\<lparr>storage := st, s_wifi_credentials := c\<rparr> in
             case app_storage_is_recovery_triggered (nvs_lib pf) st of (triggered, st) \<Rightarrow>
               let st = (if triggered then snd (app_storage_clear_recovery_triggered (nvs_lib pf) st) else st)
               in (ESP_OK, use_credentials pf c (d\<lparr>storage := st\<rparr>)))
        | (Inl err, st) \<Rightarrow>
            if err = ESP_ERR_NOT_FOUND then (ESP_OK, select_provisioning_mode pf (d\<lparr>storage := st\<rparr>))
            else if err = ESP_ERR_INVALID_ARG then
              (case app_storage_clear_wifi_credentials (nvs_lib pf) st of (err, st) \<Rightarrow>
                 if err \<noteq> ESP_OK then (err, d\<lparr>storage := st\<rparr>)
                 else (ESP_OK, select_provisioning_mode pf (d\<lparr>storage := st\<rparr>)))
            else (err, d\<lparr>storage := st\<rparr>))"

section \<open>Recovery and the candidate\<close>

definition enter_retained_wifi_recovery :: "('s, 'j) platform \<Rightarrow> 's device \<Rightarrow> 's device" where
  "enter_retained_wifi_recovery pf d =
     (let st = snd (app_storage_set_recovery_triggered (nvs_lib pf) (storage d));
          st = snd (app_storage_increment_recovery_retry (nvs_lib pf) st)
      in d\<lparr>storage := st, dev_portal := captive_portal_set_provisioning_mode True (dev_portal d),
           dev_gateway := wifi_gateway_set_status WIFI_GATEWAY_STATUS_PROVISIONING (dev_gateway d)\<rparr>)"

definition start_candidate_wifi_attempt :: "('s, 'j) platform \<Rightarrow> services \<Rightarrow> 's device \<Rightarrow> esp_err \<times> 's device" where
  "start_candidate_wifi_attempt pf env d =
     (case app_storage_load_candidate_wifi_config (nvs_lib pf) (storage d) of
        (Inl err, st) \<Rightarrow> (err, d\<lparr>storage := st\<rparr>)
      | (Inr candidate, st) \<Rightarrow>
          (let d = d\<lparr>storage := st\<rparr>; generation = snd (app_mqtt_get_connection_state (dev_mqtt d)) in
           case wifi_gateway_connect_sta (wifi env) (during_disconnect env) (Some (ssid (credentials candidate)))
                  (Some (password (credentials candidate))) (dev_gateway d) of (err, gw) \<Rightarrow>
             let d = d\<lparr>dev_gateway := gw\<rparr> in
             if err \<noteq> ESP_OK then (err, d)
             else (ESP_OK, d\<lparr>s_candidate_config := candidate, s_candidate_mqtt_generation := generation,
                             s_upstream_wifi_slot := UPSTREAM_WIFI_SLOT_CANDIDATE\<rparr>)))"

text \<open>The restart at the end is the flag \<open>restarting\<close>.\<close>

definition handle_upstream_wifi_recovery :: "('s, 'j) platform \<Rightarrow> services \<Rightarrow> 's device \<Rightarrow> 's device" where
  "handle_upstream_wifi_recovery pf env d =
     (if s_upstream_wifi_slot d = UPSTREAM_WIFI_SLOT_CANDIDATE then enter_retained_wifi_recovery pf d
      else
        (case start_candidate_wifi_attempt pf env d of (candidate_err, d) \<Rightarrow>
           if candidate_err = ESP_OK then d
           else if candidate_err \<noteq> ESP_ERR_NOT_FOUND then enter_retained_wifi_recovery pf d
           else (case app_storage_clear_wifi_credentials (nvs_lib pf) (storage d) of (err, st) \<Rightarrow>
                   if err \<noteq> ESP_OK then d\<lparr>storage := st\<rparr> else d\<lparr>storage := st, restarting := True\<rparr>)))"

definition handle_upstream_wifi_unreachable :: "('s, 'j) platform \<Rightarrow> services \<Rightarrow> 's device \<Rightarrow> 's device" where
  "handle_upstream_wifi_unreachable pf env d =
     (if s_upstream_wifi_slot d = UPSTREAM_WIFI_SLOT_CURRENT
      then (case start_candidate_wifi_attempt pf env d of (candidate_err, d) \<Rightarrow>
              if candidate_err = ESP_OK then d else enter_retained_wifi_recovery pf d)
      else enter_retained_wifi_recovery pf d)"

definition promote_verified_candidate_if_ready :: "('s, 'j) platform \<Rightarrow> services \<Rightarrow> 's device \<Rightarrow> 's device" where
  "promote_verified_candidate_if_ready pf env d =
     (if s_upstream_wifi_slot d \<noteq> UPSTREAM_WIFI_SLOT_CANDIDATE \<or>
         wifi_gateway_get_status (dev_gateway d) \<noteq> WIFI_GATEWAY_STATUS_STA_GOT_IP then d
      else
        (case app_mqtt_get_connection_state (dev_mqtt d) of (mqtt_up, generation) \<Rightarrow>
           if \<not> mqtt_up \<or> generation \<le> s_candidate_mqtt_generation d then d
           else
             (case app_storage_promote_candidate_wifi_config (nvs_lib pf) (Some (request_id (s_candidate_config d)))
                     (config_version (s_candidate_config d)) (storage d) of (err, st) \<Rightarrow>
                let d = d\<lparr>storage := st\<rparr> in
                if err = ESP_OK
                then d\<lparr>s_wifi_credentials := credentials (s_candidate_config d), s_candidate_config := empty_wifi_config,
                       s_upstream_wifi_slot := UPSTREAM_WIFI_SLOT_CURRENT\<rparr>
                else if err = ESP_ERR_INVALID_STATE
                then (case start_candidate_wifi_attempt pf env d of (retry_err, d) \<Rightarrow>
                        if retry_err \<noteq> ESP_OK then enter_retained_wifi_recovery pf d else d)
                else d)))"

section \<open>Publishing\<close>

definition publish :: "services \<Rightarrow> string \<Rightarrow> string \<Rightarrow> 's device \<Rightarrow> esp_err \<times> 's device" where
  "publish env topic payload d =
     (let err = app_mqtt_publish (msg_id env) (dev_mqtt d) (Some topic) (Some payload) in
      (err, if err = ESP_OK then d\<lparr>published := (topic, payload) # published d\<rparr> else d))"

definition publish_device_status :: "('s, 'j) platform \<Rightarrow> services \<Rightarrow> 's device \<Rightarrow> esp_err \<times> 's device" where
  "publish_device_status pf env d =
     (case device_status_collect (nvs_lib pf) (ap_info env) (dev_gateway d) (storage d) of
        (Inl err, st) \<Rightarrow> (err, d\<lparr>storage := st\<rparr>)
      | (Inr snapshot, st) \<Rightarrow>
          (case device_status_to_json (json_out pf) snapshot STATUS_JSON_SIZE of
             Inl err \<Rightarrow> (err, d\<lparr>storage := st\<rparr>)
           | Inr json \<Rightarrow> publish env (DEVICE_STATUS_TOPIC pf) json (d\<lparr>storage := st\<rparr>)))"

record app_command_result =
  result_request_id :: string
  result_type :: app_command_type
  result_success :: bool
  result_message :: string

definition result_fields :: "('s, 'j) platform \<Rightarrow> app_command_result \<Rightarrow> json_object" where
  "result_fields pf result =
     [(''deviceCode'', Json_string (DEVICE_CODE (secrets pf))),
      (''requestId'', Json_string (result_request_id result)),
      (''type'', Json_string (app_command_type_to_string (result_type result))),
      (''success'', Json_bool (result_success result)),
      (''message'', Json_string (result_message result))]"

definition publish_command_result ::
  "('s, 'j) platform \<Rightarrow> services \<Rightarrow> app_command_result \<Rightarrow> 's device \<Rightarrow> esp_err \<times> 's device" where
  "publish_command_result pf env result d =
     (case print_object (json_out pf) (result_fields pf result) RESULT_JSON_SIZE of
        Inl err \<Rightarrow> (err, d)
      | Inr json \<Rightarrow> publish env (DEVICE_COMMAND_RESULT_TOPIC pf) json d)"

text \<open>\<open>append_json\<close>: a text is appended to what the buffer holds, if it fits with its terminator.\<close>

definition append_json :: "nat \<Rightarrow> string \<Rightarrow> string \<Rightarrow> esp_err \<times> string" where
  "append_json buffer_size added buffer =
     (if length buffer \<ge> buffer_size then (ESP_ERR_INVALID_ARG, buffer)
      else if length added \<ge> buffer_size - length buffer then (ESP_ERR_NO_MEM, buffer)
      else (ESP_OK, buffer @ added))"

abbreviation quoted :: "string \<Rightarrow> string" where
  "quoted s \<equiv> CHR 0x22 # s @ [CHR 0x22]"

definition signal_text :: "bool \<Rightarrow> client_access_snapshot \<Rightarrow> string" where
  "signal_text initial c =
     (if initial then [] else '','') @
     ''{'' @ quoted ''mac'' @ '':'' @ quoted (mac_text (snap_mac c)) @ '','' @
     quoted ''sessionId'' @ '':'' @ dec_int (snap_session_id c) @ '','' @
     quoted ''rssi'' @ '':'' @ dec_int (snap_rssi c) @ '','' @
     quoted ''state'' @ '':'' @ quoted (client_access_state_to_string (snap_state c)) @ ''}''"

text \<open>The loop over the clients: clients without a signal are skipped; the buffer and the number of the written ones.\<close>

fun append_signals :: "client_access_snapshot list \<Rightarrow> string \<Rightarrow> nat \<Rightarrow> esp_err \<times> string \<times> nat" where
  "append_signals [] json emitted = (ESP_OK, json, emitted)"
| "append_signals (c # cs) json emitted =
     (if snap_rssi c \<ge> 0 then append_signals cs json emitted
      else (case append_json CLIENT_SIGNAL_JSON_SIZE (signal_text (emitted = 0) c) json of (err, json) \<Rightarrow>
              if err \<noteq> ESP_OK then (err, json, emitted + 1) else append_signals cs json (emitted + 1)))"

definition signals_head :: "('s, 'j) platform \<Rightarrow> string" where
  "signals_head pf = ''{'' @ quoted ''deviceCode'' @ '':'' @ quoted (DEVICE_CODE (secrets pf)) @ '','' @ quoted ''clients'' @ '':[''"

definition publish_client_signals :: "('s, 'j) platform \<Rightarrow> services \<Rightarrow> 's device \<Rightarrow> esp_err \<times> 's device" where
  "publish_client_signals pf env d =
     (case client_access_copy_snapshots CLIENT_SIGNAL_MAX_CLIENTS (dev_clients d) of
        Inl err \<Rightarrow> (err, d)
      | Inr clients \<Rightarrow>
          if clients = [] then (ESP_OK, d)
          else
            (case append_json CLIENT_SIGNAL_JSON_SIZE (signals_head pf) [] of (err, json) \<Rightarrow>
               if err \<noteq> ESP_OK then (err, d)
               else
                 (case append_signals clients json 0 of (err, json, emitted) \<Rightarrow>
                    if err \<noteq> ESP_OK then (err, d)
                    else if emitted = 0 then (ESP_OK, d)
                    else (case append_json CLIENT_SIGNAL_JSON_SIZE '']}'' json of (err, json) \<Rightarrow>
                            if err = ESP_OK then publish env (DEVICE_CLIENT_SIGNAL_TOPIC pf) json d else (err, d)))))"

definition disconnect_text :: "('s, 'j) platform \<Rightarrow> client_access_disconnect_event \<Rightarrow> string" where
  "disconnect_text pf ev =
     ''{'' @ quoted ''deviceCode'' @ '':'' @ quoted (DEVICE_CODE (secrets pf)) @ '','' @
     quoted ''mac'' @ '':'' @ quoted (mac_text (gone_mac ev)) @ '','' @
     quoted ''sessionId'' @ '':'' @ dec_int (gone_session_id ev) @ '','' @
     quoted ''state'' @ '':'' @ quoted (client_access_state_to_string (gone_state ev)) @ ''}''"

definition publish_client_disconnect ::
  "('s, 'j) platform \<Rightarrow> services \<Rightarrow> client_access_disconnect_event \<Rightarrow> 's device \<Rightarrow> esp_err \<times> 's device" where
  "publish_client_disconnect pf env ev d =
     (let json = disconnect_text pf ev in
      if length json \<ge> CLIENT_DISCONNECT_JSON_SIZE then (ESP_ERR_NO_MEM, d)
      else publish env (DEVICE_CLIENT_DISCONNECT_TOPIC pf) json d)"

text \<open>
  A step of the task that publishes disconnections: it takes the next event, or makes the next attempt for the one it has;
  other tasks run between the steps.
\<close>

definition client_disconnect_publish_task :: "('s, 'j) platform \<Rightarrow> services \<Rightarrow> 's device \<Rightarrow> 's device" where
  "client_disconnect_publish_task pf env d =
     (if \<not> s_client_disconnect_publish_task d then d
      else case publishing d of
             None \<Rightarrow>
               (case client_access_wait_disconnect_event (dev_clients d) of
                  (Inl _, clients) \<Rightarrow> d\<lparr>dev_clients := clients\<rparr>
                | (Inr ev, clients) \<Rightarrow> d\<lparr>dev_clients := clients, publishing := Some (ev, 1)\<rparr>)
           | Some (ev, attempt) \<Rightarrow>
               (case publish_client_disconnect pf env ev d of (publish_err, d) \<Rightarrow>
                  if publish_err = ESP_OK then d\<lparr>publishing := None\<rparr>
                  else if attempt < CLIENT_DISCONNECT_PUBLISH_MAX_ATTEMPTS then d\<lparr>publishing := Some (ev, attempt + 1)\<rparr>
                  else d\<lparr>publishing := None\<rparr>))"

definition start_client_disconnect_publish_task :: "services \<Rightarrow> 's device \<Rightarrow> esp_err \<times> 's device" where
  "start_client_disconnect_publish_task env d =
     (if s_client_disconnect_publish_task d then (ESP_OK, d)
      else if task_created env then (ESP_OK, d\<lparr>s_client_disconnect_publish_task := True\<rparr>)
      else (ESP_ERR_NO_MEM, d))"

end
