(* ===== verification/App_Loop.thy ===== *)
theory App_Loop
  imports App_Main
begin

text \<open>
  The application, continued (src/main.c): the dispatch of a command, the start, one round of the main loop, and the
  events that happen between the rounds.
\<close>

section \<open>Commands\<close>

text \<open>A message is cut to its buffer.\<close>

definition fit_message :: "string \<Rightarrow> string" where
  "fit_message s = take (APP_COMMAND_MESSAGE_SIZE - 1) s"

text \<open>The outcome of an operation: \<open>done\<close> if it succeeded, otherwise \<open>failed\<close> with the name of the error.\<close>

definition outcome :: "('s, 'j) platform \<Rightarrow> string \<Rightarrow> string \<Rightarrow> esp_err \<Rightarrow> bool \<times> string" where
  "outcome pf done failed err =
     (if err = ESP_OK then (True, fit_message done) else (False, fit_message (failed @ esp_err_to_name pf err)))"

definition staged_config :: "app_command_request \<Rightarrow> wifi_config" where
  "staged_config request =
     \<lparr>credentials = \<lparr>ssid = take (APP_STORAGE_WIFI_SSID_SIZE - 1) (c_str (req_wifi_ssid request)),
                     password = take (APP_STORAGE_WIFI_PASSWORD_SIZE - 1) (c_str (req_wifi_password request))\<rparr>,
      request_id = take (APP_STORAGE_WIFI_REQUEST_ID_SIZE - 1) (c_str (req_request_id request)),
      config_version = req_wifi_config_version request\<rparr>"

definition stage_outcome :: "esp_err \<Rightarrow> wifi_stage_result \<Rightarrow> bool \<times> string" where
  "stage_outcome stage_err stage_result =
     (if stage_err \<noteq> ESP_OK then (False, ''WiFi configuration storage failed'')
      else case stage_result of
             APP_STORAGE_WIFI_STAGE_STALE_VERSION \<Rightarrow> (False, ''stale WiFi configuration version'')
           | APP_STORAGE_WIFI_STAGE_VERSION_CONFLICT \<Rightarrow> (False, ''WiFi configuration version conflict'')
           | _ \<Rightarrow> (True, ''candidate WiFi credentials stored''))"

text \<open>
  The branches of the \<open>switch\<close> that execute an operation: its success and message, and the device afterwards. \<open>None\<close>: no result is
  published (\<open>default\<close>). KICK is in \<open>handle_mqtt_command\<close>.
\<close>

fun execute_command ::
  "('s, 'j) platform \<Rightarrow> services \<Rightarrow> app_command_type \<Rightarrow> app_command_request \<Rightarrow> 's device \<Rightarrow> ((bool \<times> string) \<times> 's device) option" where
  "execute_command pf env APP_COMMAND_TYPE_PING request d = Some ((True, ''pong''), d)"
| "execute_command pf env APP_COMMAND_TYPE_GET_STATUS request d =
     (case publish_device_status pf env d of (err, d) \<Rightarrow>
        Some (outcome pf ''device status published'' ''status publish failed: '' err, d))"
| "execute_command pf env APP_COMMAND_TYPE_DISCONNECT_MAC request d =
     (case wifi_gateway_disconnect_client (wifi env) (Some (c_str (req_mac request))) (dev_gateway d) of (err, gw) \<Rightarrow>
        Some (outcome pf ''client disconnect requested'' ''disconnect client failed: '' err, d\<lparr>dev_gateway := gw\<rparr>))"
| "execute_command pf env APP_COMMAND_TYPE_ALLOW request d =
     (case client_access_authorize (pdMS_TO_TICKS pf) (now env) (Some (c_str (req_mac request))) (req_session_id request)
             (word_of_int (req_ttl_seconds request)) (dev_clients d) of (err, clients) \<Rightarrow>
        Some (outcome pf ''client access state authorized'' ''authorize client failed: '' err, d\<lparr>dev_clients := clients\<rparr>))"
| "execute_command pf env APP_COMMAND_TYPE_REVOKE_ACCESS request d =
     (case client_access_revoke_authorization (Some (c_str (req_mac request))) (req_session_id request) (dev_clients d) of
        (err, clients) \<Rightarrow>
          Some (outcome pf ''client authorization revoked'' ''revoke client authorization failed: '' err,
                d\<lparr>dev_clients := clients\<rparr>))"
| "execute_command pf env APP_COMMAND_TYPE_BLOCK_TRAFFIC request d =
     (case access_filter_block_traffic (lwip pf) (Some (c_str (req_dst_ip request))) (Some (c_str (req_sni request)))
             (dev_rules d) of (err, rules) \<Rightarrow>
        Some (outcome pf (if c_str (req_sni request) \<noteq> [] then ''IPv4 and hostname traffic block installed''
                          else ''IPv4 traffic block installed'') ''block destination failed: '' err,
              d\<lparr>dev_rules := rules\<rparr>))"
| "execute_command pf env APP_COMMAND_TYPE_STAGE_WIFI_CONFIG request d =
     (if c_str (req_device_code request) \<noteq> DEVICE_CODE (secrets pf) then Some ((False, ''device code mismatch''), d)
      else
        (case app_storage_stage_candidate_wifi_config (nvs_lib pf) (Some (staged_config request)) (storage d) of
           ((stage_err, stage_result), st) \<Rightarrow> Some (stage_outcome stage_err stage_result, d\<lparr>storage := st\<rparr>)))"
| "execute_command pf env _ request d = None"

definition handle_mqtt_command ::
  "('s, 'j) platform \<Rightarrow> services \<Rightarrow> string \<Rightarrow> string \<Rightarrow> 's device \<Rightarrow> 's device" where
  "handle_mqtt_command pf env topic payload d =
     (case app_command_parse (cjson pf) (Some topic) (Some payload) empty_request of (err, request) \<Rightarrow>
        let result = \<lparr>result_request_id = take (APP_COMMAND_REQUEST_ID_SIZE - 1) (c_str (req_request_id request)),
                      result_type = req_type request, result_success = False, result_message = []\<rparr> in
        if err \<noteq> ESP_OK
        then snd (publish_command_result pf env
                    (result\<lparr>result_message := fit_message (''command parse failed: '' @ esp_err_to_name pf err)\<rparr>) d)
        else if req_type request = APP_COMMAND_TYPE_KICK
        then (snd (publish_command_result pf env
                     (result\<lparr>result_success := True, result_message := ''device restarting''\<rparr>) d))\<lparr>restarting := True\<rparr>
        else case execute_command pf env (req_type request) request d of
               None \<Rightarrow> d
             | Some ((success, message), d) \<Rightarrow>
                 snd (publish_command_result pf env (result\<lparr>result_success := success, result_message := message\<rparr>) d))"

section \<open>The start\<close>

text \<open>What the calls of the start answer.\<close>

record 's boot_services =
  nvs_flash_init :: "'s \<Rightarrow> esp_err \<times> 's"
  nvs_flash_erase :: "'s \<Rightarrow> esp_err \<times> 's"
  nvs_mutex_created :: bool
  boot_wifi :: wifi_driver
  access_env :: access_start_env
  filter_netif_exists :: bool
  filter_netif :: "netif option"
  portal_env :: portal_start_env
  client_slots :: nat

text \<open>The state in which \<open>app_main\<close> begins: only the contents of NVS survive a restart.\<close>

definition device_boot :: "('s, 'j) platform \<Rightarrow> nat \<Rightarrow> 's \<Rightarrow> 's device" where
  "device_boot pf slots s =
     \<lparr>storage = \<lparr>nvs = s, s_wifi_config_mutex = False\<rparr>, dev_gateway = gateway_boot, dev_mqtt = mqtt_boot,
      dev_clients = client_access_boot slots, dev_rules = access_rules_boot, dev_flows = boot_flows,
      dev_portal = \<lparr>s_server = False,
        s_config = \<lparr>provisioning_mode = False, external_portal_url = None, device_code = None, external_portal_domain = None,
                    external_portal_ipv4 = None, provision_handler = None\<rparr>,
        registered_uris = [], portal_dns = portal_dns_boot\<rparr>,
      s_wifi_credentials = credentials empty_wifi_config, s_candidate_config = empty_wifi_config,
      s_upstream_wifi_slot = UPSTREAM_WIFI_SLOT_CURRENT, s_candidate_mqtt_generation = 0,
      s_client_disconnect_publish_task = False,
      dev_wifi_config = \<lparr>sta_enabled = False, sta_ssid = None, sta_password = None, ap_ssid = Some (AP_SSID (secrets pf)),
        ap_password = Some (AP_PASSWORD (secrets pf)), ap_max_connection = 4\<rparr>,
      dev_portal_config = \<lparr>provisioning_mode = False, external_portal_url = Some (PORTAL_EXTERNAL_URL (secrets pf)),
        device_code = Some (DEVICE_CODE (secrets pf)), external_portal_domain = Some (PORTAL_EXTERNAL_DOMAIN (secrets pf)),
        external_portal_ipv4 = Some (PORTAL_SERVER_IPV4 (secrets pf)),
        provision_handler = Some (\<lambda>i p. handle_wifi_provisioning pf (Some i) (Some p))\<rparr>,
      mqtt_started = False, publishing = None, published = [], restarting = False\<rparr>"

text \<open>An operation of a component, on the device.\<close>

definition on_storage :: "('s app_storage \<Rightarrow> esp_err \<times> 's app_storage) \<Rightarrow> 's device \<Rightarrow> esp_err \<times> 's device" where
  "on_storage f d = (case f (storage d) of (err, st) \<Rightarrow> (err, d\<lparr>storage := st\<rparr>))"
definition on_gateway :: "(gateway \<Rightarrow> esp_err \<times> gateway) \<Rightarrow> 's device \<Rightarrow> esp_err \<times> 's device" where
  "on_gateway f d = (case f (dev_gateway d) of (err, st) \<Rightarrow> (err, d\<lparr>dev_gateway := st\<rparr>))"
definition on_clients :: "(client_access \<Rightarrow> esp_err \<times> client_access) \<Rightarrow> 's device \<Rightarrow> esp_err \<times> 's device" where
  "on_clients f d = (case f (dev_clients d) of (err, st) \<Rightarrow> (err, d\<lparr>dev_clients := st\<rparr>))"
definition on_rules :: "(access_rules \<Rightarrow> esp_err \<times> access_rules) \<Rightarrow> 's device \<Rightarrow> esp_err \<times> 's device" where
  "on_rules f d = (case f (dev_rules d) of (err, st) \<Rightarrow> (err, d\<lparr>dev_rules := st\<rparr>))"
definition on_portal :: "('s app_storage captive_portal \<Rightarrow> esp_err \<times> 's app_storage captive_portal) \<Rightarrow> 's device \<Rightarrow> esp_err \<times> 's device" where
  "on_portal f d = (case f (dev_portal d) of (err, st) \<Rightarrow> (err, d\<lparr>dev_portal := st\<rparr>))"

text \<open>\<open>ESP_ERROR_CHECK\<close> aborts at the first error, which is the result.\<close>

definition app_main_start :: "('s, 'j) platform \<Rightarrow> 's boot_services \<Rightarrow> 's \<Rightarrow> esp_err \<times> 's device" where
  "app_main_start pf boot s =
     fold if_ok
       [on_storage (app_storage_init_nvs (nvs_flash_init boot) (nvs_flash_erase boot) (nvs_mutex_created boot)),
        prepare_wifi_gateway_config pf,
        \<lambda>d. on_gateway (wifi_gateway_start (boot_wifi boot) (Some (dev_wifi_config d))) d,
        on_clients (client_access_start (access_env boot)),
        on_rules (access_filter_start (lwip pf) (filter_netif_exists boot) (filter_netif boot)
                    (Some (Some (PORTAL_SERVER_IPV4 (secrets pf))))),
        \<lambda>d. on_portal (captive_portal_start (lwip pf) (portal_env boot) (Some (dev_portal_config d))) d]
       (ESP_OK, device_boot pf (client_slots boot) s)"

section \<open>The main loop\<close>

definition mqtt_config :: "('s, 'j) platform \<Rightarrow> app_mqtt_config" where
  "mqtt_config pf = \<lparr>broker_uri = Some (MQTT_BROKER_URI (secrets pf)), command_topic = Some (DEVICE_COMMAND_TOPIC pf),
     command_handler = True\<rparr>"

definition start_mqtt :: "('s, 'j) platform \<Rightarrow> services \<Rightarrow> 's device \<Rightarrow> 's device" where
  "start_mqtt pf env d =
     (case app_mqtt_start (mqtt_client_created env) (mqtt_registered env) (mqtt_client_started env) (Some (mqtt_config pf))
             (dev_mqtt d) of (mqtt_err, m) \<Rightarrow>
        d\<lparr>dev_mqtt := m, mqtt_started := (mqtt_err = ESP_OK)\<rparr>)"

definition report :: "('s, 'j) platform \<Rightarrow> services \<Rightarrow> 's device \<Rightarrow> 's device" where
  "report pf env d =
     (let d = snd (publish_device_status pf env d);
          d = d\<lparr>dev_clients := client_access_expire_check (now env) (dev_clients d)\<rparr>
      in case client_access_update_rssi_all (softap_list env) (dev_clients d) of (rssi_err, clients) \<Rightarrow>
           let d = d\<lparr>dev_clients := clients\<rparr> in
           if rssi_err \<noteq> ESP_OK then d else snd (publish_client_signals pf env d))"

definition main_round :: "('s, 'j) platform \<Rightarrow> services \<Rightarrow> 's device \<Rightarrow> 's device" where
  "main_round pf env d =
     (let wifi_status = wifi_gateway_get_status (dev_gateway d) in
      if wifi_status = WIFI_GATEWAY_STATUS_STA_RECOVERY_REQUIRED then handle_upstream_wifi_recovery pf env d
      else if wifi_status = WIFI_GATEWAY_STATUS_STA_UNREACHABLE then handle_upstream_wifi_unreachable pf env d
      else
        (let d = (if \<not> mqtt_started d \<and> wifi_status = WIFI_GATEWAY_STATUS_STA_GOT_IP then start_mqtt pf env d else d);
             d = promote_verified_candidate_if_ready pf env d;
             d = (if mqtt_started d \<and> \<not> s_client_disconnect_publish_task d
                  then snd (start_client_disconnect_publish_task env d) else d)
         in if mqtt_started d \<and> wifi_status = WIFI_GATEWAY_STATUS_STA_GOT_IP then report pf env d else d))"

section \<open>Steps of the device\<close>

text \<open>
  What happens to the device, one task at a time: a round of the main loop, an event of the Wi-Fi driver or of the
  SoftAP, an event of the MQTT client with the commands it delivers, a packet that lwIP hands to the filter, a request to the
  portal, a DNS query, a step of the publishing task.
  A device that restarts takes no other step; it begins again with the contents of NVS. So does one that loses power, between
  any two steps. A start that fails aborts (\<open>ESP_ERROR_CHECK\<close>), and the device restarts once more.
\<close>

datatype 's device_event =
    Main_round services
  | Wifi_event esp_err wifi_event
  | Softap_event softap_event
  | Mqtt_event services mqtt_event
  | Packet_input header_api u32 u32 "packet option" "netif option"
  | Portal_get http_api arp_service http_request
  | Portal_post http_api http_request
  | Dns_query "string \<Rightarrow> u32 option" u32 u32 bytes
  | Publish_step services
  | Reboot "'s boot_services"

definition run_effect :: "('s, 'j) platform \<Rightarrow> services \<Rightarrow> mqtt_effect \<Rightarrow> 's device \<Rightarrow> 's device" where
  "run_effect pf env fx d =
     (case fx of Subscribe topic \<Rightarrow> d | Command topic payload \<Rightarrow> handle_mqtt_command pf env topic payload d)"

definition on_softap :: "softap_event \<Rightarrow> client_access \<Rightarrow> client_access" where
  "on_softap ev st = client_access_ip_event_handler (Some ev) (client_access_event_handler (Some ev) st)"

inductive device_step :: "('s, 'j) platform \<Rightarrow> 's device_event \<Rightarrow> 's device \<Rightarrow> 's device \<Rightarrow> bool" for pf where
  round_step: "\<not> restarting d \<Longrightarrow> device_step pf (Main_round env) d (main_round pf env d)"
| wifi_step: "\<not> restarting d \<Longrightarrow>
    device_step pf (Wifi_event err ev) d (d\<lparr>dev_gateway := wifi_event_handler err ev (dev_gateway d)\<rparr>)"
| softap_step: "\<not> restarting d \<Longrightarrow> device_step pf (Softap_event ev) d (d\<lparr>dev_clients := on_softap ev (dev_clients d)\<rparr>)"
| mqtt_step: "\<not> restarting d \<Longrightarrow> mqtt_event_handler ev (dev_mqtt d) = Some (effects, m) \<Longrightarrow>
    device_step pf (Mqtt_event env ev) d (fold (run_effect pf env) effects (d\<lparr>dev_mqtt := m\<rparr>))"
| packet_step: "\<not> restarting d \<Longrightarrow>
    access_filter_lwip_ip4_input (lwip pf) hdrs t ms (dev_rules d) packet nif
      \<lparr>filter_clients = dev_clients d, tls_flows = dev_flows d\<rparr> = Some (discard, fs) \<Longrightarrow>
    device_step pf (Packet_input hdrs t ms packet nif) d (d\<lparr>dev_clients := filter_clients fs, dev_flows := tls_flows fs\<rparr>)"
| get_step: "\<not> restarting d \<Longrightarrow>
    device_step pf (Portal_get http arp request) d
      (d\<lparr>dev_clients := snd (portal_page_handler http arp (\<lambda>cs. cs) (s_config (dev_portal d)) request (dev_clients d))\<rparr>)"
| dns_step: "\<not> restarting d \<Longrightarrow>
    device_step pf (Dns_query getaddrinfo t source datagram) d
      (d\<lparr>dev_clients := snd (snd (answer_query getaddrinfo (dev_rules d) t source datagram (portal_dns (dev_portal d), dev_clients d)))\<rparr>)"
| post_step: "\<not> restarting d \<Longrightarrow>
    provision_post_handler http (s_config (dev_portal d)) request (storage d) = Some (r, st) \<Longrightarrow>
    device_step pf (Portal_post http request) d (d\<lparr>storage := st, restarting := post_restart r\<rparr>)"
| publish_step: "\<not> restarting d \<Longrightarrow> device_step pf (Publish_step env) d (client_disconnect_publish_task pf env d)"
| reboot_step: "app_main_start pf boot (nvs (storage d)) = (err, d') \<Longrightarrow>
    device_step pf (Reboot boot) d (if err = ESP_OK then d' else d'\<lparr>restarting := True\<rparr>)"

inductive_cases device_stepE: "device_step pf ev d d'"

inductive device_run :: "('s, 'j) platform \<Rightarrow> 's device_event list \<Rightarrow> 's device \<Rightarrow> 's device \<Rightarrow> bool" for pf where
  run_none: "device_run pf [] d d"
| run_snoc: "device_run pf evs d d' \<Longrightarrow> device_step pf ev d' d'' \<Longrightarrow> device_run pf (evs @ [ev]) d d''"

end
