(* ===== verification/App_Runs.thy ===== *)
theory App_Runs
  imports App_Loop Config_Runs Mqtt_Runs Gateway_Runs Command_Parsing
begin

text \<open>
  The candidate configuration of the upstream network over the life of the device: what each step does to the attempt, and
  when the candidate becomes the current configuration.
\<close>

section \<open>What a step leaves alone\<close>

text \<open>The part of the state that describes the attempt.\<close>

definition attempt :: "'s device \<Rightarrow> upstream_wifi_slot \<times> wifi_config \<times> u32" where
  "attempt d = (s_upstream_wifi_slot d, s_candidate_config d, s_candidate_mqtt_generation d)"

definition generation :: "'s device \<Rightarrow> u32" where
  "generation d = s_connection_generation (dev_mqtt d)"

lemma attempt_update [simp]:
  "attempt (d\<lparr>storage := st\<rparr>) = attempt d" "attempt (d\<lparr>dev_gateway := gw\<rparr>) = attempt d" "attempt (d\<lparr>dev_mqtt := m\<rparr>) = attempt d"
  "attempt (d\<lparr>dev_flows := fl\<rparr>) = attempt d" "attempt (d\<lparr>dev_clients := c\<rparr>) = attempt d" "attempt (d\<lparr>dev_rules := r\<rparr>) = attempt d" "attempt (d\<lparr>dev_portal := p\<rparr>) = attempt d"
  "attempt (d\<lparr>s_client_disconnect_publish_task := b\<rparr>) = attempt d" "attempt (d\<lparr>mqtt_started := b\<rparr>) = attempt d"
  "attempt (d\<lparr>publishing := x\<rparr>) = attempt d" "attempt (d\<lparr>published := ps\<rparr>) = attempt d" "attempt (d\<lparr>restarting := b\<rparr>) = attempt d"
  by (simp_all add: attempt_def)

lemma publish_frame [frame]:
  "attempt (snd (publish env topic json d)) = attempt d" "dev_mqtt (snd (publish env topic json d)) = dev_mqtt d"
  "dev_gateway (snd (publish env topic json d)) = dev_gateway d" "storage (snd (publish env topic json d)) = storage d"
  "restarting (snd (publish env topic json d)) = restarting d"
  by (simp_all add: publish_def Let_def)

lemma status_frame [frame]:
  "attempt (snd (publish_device_status pf env d)) = attempt d" "dev_mqtt (snd (publish_device_status pf env d)) = dev_mqtt d"
  "dev_gateway (snd (publish_device_status pf env d)) = dev_gateway d"
  "restarting (snd (publish_device_status pf env d)) = restarting d"
  by (simp_all add: publish_device_status_def frame split: prod.split sum.split)

lemma result_frame [frame]:
  "attempt (snd (publish_command_result pf env r d)) = attempt d" "dev_mqtt (snd (publish_command_result pf env r d)) = dev_mqtt d"
  by (simp_all add: publish_command_result_def frame split: sum.split)

lemma signals_frame [frame]:
  "attempt (snd (publish_client_signals pf env d)) = attempt d" "dev_mqtt (snd (publish_client_signals pf env d)) = dev_mqtt d"
  by (simp_all add: publish_client_signals_def frame split: prod.split sum.split)

lemma execute_frame:
  assumes "execute_command pf env t request d = Some (r, d')"
  shows "attempt d' = attempt d \<and> dev_mqtt d' = dev_mqtt d"
  using assms status_frame [of pf env d]
  by (cases t) (auto split: prod.splits if_split_asm)

lemma command_frame [frame]:
  "attempt (handle_mqtt_command pf env topic payload d) = attempt d"
  "dev_mqtt (handle_mqtt_command pf env topic payload d) = dev_mqtt d"
proof -
  obtain err request where p: "app_command_parse (cjson pf) (Some topic) (Some payload) empty_request = (err, request)" by fastforce
  have "attempt (handle_mqtt_command pf env topic payload d) = attempt d \<and>
      dev_mqtt (handle_mqtt_command pf env topic payload d) = dev_mqtt d"
  proof (cases "err \<noteq> ESP_OK \<or> req_type request = APP_COMMAND_TYPE_KICK")
    case True
    then show ?thesis by (auto simp: handle_mqtt_command_def p Let_def frame)
  next
    case False
    then show ?thesis
      using execute_frame [of pf env "req_type request" request d]
      by (auto simp: handle_mqtt_command_def p Let_def frame split: option.split prod.split)
  qed
  then show "attempt (handle_mqtt_command pf env topic payload d) = attempt d"
    "dev_mqtt (handle_mqtt_command pf env topic payload d) = dev_mqtt d" by simp_all
qed

lemma effects_frame:
  "attempt (fold (run_effect pf env) fx d) = attempt d \<and> dev_mqtt (fold (run_effect pf env) fx d) = dev_mqtt d"
  by (induction fx arbitrary: d) (simp_all add: run_effect_def frame split: mqtt_effect.split)

lemma publish_task_frame [frame]:
  "attempt (client_disconnect_publish_task pf env d) = attempt d"
  "dev_mqtt (client_disconnect_publish_task pf env d) = dev_mqtt d"
proof -
  have "attempt (snd (publish_client_disconnect pf env ev d)) = attempt d \<and>
      dev_mqtt (snd (publish_client_disconnect pf env ev d)) = dev_mqtt d" for ev
    by (simp add: publish_client_disconnect_def Let_def frame)
  then have p: "attempt d' = attempt d \<and> dev_mqtt d' = dev_mqtt d" if "publish_client_disconnect pf env ev d = (err, d')" for ev err d'
    using that by (metis snd_conv)
  show "attempt (client_disconnect_publish_task pf env d) = attempt d"
    "dev_mqtt (client_disconnect_publish_task pf env d) = dev_mqtt d"
    using p by (auto simp: client_disconnect_publish_task_def split: option.split prod.split sum.split)
qed

lemma recovery_frame [frame]:
  "attempt (enter_retained_wifi_recovery pf d) = attempt d" "dev_mqtt (enter_retained_wifi_recovery pf d) = dev_mqtt d"
  by (simp_all add: enter_retained_wifi_recovery_def Let_def)

section \<open>Starting an attempt\<close>

text \<open>An event handler only adds calls to the driver.\<close>

lemma handler_calls: "\<exists>cs. driver_calls (wifi_event_handler c e st) = cs @ driver_calls st"
  by (cases e) (auto simp: wifi_event_handler_def sta_reconfigured_def sta_disconnected_def call_def Let_def
      split: option.split)

lemma events_calls: "\<exists>cs. driver_calls (handle_events es st) = cs @ driver_calls st"
proof (induction es arbitrary: st)
  case (Cons x es)
  obtain c e where x: "x = (c, e)" by fastforce
  show ?case using Cons [of "wifi_event_handler c e st"] handler_calls [of c e st] by (auto simp: handle_events_def x)
qed (simp add: handle_events_def)

text \<open>A switch that reports success has given the driver the credentials, and leaves the station connecting.\<close>

lemma connect_started:
  assumes "wifi_gateway_connect_sta drv during (Some i) (Some p) st = (ESP_OK, st')"
  shows "s_status st' = WIFI_GATEWAY_STATUS_STA_CONNECTING \<and>
    (\<exists>cs. driver_calls st' = cs @ Set_sta_config (c_str i) (c_str p) # driver_calls st)"
proof -
  obtain err s1 where c: "configure_sta_credentials drv (Some i) (Some p) st = (err, s1)" by fastforce
  have s1: "err = ESP_OK" "driver_calls s1 = Set_sta_config (c_str i) (c_str p) # driver_calls st"
    using assms c by (auto simp: wifi_gateway_connect_sta_def configure_sta_credentials_def Let_def call_def split: if_split_asm)
  let ?s2 = "call Wifi_disconnect (s1\<lparr>s_sta_credential_failure_count := 0, s_sta_unreachable_count := 0, s_sta_ip := NO_IP,
      s_sta_reconfigure_pending := True\<rparr>)"
  obtain cs where cs: "driver_calls (handle_events during ?s2) = cs @ driver_calls ?s2" using events_calls by blast
  show ?thesis
    using assms s1 cs unfolding wifi_gateway_connect_sta_def c
    by (auto simp: Let_def connect_sta_def call_def split: if_split_asm)
qed

definition asks_for :: "wifi_config \<Rightarrow> 's device \<Rightarrow> 's device \<Rightarrow> bool" where
  "asks_for c d d' \<longleftrightarrow>
     (\<exists>cs. driver_calls (dev_gateway d') =
        cs @ Set_sta_config (c_str (ssid (credentials c))) (c_str (password (credentials c))) # driver_calls (dev_gateway d))"

lemma load_candidate_OK:
  assumes "nvs_contract view api" "fst (app_storage_load_candidate_wifi_config api st) = Inl err"
  shows "err \<noteq> ESP_OK"
  using assms(2) load_candidate_error [OF assms(1)]
  by (auto simp: app_storage_load_candidate_wifi_config_def Let_def split: if_split_asm prod.splits)

lemma load_candidate_view:
  assumes "nvs_contract view api" "app_storage_load_candidate_wifi_config api st = (r, st')"
  shows "view (nvs st') = view (nvs st)"
proof -
  obtain oe s where o: "nvs_open api False (nvs st) = (oe, s)" by fastforce
  show ?thesis using assms(2) open_view [OF assms(1) o]
    by (auto simp: app_storage_load_candidate_wifi_config_def Let_def o split: if_split_asm)
qed

lemma start_attempt_cases [consumes 1, case_names failed started]:
  assumes "nvs_contract view (nvs_lib pf)"
  obtains (failed) err d' where "start_candidate_wifi_attempt pf env d = (err, d')" "err \<noteq> ESP_OK"
      "attempt d' = attempt d" "dev_mqtt d' = dev_mqtt d" "restarting d' = restarting d"
      "fst (app_storage_load_candidate_wifi_config (nvs_lib pf) (storage d)) \<noteq> Inl ESP_OK"
      "view (nvs (storage d')) = view (nvs (storage d))"
  | (started) c d' where "start_candidate_wifi_attempt pf env d = (ESP_OK, d')"
      "fst (app_storage_load_candidate_wifi_config (nvs_lib pf) (storage d)) = Inr c"
      "attempt d' = (UPSTREAM_WIFI_SLOT_CANDIDATE, c, generation d)" "dev_mqtt d' = dev_mqtt d" "restarting d' = restarting d"
      "asks_for c d d'" "s_status (dev_gateway d') = WIFI_GATEWAY_STATUS_STA_CONNECTING"
      "view (nvs (storage d')) = view (nvs (storage d))"
proof -
  obtain r st where l: "app_storage_load_candidate_wifi_config (nvs_lib pf) (storage d) = (r, st)" by fastforce
  note v = load_candidate_view [OF assms l]
  show ?thesis
  proof (cases r)
    case (Inl err)
    have e: "err \<noteq> ESP_OK" using load_candidate_OK [OF assms, of "storage d" err] l Inl by simp
    have s: "start_candidate_wifi_attempt pf env d = (err, d\<lparr>storage := st\<rparr>)"
      by (simp add: start_candidate_wifi_attempt_def l Inl)
    show ?thesis using v l Inl e by (intro failed [OF s]) simp_all
  next
    case (Inr c)
    obtain err gw where w: "wifi_gateway_connect_sta (wifi env) (during_disconnect env) (Some (ssid (credentials c)))
        (Some (password (credentials c))) (dev_gateway d) = (err, gw)" by fastforce
    show ?thesis
    proof (cases "err = ESP_OK")
      case False
      then have "start_candidate_wifi_attempt pf env d = (err, d\<lparr>storage := st, dev_gateway := gw\<rparr>)"
        by (simp add: start_candidate_wifi_attempt_def l Inr w Let_def)
      from failed [OF this] False v l Inr show ?thesis by simp
    next
      case True
      then have "start_candidate_wifi_attempt pf env d = (ESP_OK, d\<lparr>storage := st, dev_gateway := gw, s_candidate_config := c,
          s_candidate_mqtt_generation := generation d, s_upstream_wifi_slot := UPSTREAM_WIFI_SLOT_CANDIDATE\<rparr>)"
        by (simp add: start_candidate_wifi_attempt_def l Inr w Let_def app_mqtt_get_connection_state_def generation_def)
      from started [OF this, of c] connect_started [OF w [unfolded True]] l Inr v show ?thesis
        by (simp add: attempt_def asks_for_def)
    qed
  qed
qed

section \<open>A round of the main loop\<close>

lemma status_view:
  assumes "nvs_contract view (nvs_lib pf)"
  shows "view (nvs (storage (snd (publish_device_status pf env d)))) = view (nvs (storage d))"
proof -
  obtain oe s where o: "nvs_open (nvs_lib pf) False (nvs (storage d)) = (oe, s)" by fastforce
  obtain r st where l: "app_storage_load_wifi_config_status (nvs_lib pf) (storage d) = (r, st)" by fastforce
  have "view (nvs (snd (app_storage_load_wifi_config_status (nvs_lib pf) (storage d)))) = view (nvs (storage d))"
    using open_view [OF assms o] by (simp add: app_storage_load_wifi_config_status_def Let_def o split: sum.split option.split)
  then have "view (nvs st) = view (nvs (storage d))" by (simp add: l)
  then show ?thesis
    by (cases r) (simp_all add: publish_device_status_def device_status_collect_def Let_def l frame split: sum.split)
qed

lemma signals_storage: "storage (snd (publish_client_signals pf env d)) = storage d"
  by (simp add: publish_client_signals_def frame split: prod.split sum.split)

lemma report_frame:
  assumes "nvs_contract view (nvs_lib pf)"
  shows "attempt (report pf env d) = attempt d \<and> dev_mqtt (report pf env d) = dev_mqtt d \<and>
    view (nvs (storage (report pf env d))) = view (nvs (storage d))"
  by (simp add: report_def Let_def frame signals_storage status_view [OF assms] split: prod.split)

lemma start_mqtt_frame:
  "attempt (start_mqtt pf env d) = attempt d \<and> storage (start_mqtt pf env d) = storage d \<and>
   dev_gateway (start_mqtt pf env d) = dev_gateway d \<and>
   app_mqtt_get_connection_state (dev_mqtt (start_mqtt pf env d)) = app_mqtt_get_connection_state (dev_mqtt d)"
  by (simp add: start_mqtt_def app_mqtt_start_def app_mqtt_get_connection_state_def Let_def split: prod.split option.split)

definition may_promote :: "'s device \<Rightarrow> bool" where
  "may_promote d \<longleftrightarrow>
     s_upstream_wifi_slot d = UPSTREAM_WIFI_SLOT_CANDIDATE \<and> s_status (dev_gateway d) = WIFI_GATEWAY_STATUS_STA_GOT_IP \<and>
     s_connected (dev_mqtt d) \<and> s_candidate_mqtt_generation d < generation d"

lemma promote_step_cases [consumes 1, case_names same promoted started]:
  assumes "nvs_contract view (nvs_lib pf)"
  obtains (same) "attempt (promote_verified_candidate_if_ready pf env d) = attempt d"
      "generation (promote_verified_candidate_if_ready pf env d) = generation d"
  | (promoted) st where "may_promote d"
      "app_storage_promote_candidate_wifi_config (nvs_lib pf) (Some (request_id (s_candidate_config d)))
         (config_version (s_candidate_config d)) (storage d) = (ESP_OK, st)"
      "attempt (promote_verified_candidate_if_ready pf env d) = (UPSTREAM_WIFI_SLOT_CURRENT, empty_wifi_config, s_candidate_mqtt_generation d)"
      "storage (promote_verified_candidate_if_ready pf env d) = st"
      "generation (promote_verified_candidate_if_ready pf env d) = generation d"
  | (started) c where "attempt (promote_verified_candidate_if_ready pf env d) = (UPSTREAM_WIFI_SLOT_CANDIDATE, c, generation d)"
      "asks_for c d (promote_verified_candidate_if_ready pf env d)"
      "generation (promote_verified_candidate_if_ready pf env d) = generation d"
proof (cases "may_promote d")
  case False
  then have "promote_verified_candidate_if_ready pf env d = d"
    by (auto simp: promote_verified_candidate_if_ready_def may_promote_def generation_def wifi_gateway_get_status_def
        app_mqtt_get_connection_state_def)
  then show ?thesis using same by simp
next
  case True
  obtain err st where p: "app_storage_promote_candidate_wifi_config (nvs_lib pf) (Some (request_id (s_candidate_config d)))
      (config_version (s_candidate_config d)) (storage d) = (err, st)" by fastforce
  let ?d = "d\<lparr>storage := st\<rparr>"
  have r: "promote_verified_candidate_if_ready pf env d =
      (if err = ESP_OK
       then ?d\<lparr>s_wifi_credentials := credentials (s_candidate_config d), s_candidate_config := empty_wifi_config,
              s_upstream_wifi_slot := UPSTREAM_WIFI_SLOT_CURRENT\<rparr>
       else if err = ESP_ERR_INVALID_STATE
       then (case start_candidate_wifi_attempt pf env ?d of (retry_err, d) \<Rightarrow>
               if retry_err \<noteq> ESP_OK then enter_retained_wifi_recovery pf d else d)
       else ?d)"
  proof -
    have "\<not> s_connection_generation (dev_mqtt d) \<le> s_candidate_mqtt_generation d"
      using True by (simp add: may_promote_def generation_def not_le)
    then show ?thesis
      using True by (simp add: promote_verified_candidate_if_ready_def may_promote_def
        wifi_gateway_get_status_def app_mqtt_get_connection_state_def p Let_def)
  qed
  consider "err = ESP_OK" | "err = ESP_ERR_INVALID_STATE" | "err \<noteq> ESP_OK" "err \<noteq> ESP_ERR_INVALID_STATE" by blast
  then show ?thesis
  proof cases
    case 1
    show ?thesis by (rule promoted [OF True, of st]) (simp_all add: p r 1 attempt_def generation_def)
  next
    case 2
    from assms show ?thesis
    proof (cases rule: start_attempt_cases [of view pf env ?d])
      case (failed e d')
      then show ?thesis using same by (simp add: r 2 frame generation_def)
    next
      case (started c d')
      then show ?thesis using that(3) [of c] by (simp add: r 2 generation_def asks_for_def)
    qed
  next
    case 3
    then show ?thesis using same by (simp add: r generation_def)
  qed
qed

lemma signals_gateway: "dev_gateway (snd (publish_client_signals pf env d)) = dev_gateway d"
  by (simp add: publish_client_signals_def frame split: prod.split sum.split)

lemma report_gateway: "dev_gateway (report pf env d) = dev_gateway d"
  by (simp add: report_def Let_def frame signals_gateway split: prod.split)

lemma recovery_cases [consumes 2, case_names same started]:
  assumes "nvs_contract view (nvs_lib pf)"
    and "d' = handle_upstream_wifi_recovery pf env d \<or> d' = handle_upstream_wifi_unreachable pf env d"
  obtains (same) "attempt d' = attempt d" "generation d' = generation d"
  | (started) c where "attempt d' = (UPSTREAM_WIFI_SLOT_CANDIDATE, c, generation d)" "asks_for c d d'" "generation d' = generation d"
proof -
  have e: "generation (enter_retained_wifi_recovery pf d) = generation d" for d :: "'a device" by (simp add: generation_def frame)
  from assms(1) show ?thesis
  proof (cases rule: start_attempt_cases [of view pf env d])
    case (failed err d1)
    have "attempt d' = attempt d \<and> generation d' = generation d"
      using assms(2) failed
      by (auto simp: handle_upstream_wifi_recovery_def handle_upstream_wifi_unreachable_def frame e generation_def split: prod.split)
    then show ?thesis using same by simp
  next
    case (started c d1)
    show ?thesis
    proof (cases "s_upstream_wifi_slot d = UPSTREAM_WIFI_SLOT_CANDIDATE")
      case True
      then have "d' = enter_retained_wifi_recovery pf d"
        using assms(2) by (auto simp: handle_upstream_wifi_recovery_def handle_upstream_wifi_unreachable_def)
      then show ?thesis using same by (simp add: frame e)
    next
      case False
      then have "s_upstream_wifi_slot d = UPSTREAM_WIFI_SLOT_CURRENT" by (cases "s_upstream_wifi_slot d") simp_all
      then have "d' = d1"
        using assms(2) started(1) by (auto simp: handle_upstream_wifi_recovery_def handle_upstream_wifi_unreachable_def)
      then show ?thesis using that(2) [of c] started by (simp add: generation_def)
    qed
  qed
qed

text \<open>A round without a recovery: only the promotion changes the attempt.\<close>

lemma round_normal:
  assumes "nvs_contract view (nvs_lib pf)"
    and "s_status (dev_gateway d) \<notin> {WIFI_GATEWAY_STATUS_STA_RECOVERY_REQUIRED, WIFI_GATEWAY_STATUS_STA_UNREACHABLE}"
  obtains d1 where "d1 = (if \<not> mqtt_started d \<and> s_status (dev_gateway d) = WIFI_GATEWAY_STATUS_STA_GOT_IP then start_mqtt pf env d else d)"
    "attempt (main_round pf env d) = attempt (promote_verified_candidate_if_ready pf env d1)"
    "generation (main_round pf env d) = generation (promote_verified_candidate_if_ready pf env d1)"
    "view (nvs (storage (main_round pf env d))) = view (nvs (storage (promote_verified_candidate_if_ready pf env d1)))"
    "dev_gateway (main_round pf env d) = dev_gateway (promote_verified_candidate_if_ready pf env d1)"
proof -
  define d1 where "d1 = (if \<not> mqtt_started d \<and> s_status (dev_gateway d) = WIFI_GATEWAY_STATUS_STA_GOT_IP then start_mqtt pf env d else d)"
  define d2 where "d2 = promote_verified_candidate_if_ready pf env d1"
  define d3 where "d3 = (if mqtt_started d2 \<and> \<not> s_client_disconnect_publish_task d2
    then snd (start_client_disconnect_publish_task env d2) else d2)"
  have r: "main_round pf env d = (if mqtt_started d3 \<and> s_status (dev_gateway d) = WIFI_GATEWAY_STATUS_STA_GOT_IP
      then report pf env d3 else d3)"
    using assms(2) unfolding main_round_def wifi_gateway_get_status_def Let_def d3_def d2_def d1_def
    by (simp only: insert_iff empty_iff if_False simp_thms de_Morgan_disj)
  have 3: "attempt d3 = attempt d2" "storage d3 = storage d2" "dev_gateway d3 = dev_gateway d2" "dev_mqtt d3 = dev_mqtt d2"
    by (simp_all add: d3_def start_client_disconnect_publish_task_def)
  show ?thesis
    by (rule that [OF d1_def])
      (use report_frame [OF assms(1), of env d3] report_gateway [of pf env d3] 3 in \<open>simp_all add: r generation_def d2_def [symmetric]\<close>)
qed

lemma round_cases [consumes 1, case_names same promoted started]:
  assumes "nvs_contract view (nvs_lib pf)"
  obtains (same) "attempt (main_round pf env d) = attempt d" "generation (main_round pf env d) = generation d"
  | (promoted) st where "may_promote d"
      "app_storage_promote_candidate_wifi_config (nvs_lib pf) (Some (request_id (s_candidate_config d)))
         (config_version (s_candidate_config d)) (storage d) = (ESP_OK, st)"
      "s_upstream_wifi_slot (main_round pf env d) = UPSTREAM_WIFI_SLOT_CURRENT"
      "view (nvs (storage (main_round pf env d))) = view (nvs st)" "generation (main_round pf env d) = generation d"
  | (started) c where "attempt (main_round pf env d) = (UPSTREAM_WIFI_SLOT_CANDIDATE, c, generation d)"
      "asks_for c d (main_round pf env d)" "generation (main_round pf env d) = generation d"
proof (cases "s_status (dev_gateway d) \<in> {WIFI_GATEWAY_STATUS_STA_RECOVERY_REQUIRED, WIFI_GATEWAY_STATUS_STA_UNREACHABLE}")
  case True
  then have "main_round pf env d = handle_upstream_wifi_recovery pf env d \<or>
      main_round pf env d = handle_upstream_wifi_unreachable pf env d"
    by (auto simp: main_round_def wifi_gateway_get_status_def)
  with assms show ?thesis by (cases rule: recovery_cases) (use that in blast)+
next
  case False
  obtain d1 where d1_def: "d1 = (if \<not> mqtt_started d \<and> s_status (dev_gateway d) = WIFI_GATEWAY_STATUS_STA_GOT_IP then start_mqtt pf env d else d)"
    and 4: "attempt (main_round pf env d) = attempt (promote_verified_candidate_if_ready pf env d1)"
    "generation (main_round pf env d) = generation (promote_verified_candidate_if_ready pf env d1)"
    "view (nvs (storage (main_round pf env d))) = view (nvs (storage (promote_verified_candidate_if_ready pf env d1)))"
    "dev_gateway (main_round pf env d) = dev_gateway (promote_verified_candidate_if_ready pf env d1)"
    using round_normal [OF assms False, of env] by blast
  define d2 where "d2 = promote_verified_candidate_if_ready pf env d1"
  note 4 = 4 [folded d2_def]
  have 1: "attempt d1 = attempt d" "storage d1 = storage d" "dev_gateway d1 = dev_gateway d" "generation d1 = generation d"
      "s_connected (dev_mqtt d1) = s_connected (dev_mqtt d)"
    using start_mqtt_frame [of pf env d] by (simp_all add: d1_def generation_def app_mqtt_get_connection_state_def)
  then have m: "may_promote d1 = may_promote d" "asks_for c d1 d' = asks_for c d d'" for c d'
    by (simp_all add: may_promote_def attempt_def asks_for_def)
  have a: "asks_for c d (main_round pf env d) = asks_for c d1 d2" for c by (simp add: asks_for_def 4 1)
  have cfg: "s_candidate_config d1 = s_candidate_config d" using 1(1) by (simp add: attempt_def)
  from assms show ?thesis
  proof (cases rule: promote_step_cases [of view pf env d1])
    case same
    then show ?thesis using that(1) 1 4 by (simp add: d2_def)
  next
    case (promoted st)
    show ?thesis
      by (rule that(2) [of st]) (use promoted 1 4 m cfg in \<open>simp_all add: d2_def attempt_def\<close>)
  next
    case (started c)
    show ?thesis by (rule that(3) [of c]) (use started 1 4 a in \<open>simp_all add: d2_def\<close>)
  qed
qed

section \<open>Attempts over runs\<close>

fun is_connect :: "'s device_event \<Rightarrow> bool" where
  "is_connect (Mqtt_event env MQTT_EVENT_CONNECTED) = True"
| "is_connect _ = False"

fun is_reboot :: "'s device_event \<Rightarrow> bool" where
  "is_reboot (Reboot boot) = True"
| "is_reboot _ = False"

text \<open>
  Where the present attempt comes from: a round of the history that gave the driver the credentials of the candidate
  (\<open>asks_for\<close>), without a restart since; the generation has grown by the connections since then.
\<close>

definition attempt_origin ::
  "('s, 'j) platform \<Rightarrow> 's device \<Rightarrow> 's device_event list \<Rightarrow> 's device \<Rightarrow> 's device_event list \<Rightarrow> bool" where
  "attempt_origin pf d0 evs d later \<longleftrightarrow>
     (\<exists>before env d1 d2. evs = before @ Main_round env # later \<and>
        device_run pf before d0 d1 \<and> d2 = main_round pf env d1 \<and> device_run pf later d2 d \<and>
        asks_for (s_candidate_config d) d1 d2 \<and> attempt d2 = attempt d \<and>
        s_candidate_mqtt_generation d = generation d2 \<and> list_all (\<lambda>e. \<not> is_reboot e) later \<and>
        generation d = generation d2 + of_nat (length (filter is_connect later)))"

lemma step_generation:
  assumes "device_step pf ev d d'" "\<not> is_reboot ev" "\<forall>env. ev \<noteq> Main_round env"
  shows "attempt d' = attempt d \<and> generation d' = generation d + (if is_connect ev then 1 else 0)"
  using assms
proof cases
  case (mqtt_step e effects m env)
  have "is_connect ev = (e = MQTT_EVENT_CONNECTED)" using mqtt_step by (cases e) simp_all
  then show ?thesis
    using mqtt_step handler_generation [OF mqtt_step(4)] effects_frame [of pf env effects "d\<lparr>dev_mqtt := m\<rparr>"]
    by (simp add: generation_def)
qed (auto simp: frame generation_def)

lemma boot_attempt:
  assumes "app_main_start pf boot s = (err, d)"
  shows "s_upstream_wifi_slot d = UPSTREAM_WIFI_SLOT_CURRENT"
proof -
  let ?P = "\<lambda>d. s_upstream_wifi_slot d = UPSTREAM_WIFI_SLOT_CURRENT"
  have on: "?P (snd (on_storage f d))" "?P (snd (on_gateway g d))" "?P (snd (on_clients h d))" "?P (snd (on_rules k d))"
      "?P (snd (on_portal l d))" if "?P d" for f g h k l and d :: "'a device"
    using that by (simp_all add: on_storage_def on_gateway_def on_clients_def on_rules_def on_portal_def split: prod.split)
  have "?P (snd (prepare_wifi_gateway_config pf d))" if "?P d" for d
    using that by (simp add: prepare_wifi_gateway_config_def use_credentials_def select_normal_gateway_mode_def
        select_provisioning_mode_def Let_def split: prod.split sum.split)
  then have "?P (snd (app_main_start pf boot s))"
    unfolding app_main_start_def by (intro fold_if_ok_keeps [where P = ?P]) (auto simp: on device_boot_def)
  then show ?thesis by (simp add: assms)
qed

lemma attempt_has_origin:
  assumes "nvs_contract view (nvs_lib pf)" "device_run pf evs d0 d" "s_upstream_wifi_slot d0 = UPSTREAM_WIFI_SLOT_CURRENT"
    "s_upstream_wifi_slot d = UPSTREAM_WIFI_SLOT_CANDIDATE"
  shows "\<exists>later. attempt_origin pf d0 evs d later"
  using assms(2-4)
proof (induction rule: device_run.induct)
  case (run_snoc evs d0 d' ev d'')
  have keep: "\<exists>later. attempt_origin pf d0 (evs @ [ev]) d'' later"
    if "attempt d'' = attempt d'" "generation d'' = generation d' + (if is_connect ev then 1 else 0)" "\<not> is_reboot ev"
  proof -
    have slot: "s_upstream_wifi_slot d' = UPSTREAM_WIFI_SLOT_CANDIDATE" "s_candidate_config d'' = s_candidate_config d'"
        "s_candidate_mqtt_generation d'' = s_candidate_mqtt_generation d'"
      using that(1) run_snoc.prems(2) by (simp_all add: attempt_def)
    from run_snoc.IH [OF run_snoc.prems(1) slot(1)] obtain later before env d1 d2 where
      o: "evs = before @ Main_round env # later" "device_run pf before d0 d1" "d2 = main_round pf env d1"
        "device_run pf later d2 d'" "asks_for (s_candidate_config d') d1 d2" "attempt d2 = attempt d'"
        "s_candidate_mqtt_generation d' = generation d2" "list_all (\<lambda>e. \<not> is_reboot e) later"
        "generation d' = generation d2 + of_nat (length (filter is_connect later))"
      unfolding attempt_origin_def by blast
    have "device_run pf (later @ [ev]) d2 d''" using o(4) run_snoc.hyps(2) by (rule device_run.run_snoc)
    then have "attempt_origin pf d0 (evs @ [ev]) d'' (later @ [ev])"
      unfolding attempt_origin_def using o that slot by (intro exI [of _ before] exI [of _ env] exI [of _ d1] exI [of _ d2]) simp
    then show ?thesis ..
  qed
  show ?case
  proof (cases ev)
    case (Main_round env)
    have d'': "d'' = main_round pf env d'" using run_snoc.hyps(2) unfolding Main_round by (auto elim: device_stepE)
    from assms(1) show ?thesis
    proof (cases rule: round_cases [of view pf env d'])
      case same
      then show ?thesis by (intro keep) (simp_all add: d'' Main_round)
    next
      case (promoted st)
      then show ?thesis using run_snoc.prems(2) d'' by simp
    next
      case (started c)
      then have "s_candidate_config d'' = c" "s_candidate_mqtt_generation d'' = generation d''" by (simp_all add: d'' attempt_def)
      then have "attempt_origin pf d0 (evs @ [ev]) d'' []"
        unfolding attempt_origin_def using started run_snoc.hyps(1)
        by (intro exI [of _ evs] exI [of _ env] exI [of _ d'] exI [of _ d'']) (simp add: Main_round d'' run_none)
      then show ?thesis ..
    qed
  next
    case (Reboot boot)
    then obtain err d1 where "app_main_start pf boot (nvs (storage d')) = (err, d1)" "d'' \<in> {d1, d1\<lparr>restarting := True\<rparr>}"
      using run_snoc.hyps(2) by (auto elim: device_stepE)
    then show ?thesis using boot_attempt run_snoc.prems(2) by fastforce
  qed (use keep step_generation [OF run_snoc.hyps(2)] in auto)
qed simp

section \<open>Properties\<close>

text \<open>
  C4: a candidate becomes current only after it has proved itself. In every run of the device, if a round of the main
  loop makes the candidate current, then an earlier round, with no restart since, gave the driver the credentials of this attempt; after it the MQTT
  client connected at least once; now the station has an address and MQTT is connected; and what the device will load as its current
  credentials is the stored candidate with the request id and the version of the attempt.
\<close>

theorem candidate_promoted_only_when_verified:
  assumes c: "nvs_contract view (nvs_lib pf)" and run: "device_run pf evs d0 d"
    and slots: "s_upstream_wifi_slot d0 = UPSTREAM_WIFI_SLOT_CURRENT" "s_upstream_wifi_slot d = UPSTREAM_WIFI_SLOT_CANDIDATE"
      "s_upstream_wifi_slot (main_round pf env d) = UPSTREAM_WIFI_SLOT_CURRENT"
  shows "\<exists>later p. attempt_origin pf d0 evs d later \<and> (\<exists>e \<in> set later. is_connect e) \<and>
    s_status (dev_gateway d) = WIFI_GATEWAY_STATUS_STA_GOT_IP \<and> s_connected (dev_mqtt d) \<and>
    holds_candidate (view (nvs (storage d))) p \<and> request_id p = request_id (s_candidate_config d) \<and>
    config_version p = config_version (s_candidate_config d) \<and>
    (let v = view (nvs (storage (main_round pf env d)))
     in v SSID_KEY = Some (Nvs_Str (c_str (ssid (credentials p)))) \<and>
        v PASSWORD_KEY = Some (Nvs_Str (c_str (password (credentials p)))) \<and>
        active_version_of v = Some (config_version p) \<and> v CANDIDATE_SSID_KEY = None)"
proof -
  obtain later where o: "attempt_origin pf d0 evs d later" using attempt_has_origin [OF c run slots(1,2)] by blast
  from c show ?thesis
  proof (cases rule: round_cases [of view pf env d])
    case (promoted st)
    have "s_candidate_mqtt_generation d < generation d" using promoted(1) by (simp add: may_promote_def)
    moreover have "generation d = s_candidate_mqtt_generation d + of_nat (length (filter is_connect later))"
      using o by (auto simp: attempt_origin_def)
    ultimately have "filter is_connect later \<noteq> []" by auto
    then have conn: "\<exists>e \<in> set later. is_connect e" by (simp add: filter_empty_conv)
    from c promoted(2) show ?thesis
    proof (cases rule: promote_cases)
      case (promoted p)
      note v = promoted(6) [OF refl]
      have m: "view (nvs (storage (main_round pf env d))) = upd (promote_updates p) (view (nvs (storage d)))"
        using \<open>view (nvs (storage (main_round pf env d))) = view (nvs st)\<close> v by simp
      have "active_version_of (view (nvs (storage (main_round pf env d)))) = Some (config_version p)"
        by (intro version_of_keys) (simp add: m update_versions)
      moreover have "request_id p = request_id (s_candidate_config d)" "config_version p = config_version (s_candidate_config d)"
        using promoted(3,4) by simp_all
      ultimately show ?thesis
        using o conn promoted(1) \<open>may_promote d\<close>
        by (intro exI [of _ later] exI [of _ p]) (simp add: may_promote_def m update_defs storage_keys)
    qed simp
  qed (use slots in \<open>simp_all add: attempt_def\<close>)
qed

section \<open>Witnesses\<close>

text \<open>A device whose NVS holds a candidate and whose current credentials were rejected.\<close>

definition sample_secrets :: secrets where
  "sample_secrets = \<lparr>AP_SSID = ''WifiManager-ESP32'', AP_PASSWORD = [], PROVISION_AP_SSID = ''WifiManager-Setup'',
     PROVISION_AP_PASSWORD = ''setup-password'', PORTAL_EXTERNAL_URL = ''http://portal.test/portal'',
     PORTAL_EXTERNAL_DOMAIN = ''portal.test'', PORTAL_SERVER_IPV4 = ''192.168.137.1'', MQTT_BROKER_URI = ''mqtt://192.168.137.1:1883'',
     DEVICE_CODE = ''gw-1''\<rparr>"

definition sample_writer :: json_writer where
  "sample_writer = \<lparr>cJSON_CreateObject = True, cJSON_AddToObject = (\<lambda>_. True), cJSON_PrintPreallocated = (\<lambda>_ _. Some ''{}'')\<rparr>"

definition sample_platform :: "(nvs_view, unit) platform" where
  "sample_platform = \<lparr>secrets = sample_secrets, nvs_lib = map_nvs [], lwip = sample_lwip, cjson = sample_cjson,
     json_out = sample_writer, esp_err_to_name = (\<lambda>_. ''ESP_FAIL''), pdMS_TO_TICKS = (\<lambda>ms. ms)\<rparr>"

definition sample_services :: services where
  "sample_services = \<lparr>wifi = sample_driver, during_disconnect = [], now = 0, msg_id = (\<lambda>_ _. 1), ap_info = None,
     softap_list = Inr [], mqtt_client_created = True, mqtt_registered = ESP_OK, mqtt_client_started = ESP_OK, task_created = True\<rparr>"

definition rejected_device :: "nvs_view device" where
  "rejected_device = (device_boot sample_platform 1 Map.empty)\<lparr>storage := staged_store 3,
     dev_gateway := gateway_boot\<lparr>s_status := WIFI_GATEWAY_STATUS_STA_RECOVERY_REQUIRED\<rparr>, mqtt_started := True\<rparr>"

lemma sample_fields [simp]:
  "nvs_lib sample_platform = map_nvs []" "wifi sample_services = sample_driver" "during_disconnect sample_services = []"
  by (simp_all add: sample_platform_def sample_services_def)

lemma sample_load: "app_storage_load_candidate_wifi_config (map_nvs []) (staged_store 3) = (Inr (sample_config ''r1'' 3), staged_store 3)"
proof -
  have "s_wifi_config_mutex (staged_store 3)" by (simp add: staged_store_def)
  then show ?thesis
    using sample_candidate [of 3] by (simp add: app_storage_load_candidate_wifi_config_def lock_map_nvs Let_def)
qed

lemma sample_switch:
  "\<exists>gw. wifi_gateway_connect_sta sample_driver [] (Some ''office'') (Some ''secret-password'')
     (gateway_boot\<lparr>s_status := WIFI_GATEWAY_STATUS_STA_RECOVERY_REQUIRED\<rparr>) = (ESP_OK, gw)"
proof -
  have v: "credentials_valid ''office'' ''secret-password''"
    by (simp add: credentials_valid_def Let_def c_strnlen_def NUL_char)
  show ?thesis
    using valid_credentials_set [of "''office''" "''secret-password''" sample_driver] v
    by (simp add: validate_credentials wifi_gateway_connect_sta_def sample_driver_def Let_def)
qed

definition trying_device :: "nvs_view device" where
  "trying_device = main_round sample_platform sample_services rejected_device"

lemma trying_fields:
  "attempt trying_device = (UPSTREAM_WIFI_SLOT_CANDIDATE, sample_config ''r1'' 3, 0)" "storage trying_device = staged_store 3"
  "dev_mqtt trying_device = mqtt_boot" "mqtt_started trying_device" "\<not> restarting trying_device"
proof -
  obtain gw where gw: "wifi_gateway_connect_sta sample_driver [] (Some ''office'') (Some ''secret-password'')
     (gateway_boot\<lparr>s_status := WIFI_GATEWAY_STATUS_STA_RECOVERY_REQUIRED\<rparr>) = (ESP_OK, gw)" using sample_switch by blast
  have eq: "trying_device = rejected_device\<lparr>dev_gateway := gw, s_candidate_config := sample_config ''r1'' 3,
      s_candidate_mqtt_generation := 0, s_upstream_wifi_slot := UPSTREAM_WIFI_SLOT_CANDIDATE\<rparr>"
    by (simp add: trying_device_def main_round_def rejected_device_def device_boot_def wifi_gateway_get_status_def
        handle_upstream_wifi_recovery_def start_candidate_wifi_attempt_def sample_load gw [unfolded c_str_def]
        app_mqtt_get_connection_state_def mqtt_boot_def Let_def sample_config_def gw)
  show "attempt trying_device = (UPSTREAM_WIFI_SLOT_CANDIDATE, sample_config ''r1'' 3, 0)" "storage trying_device = staged_store 3"
    "dev_mqtt trying_device = mqtt_boot" "mqtt_started trying_device" "\<not> restarting trying_device"
    unfolding eq by (simp_all add: attempt_def rejected_device_def device_boot_def)
qed

definition verified_events :: "nvs_view device_event list" where
  "verified_events = [Main_round sample_services, Wifi_event ESP_OK (IP_EVENT_STA_GOT_IP 0x0104A8C0),
     Mqtt_event sample_services MQTT_EVENT_CONNECTED]"

definition verified_device :: "nvs_view device" where
  "verified_device = trying_device\<lparr>dev_gateway := wifi_event_handler ESP_OK (IP_EVENT_STA_GOT_IP 0x0104A8C0) (dev_gateway trying_device),
     dev_mqtt := set_connection_state True mqtt_boot\<rparr>"

lemma verified_run: "device_run sample_platform verified_events rejected_device verified_device"
proof -
  let ?d2 = "trying_device\<lparr>dev_gateway := wifi_event_handler ESP_OK (IP_EVENT_STA_GOT_IP 0x0104A8C0) (dev_gateway trying_device)\<rparr>"
  have "\<not> restarting rejected_device" by (simp add: rejected_device_def device_boot_def)
  then have "device_step sample_platform (Main_round sample_services) rejected_device trying_device"
    unfolding trying_device_def by (rule round_step)
  moreover have "device_step sample_platform (Wifi_event ESP_OK (IP_EVENT_STA_GOT_IP 0x0104A8C0)) trying_device ?d2"
    by (rule wifi_step) (simp add: trying_fields)
  moreover have "device_step sample_platform (Mqtt_event sample_services MQTT_EVENT_CONNECTED) ?d2
      (fold (run_effect sample_platform sample_services) [Subscribe (s_command_topic (set_connection_state True mqtt_boot))]
        (?d2\<lparr>dev_mqtt := set_connection_state True mqtt_boot\<rparr>))"
    by (rule mqtt_step) (simp_all add: trying_fields mqtt_event_handler_def Let_def)
  then have "device_step sample_platform (Mqtt_event sample_services MQTT_EVENT_CONNECTED) ?d2 verified_device"
    by (simp add: verified_device_def run_effect_def)
  ultimately show ?thesis
    using run_snoc [OF run_snoc [OF run_snoc [OF run_none]]] by (fastforce simp: verified_events_def)
qed

lemma verified_promotion: "s_upstream_wifi_slot (main_round sample_platform sample_services verified_device) = UPSTREAM_WIFI_SLOT_CURRENT"
proof -
  have f: "attempt verified_device = (UPSTREAM_WIFI_SLOT_CANDIDATE, sample_config ''r1'' 3, 0)" "storage verified_device = staged_store 3"
      "s_status (dev_gateway verified_device) = WIFI_GATEWAY_STATUS_STA_GOT_IP" "mqtt_started verified_device"
    using trying_fields by (simp_all add: verified_device_def wifi_event_handler_def)
  have m: "app_mqtt_get_connection_state (dev_mqtt verified_device) = (True, 1)"
    by (simp add: verified_device_def app_mqtt_get_connection_state_def set_connection_state_def mqtt_boot_def)
  have a: "s_upstream_wifi_slot verified_device = UPSTREAM_WIFI_SLOT_CANDIDATE" "s_candidate_config verified_device = sample_config ''r1'' 3"
      "s_candidate_mqtt_generation verified_device = 0" using f(1) by (simp_all add: attempt_def)
  have "s_upstream_wifi_slot (promote_verified_candidate_if_ready sample_platform sample_services verified_device) = UPSTREAM_WIFI_SLOT_CURRENT"
    using sample_promote [of 3] by (simp add: promote_verified_candidate_if_ready_def wifi_gateway_get_status_def a f m sample_config_def Let_def)
  moreover obtain d1 where "d1 = verified_device" "attempt (main_round sample_platform sample_services verified_device) =
      attempt (promote_verified_candidate_if_ready sample_platform sample_services d1)"
    using round_normal [of map_view sample_platform verified_device sample_services] f(3,4) map_nvs_contract by auto
  ultimately show ?thesis by (simp add: attempt_def)
qed

lemma candidate_promoted_only_when_verified_witness:
  "active_version_of (map_view (nvs (storage (main_round sample_platform sample_services verified_device)))) = Some 3"
proof -
  have c: "nvs_contract map_view (nvs_lib sample_platform)" by (simp add: map_nvs_contract)
  have s: "s_upstream_wifi_slot rejected_device = UPSTREAM_WIFI_SLOT_CURRENT" by (simp add: rejected_device_def device_boot_def)
  have v: "attempt verified_device = (UPSTREAM_WIFI_SLOT_CANDIDATE, sample_config ''r1'' 3, 0)"
    using trying_fields(1) by (simp add: verified_device_def)
  then have "s_upstream_wifi_slot verified_device = UPSTREAM_WIFI_SLOT_CANDIDATE" "s_candidate_config verified_device = sample_config ''r1'' 3"
    by (simp_all add: attempt_def)
  then show ?thesis
    using candidate_promoted_only_when_verified [OF c verified_run s _ verified_promotion]
    by (auto simp: Let_def sample_config_def)
qed

end
