(* ===== verification/Boot_Runs.thy ===== *)
theory Boot_Runs
  imports App_Runs Portal_Runs
begin

text \<open>
  The start of the device and the ways it recovers: which mode it chooses, that the mode can be started, what it does when the upstream
  network is lost, and how credentials entered at the portal come into use.
\<close>

section \<open>Loading credentials\<close>

lemma loaded_valid:
  "app_storage_load_wifi_credentials api st = (Inr c, st') \<Longrightarrow> validate_wifi_credentials (Some c) = ESP_OK"
  by (auto simp: app_storage_load_wifi_credentials_def Let_def split: if_split_asm prod.splits sum.splits)

lemma load_error:
  assumes "nvs_contract view api" "app_storage_load_wifi_credentials api st = (Inl err, st')"
  shows "err \<noteq> ESP_OK"
  using assms(2) get_errors(1) [OF assms(1)]
  by (auto simp: app_storage_load_wifi_credentials_def read_credentials_def Let_def split: if_split_asm prod.splits sum.splits)

lemma gateway_credentials:
  assumes "validate_wifi_credentials (Some c) = ESP_OK" "length (c_str a) \<noteq> 0" "length (c_str p) = 0 \<or> 8 \<le> length (c_str p)"
  shows "validate_config (Some \<lparr>sta_enabled = True, sta_ssid = Some (ssid c), sta_password = Some (password c),
    ap_ssid = Some a, ap_password = Some p, ap_max_connection = n\<rparr>) = ESP_OK"
  using assms c_strnlen_le [of "ssid c" 33]
  by (auto simp: validate_wifi_credentials_def validate_config_def Let_def APP_STORAGE_WIFI_SSID_SIZE_def
      APP_STORAGE_WIFI_PASSWORD_SIZE_def split: if_split_asm)

text \<open>The settings the firmware is built with: two names, no password or one that WPA2 accepts.\<close>

definition secrets_ok :: "secrets \<Rightarrow> bool" where
  "secrets_ok s \<longleftrightarrow> c_str (AP_SSID s) \<noteq> [] \<and> c_str (PROVISION_AP_SSID s) \<noteq> [] \<and>
     (c_str (AP_PASSWORD s) = [] \<or> 8 \<le> length (c_str (AP_PASSWORD s))) \<and> 8 \<le> length (c_str (PROVISION_AP_PASSWORD s))"

definition normal_mode :: "('s, 'j) platform \<Rightarrow> wifi_credentials \<Rightarrow> 's device \<Rightarrow> bool" where
  "normal_mode pf c d \<longleftrightarrow>
     sta_enabled (dev_wifi_config d) \<and> sta_ssid (dev_wifi_config d) = Some (ssid c) \<and>
     sta_password (dev_wifi_config d) = Some (password c) \<and> ap_ssid (dev_wifi_config d) = Some (AP_SSID (secrets pf)) \<and>
     wifi_gateway_config.ap_password (dev_wifi_config d) = Some (AP_PASSWORD (secrets pf)) \<and>
     \<not> provisioning_mode (dev_portal_config d)"

definition provisioning :: "('s, 'j) platform \<Rightarrow> 's device \<Rightarrow> bool" where
  "provisioning pf d \<longleftrightarrow>
     \<not> sta_enabled (dev_wifi_config d) \<and> ap_ssid (dev_wifi_config d) = Some (PROVISION_AP_SSID (secrets pf)) \<and>
     wifi_gateway_config.ap_password (dev_wifi_config d) = Some (PROVISION_AP_PASSWORD (secrets pf)) \<and>
     provisioning_mode (dev_portal_config d)"

lemma mode_config_valid:
  assumes "secrets_ok (secrets pf)" "normal_mode pf c d \<and> validate_wifi_credentials (Some c) = ESP_OK \<or> provisioning pf d"
  shows "validate_config (Some (dev_wifi_config d)) = ESP_OK"
  using assms(2)
proof
  assume n: "normal_mode pf c d \<and> validate_wifi_credentials (Some c) = ESP_OK"
  then have d: "dev_wifi_config d = \<lparr>sta_enabled = True, sta_ssid = Some (ssid c), sta_password = Some (password c),
      ap_ssid = Some (AP_SSID (secrets pf)), ap_password = Some (AP_PASSWORD (secrets pf)),
      ap_max_connection = ap_max_connection (dev_wifi_config d)\<rparr>"
    by (cases "dev_wifi_config d") (simp add: normal_mode_def)
  show ?thesis
    by (subst d, rule gateway_credentials) (use n assms(1) in \<open>auto simp: secrets_ok_def\<close>)
next
  assume "provisioning pf d"
  then show ?thesis using assms(1) by (auto simp: provisioning_def validate_config_def secrets_ok_def)
qed

section \<open>Properties\<close>

text \<open>What the credentials in use consist of in NVS, and that nothing of them is left.\<close>

definition current_keys :: "string set" where
  "current_keys = {SSID_KEY, PASSWORD_KEY, ACTIVE_REQUEST_ID_KEY, ACTIVE_VERSION_KEY}"

definition no_current :: "nvs_view \<Rightarrow> bool" where
  "no_current v \<longleftrightarrow> (\<forall>k \<in> current_keys. v k = None)"

lemma clear_current:
  assumes "nvs_contract view api" "app_storage_clear_wifi_credentials api st = (err, st')"
  shows "err = ESP_OK \<and> fst (nvs_open api True (nvs st)) \<noteq> ESP_ERR_NVS_NOT_FOUND \<longrightarrow> no_current (view (nvs st'))"
    "\<forall>k. k \<notin> current_keys \<longrightarrow> view (nvs st') k = view (nvs st) k"
proof -
  show "err = ESP_OK \<and> fst (nvs_open api True (nvs st)) \<noteq> ESP_ERR_NVS_NOT_FOUND \<longrightarrow> no_current (view (nvs st'))"
    unfolding no_current_def current_keys_def
  proof (intro impI ballI)
    fix k
    assume e: "err = ESP_OK \<and> fst (nvs_open api True (nvs st)) \<noteq> ESP_ERR_NVS_NOT_FOUND"
      and k: "k \<in> {SSID_KEY, PASSWORD_KEY, ACTIVE_REQUEST_ID_KEY, ACTIVE_VERSION_KEY}"
    show "view (nvs st') k = None"
      by (rule clear_erases [OF assms(1) _ conjunct2 [OF e] k]) (use assms(2) conjunct1 [OF e] in simp)
  qed
  show "\<forall>k. k \<notin> current_keys \<longrightarrow> view (nvs st') k = view (nvs st) k"
    using clear_cases [OF assms] unfolding current_keys_def by blast
qed

text \<open>
  C10: the mode of the start. With the credentials that NVS holds the device starts as a gateway with exactly these credentials and the
  SoftAP for clients, also when it had given up on them before; without credentials it starts for provisioning with the protected SoftAP.
  When the stored credentials are invalid they are erased, and the device starts for provisioning exactly when the erasure succeeds; otherwise
  its error is returned. Any other error of NVS is returned and never taken for missing credentials. Every mode that is chosen has a configuration
  that the gateway accepts.
\<close>

theorem boot_mode:
  assumes "nvs_contract view (nvs_lib pf)" "secrets_ok (secrets pf)"
    and "app_storage_load_candidate_wifi_config (nvs_lib pf) (storage d) = (candidate, st)"
    and "prepare_wifi_gateway_config pf d = (err, d')"
  shows "(case app_storage_load_wifi_credentials (nvs_lib pf) st of
      (Inr c, st1) \<Rightarrow> err = ESP_OK \<and> normal_mode pf c d'
    | (Inl e, st1) \<Rightarrow>
        if e = ESP_ERR_NOT_FOUND then err = ESP_OK \<and> provisioning pf d'
        else if e = ESP_ERR_INVALID_ARG then
          (case app_storage_clear_wifi_credentials (nvs_lib pf) st1 of (clear_err, st2) \<Rightarrow>
             err = clear_err \<and> storage d' = st2 \<and> (clear_err = ESP_OK \<longrightarrow> provisioning pf d') \<and>
             (clear_err = ESP_OK \<and> fst (nvs_open (nvs_lib pf) True (nvs st1)) \<noteq> ESP_ERR_NVS_NOT_FOUND \<longrightarrow> no_current (view (nvs (storage d')))))
        else err = e \<and> err \<noteq> ESP_OK) \<and>
    (err = ESP_OK \<longrightarrow> validate_config (Some (dev_wifi_config d')) = ESP_OK)"
proof -
  obtain r st1 where l: "app_storage_load_wifi_credentials (nvs_lib pf) st = (r, st1)" by fastforce
  note p = assms(4) [unfolded prepare_wifi_gateway_config_def assms(3) prod.case l Let_def]
  show ?thesis
  proof (cases r)
    case (Inr c)
    have "err = ESP_OK" "normal_mode pf c d'"
      using p by (auto simp: Inr use_credentials_def select_normal_gateway_mode_def normal_mode_def Let_def split: prod.splits)
    then show ?thesis using mode_config_valid [OF assms(2)] loaded_valid [OF l [unfolded Inr]] by (auto simp: l Inr)
  next
    case (Inl e)
    have e: "e \<noteq> ESP_OK" by (rule load_error [OF assms(1) l [unfolded Inl]])
    have sel: "provisioning pf (select_provisioning_mode pf d)" "storage (select_provisioning_mode pf d) = storage d" for d :: "'a device"
      by (simp_all add: provisioning_def select_provisioning_mode_def)
    consider "e = ESP_ERR_NOT_FOUND" | "e = ESP_ERR_INVALID_ARG" | "e \<noteq> ESP_ERR_NOT_FOUND" "e \<noteq> ESP_ERR_INVALID_ARG" by blast
    then show ?thesis
    proof cases
      case 1
      then have "err = ESP_OK" "provisioning pf d'" using p sel by (auto simp: Inl)
      then show ?thesis using mode_config_valid [OF assms(2)] 1 by (auto simp: l Inl)
    next
      case 2
      obtain clear_err st2 where c: "app_storage_clear_wifi_credentials (nvs_lib pf) st1 = (clear_err, st2)" by fastforce
      have "err = clear_err" "storage d' = st2" "clear_err = ESP_OK \<longrightarrow> provisioning pf d'"
        using p sel by (auto simp: Inl 2 c split: if_split_asm)
      then show ?thesis using mode_config_valid [OF assms(2)] clear_current(1) [OF assms(1) c] 2 by (auto simp: l Inl c)
    next
      case 3
      then show ?thesis using p e by (auto simp: l Inl)
    qed
  qed
qed

text \<open>
  C11: credentials entered at the portal are used at the next start. If a client enters valid credentials in the form, the
  browser encodes them in any way, the request arrives in any pieces, and NVS stores them, then the handler confirms and restarts the device, and from the contents of
  NVS that it leaves the next start chooses the gateway mode with exactly the entered name and password.
\<close>

theorem entered_credentials_used_at_next_start:
  assumes "literal_ok literal" "entered i p" "query_contract http" "nvs_contract view (nvs_lib pf)"
    and "provisioning_mode config" "provision_handler config = Some (\<lambda>i p. handle_wifi_provisioning pf (Some i) (Some p))"
    and "\<forall>(k, d) \<in> set pieces. k < 3 \<and> d \<noteq> []" "concat (map snd pieces) = form_body literal i p"
    and "content_len request = length (form_body literal i p)" "req_recv request = arrives pieces"
    and "handle_wifi_provisioning pf (Some i) (Some p) st = (ESP_OK, st1)"
    and "httpd_resp_send http (Response (html_response [] Saved_html)) = ESP_OK" "\<And>w s. fst (nvs_open (nvs_lib pf) w s) = ESP_OK"
  shows "(\<exists>r. provision_post_handler http config request st = Some (r, st1) \<and> post_restart r) \<and>
    (\<forall>d. view (nvs (storage d)) = view (nvs st1) \<longrightarrow>
      (\<exists>d'. prepare_wifi_gateway_config pf d = (ESP_OK, d') \<and> normal_mode pf \<lparr>ssid = i, password = p\<rparr> d'))"
proof (intro conjI allI impI)
  show "\<exists>r. provision_post_handler http config request st = Some (r, st1) \<and> post_restart r"
    using post_delivers [OF assms(1-3,5-10) assms(11,12)] by auto
  let ?w = "\<lparr>ssid = i, password = p\<rparr>"
  have plain: "c_str i = i" "c_str p = p" using assms(2) by (simp_all add: entered_def c_str_noNUL)
  have "app_storage_save_wifi_credentials (nvs_lib pf) (Some ?w) st = (ESP_OK, st1)"
    using assms(11) by (simp add: handle_wifi_provisioning_def plain split: if_split_asm)
  with assms(4) have saved: "validate_wifi_credentials (Some ?w) = ESP_OK" "view (nvs st1) = upd (save_updates ?w) (view (nvs st))"
    by (cases rule: save_cases; simp)+
  fix d :: "'a device"
  assume v: "view (nvs (storage d)) = view (nvs st1)"
  obtain candidate st2 where c: "app_storage_load_candidate_wifi_config (nvs_lib pf) (storage d) = (candidate, st2)" by fastforce
  have v2: "view (nvs st2) = upd (save_updates ?w) (view (nvs st))" using load_candidate_view [OF assms(4) c] v saved(2) by simp
  obtain s where o: "nvs_open (nvs_lib pf) False (nvs st2) = (ESP_OK, s)" using assms(13) by (metis prod.collapse)
  have "fst (app_storage_load_wifi_credentials (nvs_lib pf) st2) = Inr ?w"
    using load_current [OF assms(4) saved(1) _ _ o]
    by (simp add: plain v2 save_updates_def credential_updates_def storage_keys)
  then obtain st3 where l: "app_storage_load_wifi_credentials (nvs_lib pf) st2 = (Inr ?w, st3)" by (metis prod.collapse)
  show "\<exists>d'. prepare_wifi_gateway_config pf d = (ESP_OK, d') \<and> normal_mode pf ?w d'"
    by (simp add: prepare_wifi_gateway_config_def c l Let_def use_credentials_def select_normal_gateway_mode_def normal_mode_def
        split: prod.split)
qed

text \<open>The retained recovery: the form is served, the device does not restart, and every credential, current or candidate, is kept.\<close>

definition retained_recovery :: "('s \<Rightarrow> nvs_view) \<Rightarrow> 's device \<Rightarrow> 's device \<Rightarrow> bool" where
  "retained_recovery view d d' \<longleftrightarrow>
     s_status (dev_gateway d') = WIFI_GATEWAY_STATUS_PROVISIONING \<and> provisioning_mode (s_config (dev_portal d')) \<and>
     restarting d' = restarting d \<and>
     (\<forall>k. k \<notin> {RECOVERY_TRIGGERED_KEY, RECOVERY_RETRY_KEY} \<longrightarrow> view (nvs (storage d')) k = view (nvs (storage d)) k)"

lemma enter_retained:
  assumes "nvs_contract view (nvs_lib pf)" "view (nvs (storage x)) = view (nvs (storage d))" "restarting x = restarting d"
  shows "retained_recovery view d (enter_retained_wifi_recovery pf x)"
  using assms(2,3) by (simp add: retained_recovery_def enter_retained_wifi_recovery_def Let_def wifi_gateway_set_status_def
      captive_portal_set_provisioning_mode_def marks_keep [OF assms(1)])

text \<open>
  C12: recovery makes progress and erases nothing it may not erase. A round of the main loop that finds the upstream network lost
  does one of three things, each in exactly one situation. With the current credentials in use and a stored candidate that the driver accepts, the station
  connects with that candidate and nothing in NVS changes. With the current credentials rejected and the attempt answered with "not found", as
  without a candidate, the current credentials and their metadata are erased, everything else is kept, and the device restarts exactly when the erasure
  succeeded; otherwise the next round tries again. In every other situation the device serves the form and keeps every credential.
\<close>

theorem recovery_makes_progress:
  assumes "nvs_contract view (nvs_lib pf)"
    and "s_status (dev_gateway d) = WIFI_GATEWAY_STATUS_STA_RECOVERY_REQUIRED \<or> s_status (dev_gateway d) = WIFI_GATEWAY_STATUS_STA_UNREACHABLE"
    and "d' = main_round pf env d"
  shows "case start_candidate_wifi_attempt pf env d of (attempt_err, d1) \<Rightarrow>
    if s_upstream_wifi_slot d = UPSTREAM_WIFI_SLOT_CURRENT \<and> attempt_err = ESP_OK
    then s_upstream_wifi_slot d' = UPSTREAM_WIFI_SLOT_CANDIDATE \<and> s_status (dev_gateway d') = WIFI_GATEWAY_STATUS_STA_CONNECTING \<and>
      fst (app_storage_load_candidate_wifi_config (nvs_lib pf) (storage d)) = Inr (s_candidate_config d') \<and>
      asks_for (s_candidate_config d') d d' \<and> restarting d' = restarting d \<and> view (nvs (storage d')) = view (nvs (storage d))
    else if s_upstream_wifi_slot d = UPSTREAM_WIFI_SLOT_CURRENT \<and> s_status (dev_gateway d) = WIFI_GATEWAY_STATUS_STA_RECOVERY_REQUIRED \<and>
      attempt_err = ESP_ERR_NOT_FOUND
    then (case app_storage_clear_wifi_credentials (nvs_lib pf) (storage d1) of (clear_err, st) \<Rightarrow>
      (restarting d' \<longleftrightarrow> restarting d \<or> clear_err = ESP_OK) \<and> s_status (dev_gateway d') = s_status (dev_gateway d1) \<and>
      (clear_err = ESP_OK \<and> fst (nvs_open (nvs_lib pf) True (nvs (storage d1))) \<noteq> ESP_ERR_NVS_NOT_FOUND \<longrightarrow>
        no_current (view (nvs (storage d')))) \<and>
      (\<forall>k. k \<notin> current_keys \<longrightarrow> view (nvs (storage d')) k = view (nvs (storage d)) k))
    else retained_recovery view d d'"
proof -
  have round: "d' = (if s_status (dev_gateway d) = WIFI_GATEWAY_STATUS_STA_RECOVERY_REQUIRED
      then handle_upstream_wifi_recovery pf env d else handle_upstream_wifi_unreachable pf env d)"
    using assms(2,3) by (auto simp: main_round_def wifi_gateway_get_status_def)
  show ?thesis
  proof (cases "s_upstream_wifi_slot d")
    case UPSTREAM_WIFI_SLOT_CANDIDATE
    then have "d' = enter_retained_wifi_recovery pf d"
      by (simp add: round handle_upstream_wifi_recovery_def handle_upstream_wifi_unreachable_def)
    then show ?thesis using enter_retained [OF assms(1) refl refl] UPSTREAM_WIFI_SLOT_CANDIDATE by (simp split: prod.split)
  next
    case UPSTREAM_WIFI_SLOT_CURRENT
    from assms(1) show ?thesis
    proof (cases rule: start_attempt_cases [of view pf env d])
      case (started c d1)
      then have "d' = d1"
        using UPSTREAM_WIFI_SLOT_CURRENT by (simp add: round handle_upstream_wifi_recovery_def handle_upstream_wifi_unreachable_def)
      then show ?thesis using started UPSTREAM_WIFI_SLOT_CURRENT by (simp add: attempt_def)
    next
      case (failed err d1)
      show ?thesis
      proof (cases "s_status (dev_gateway d) = WIFI_GATEWAY_STATUS_STA_RECOVERY_REQUIRED \<and> err = ESP_ERR_NOT_FOUND")
        case True
        obtain e st where c: "app_storage_clear_wifi_credentials (nvs_lib pf) (storage d1) = (e, st)" by fastforce
        show ?thesis
          using True failed(1,5,7) c UPSTREAM_WIFI_SLOT_CURRENT clear_current [OF assms(1) c]
          by (simp add: round handle_upstream_wifi_recovery_def)
      next
        case False
        then have "d' = enter_retained_wifi_recovery pf d1"
          using failed(1,2) UPSTREAM_WIFI_SLOT_CURRENT
          by (auto simp: round handle_upstream_wifi_recovery_def handle_upstream_wifi_unreachable_def)
        then show ?thesis using enter_retained [OF assms(1) failed(7,5)] failed(1,2) False by auto
      qed
    qed
  qed
qed

section \<open>Witnesses\<close>

text \<open>A reader of query strings that satisfies \<open>query_contract\<close>: fields are separated by \<open>&\<close>, the name ends at the first \<open>=\<close>.\<close>

function read_query :: "string \<Rightarrow> string \<Rightarrow> string option" where
  "read_query s k =
     (let field = takeWhile (\<lambda>c. c \<noteq> CHR ''&'') s; rest = dropWhile (\<lambda>c. c \<noteq> CHR ''&'') s in
      if takeWhile (\<lambda>c. c \<noteq> CHR ''='') field = k then Some (drop (length k + 1) field)
      else if rest = [] then None else read_query (tl rest) k)"
  by pat_completeness auto
termination
proof (relation "measure (\<lambda>(s, k). length s)")
  show "((tl rest, k), s, k) \<in> measure (\<lambda>(s, k). length s)"
    if "rest = dropWhile (\<lambda>c. c \<noteq> CHR ''&'') s" "rest \<noteq> []" for field rest s and k :: string
  proof -
    have "0 < length rest" "length rest \<le> length s" using that length_dropWhile_le by auto
    then have "length rest - 1 < length s" by linarith
    then show ?thesis by simp
  qed
qed simp

declare read_query.simps [simp del]

lemma read_one_field:
  assumes "set (k @ v) \<inter> {CHR ''&'', CHR ''='', NUL} = {}"
  shows "read_query (k @ CHR ''='' # v) j = (if k = j then Some v else None)"
    "read_query (k @ CHR ''='' # v @ CHR ''&'' # rest) j = (if k = j then Some v else read_query rest j)"
proof -
  have f: "\<forall>c \<in> set k. c \<noteq> CHR ''&''" "\<forall>c \<in> set v. c \<noteq> CHR ''&''" "\<forall>c \<in> set k. c \<noteq> CHR ''=''" using assms by auto
  have t: "takeWhile (\<lambda>c. c \<noteq> CHR ''&'') v = v" "dropWhile (\<lambda>c. c \<noteq> CHR ''&'') v = []" using f(2) by auto
  show "read_query (k @ CHR ''='' # v) j = (if k = j then Some v else None)"
    by (subst read_query.simps) (use f t in \<open>simp add: takeWhile_append2 dropWhile_append2 Let_def\<close>)
  show "read_query (k @ CHR ''='' # v @ CHR ''&'' # rest) j = (if k = j then Some v else read_query rest j)"
    by (subst read_query.simps) (use f in \<open>simp add: takeWhile_append2 dropWhile_append2 Let_def\<close>)
qed

lemma read_query_field:
  "query_fields_ok fs \<Longrightarrow> (k, v) \<in> set fs \<Longrightarrow> read_query (render_query fs) k = Some v"
proof (induction fs rule: render_query.induct)
  case (2 k' v')
  then show ?case by (simp add: query_fields_ok_def read_one_field(1))
next
  case (3 k' v' f fs)
  have ok: "set (k' @ v') \<inter> {CHR ''&'', CHR ''='', NUL} = {}" "query_fields_ok (f # fs)"
    using 3(2) by (auto simp: query_fields_ok_def)
  have "k' \<noteq> k \<and> (k, v) \<in> set (f # fs) \<or> (k', v') = (k, v)" using 3(2,3) by (force simp: query_fields_ok_def)
  then show ?case using 3(1) [OF ok(2)] read_one_field(2) [OF ok(1)] by auto
qed simp

definition reading_http :: http_api where
  "reading_http = silent_http\<lparr>httpd_query_key_value := (\<lambda>s k n.
     case read_query s k of None \<Rightarrow> Inl ESP_ERR_NOT_FOUND | Some v \<Rightarrow> if length v < n then Inr v else Inl ESP_ERR_INVALID_SIZE)\<rparr>"

lemma reading_http_contract: "query_contract reading_http"
  by (auto simp: query_contract_def reading_http_def read_query_field)

lemma sample_secrets_ok: "secrets_ok (secrets sample_platform)"
  by (simp add: secrets_ok_def sample_platform_def sample_secrets_def c_str_def NUL_char)

definition empty_device :: "nvs_view device" where
  "empty_device = (device_boot sample_platform 1 Map.empty)\<lparr>storage := empty_store\<rparr>"

lemma boot_mode_witness:
  "\<exists>d'. prepare_wifi_gateway_config sample_platform empty_device = (ESP_OK, d') \<and> provisioning sample_platform d'"
proof -
  have l: "app_storage_load_candidate_wifi_config (nvs_lib sample_platform) (storage empty_device) = (Inl ESP_ERR_NOT_FOUND, empty_store)"
    by (simp add: empty_device_def app_storage_load_candidate_wifi_config_def lock_map_nvs empty_store_def sample_empty Let_def)
  have c: "\<exists>st1. app_storage_load_wifi_credentials (nvs_lib sample_platform) empty_store = (Inl ESP_ERR_NOT_FOUND, st1)"
    by (simp add: app_storage_load_wifi_credentials_def read_credentials_def map_nvs_def empty_store_def map_view_def
        lock_wifi_config_def Let_def)
  obtain err d' where p: "prepare_wifi_gateway_config sample_platform empty_device = (err, d')" by fastforce
  from boot_mode [OF _ sample_secrets_ok l p, of map_view] map_nvs_contract c show ?thesis by (auto simp: p)
qed

definition entered_store :: "nvs_view app_storage" where
  "entered_store = snd (handle_wifi_provisioning sample_platform (Some ''office'') (Some ''secret-password'') empty_store)"

definition plain_char :: "char \<Rightarrow> bool" where
  "plain_char c \<longleftrightarrow> 65 \<le> char_code c"

lemma entered_credentials_used_at_next_start_witness:
  "\<exists>d'. prepare_wifi_gateway_config sample_platform (empty_device\<lparr>storage := entered_store\<rparr>) = (ESP_OK, d') \<and>
    normal_mode sample_platform \<lparr>ssid = ''office'', password = ''secret-password''\<rparr> d'"
proof -
  let ?i = "''office''" and ?p = "''secret-password''"
  let ?body = "form_body plain_char ?i ?p"
  let ?config = "\<lparr>provisioning_mode = True, external_portal_url = None, device_code = None, external_portal_domain = None,
    external_portal_ipv4 = None, provision_handler = Some (\<lambda>i p. handle_wifi_provisioning sample_platform (Some i) (Some p))\<rparr>"
  let ?request = "\<lparr>req_sockfd = 5, req_peer = Peer_ipv4 9, content_len = length ?body, req_recv = arrives [(2, ?body)]\<rparr>"
  have lit: "literal_ok plain_char" by (simp add: literal_ok_def plain_char_def char_code_def NUL_char)
  have ent: "entered ?i ?p" by (simp add: entered_def NUL_char)
  have v: "validate_wifi_credentials (Some \<lparr>ssid = ?i, password = ?p\<rparr>) = ESP_OK"
    using sample_valid [of 1] by (simp add: validate_wifi_config_def sample_config_def Let_def split: if_split_asm)
  have saved: "handle_wifi_provisioning (sample_platform :: (nvs_view, unit) platform) (Some ?i) (Some ?p) empty_store =
      (ESP_OK, entered_store)"
  proof -
    have "fst (handle_wifi_provisioning (sample_platform :: (nvs_view, unit) platform) (Some ?i) (Some ?p) empty_store) = ESP_OK"
      using v by (simp add: handle_wifi_provisioning_def APP_STORAGE_WIFI_SSID_SIZE_def APP_STORAGE_WIFI_PASSWORD_SIZE_def
          sample_c_str app_storage_save_wifi_credentials_def lock_map_nvs empty_store_def save_writes_def
          erase_candidate_from_handle_def if_ok_def erase_map_nvs Let_def)
    then show ?thesis by (simp add: entered_store_def prod_eq_iff)
  qed
  have body: "?body \<noteq> []" using form_body_fits(1) [OF ent] by simp
  have "\<forall>d. map_view (nvs (storage d)) = map_view (nvs entered_store) \<longrightarrow>
      (\<exists>d'. prepare_wifi_gateway_config sample_platform d = (ESP_OK, d') \<and> normal_mode sample_platform \<lparr>ssid = ?i, password = ?p\<rparr> d')"
    by (rule conjunct2 [OF entered_credentials_used_at_next_start [OF lit ent reading_http_contract, where config = ?config
        and request = ?request and pieces = "[(2, ?body)]" and st = empty_store]])
      (use saved body map_nvs_contract in \<open>simp_all add: reading_http_def silent_http_def\<close>)
  then show ?thesis by (rule allE [where x = "empty_device\<lparr>storage := entered_store\<rparr>"]) simp
qed

lemma recovery_makes_progress_witness:
  "s_candidate_config (main_round sample_platform sample_services rejected_device) = sample_config ''r1'' 3 \<and>
   map_view (nvs (storage (main_round sample_platform sample_services rejected_device))) = map_view (nvs (storage rejected_device))"
proof -
  obtain gw where gw: "wifi_gateway_connect_sta sample_driver [] (Some ''office'') (Some ''secret-password'')
     (gateway_boot\<lparr>s_status := WIFI_GATEWAY_STATUS_STA_RECOVERY_REQUIRED\<rparr>) = (ESP_OK, gw)" using sample_switch by blast
  have "fst (start_candidate_wifi_attempt sample_platform sample_services rejected_device) = ESP_OK"
    by (simp add: start_candidate_wifi_attempt_def rejected_device_def sample_load sample_config_def gw Let_def)
  then obtain d1 where a: "start_candidate_wifi_attempt sample_platform sample_services rejected_device = (ESP_OK, d1)"
    by (metis prod.collapse)
  have "nvs_contract map_view (nvs_lib sample_platform)" by (simp add: map_nvs_contract)
  moreover have "s_status (dev_gateway rejected_device) = WIFI_GATEWAY_STATUS_STA_RECOVERY_REQUIRED"
      "s_upstream_wifi_slot rejected_device = UPSTREAM_WIFI_SLOT_CURRENT"
      "storage rejected_device = staged_store 3" by (simp_all add: rejected_device_def device_boot_def)
  ultimately show ?thesis
    using recovery_makes_progress [of map_view sample_platform rejected_device _ sample_services, OF _ _ refl]
    by (auto simp: a sample_load)
qed

end
