(* ===== verification/Command_Runs.thy ===== *)
theory Command_Runs
  imports App_Runs
begin

text \<open>
  The commands from the message to their effect: every command is answered with the result of its operation, a configuration
  that is staged over MQTT is what the device later tries, and what the retained recovery leaves open.
\<close>

section \<open>The result of a command\<close>

text \<open>Whether the operation of a parsed command succeeds.\<close>

definition operation_ok :: "('s, 'j) platform \<Rightarrow> services \<Rightarrow> app_command_request \<Rightarrow> 's device \<Rightarrow> bool" where
  "operation_ok pf env request d \<longleftrightarrow>
     (case req_type request of
        APP_COMMAND_TYPE_PING \<Rightarrow> True
      | APP_COMMAND_TYPE_KICK \<Rightarrow> True
      | APP_COMMAND_TYPE_GET_STATUS \<Rightarrow> fst (publish_device_status pf env d) = ESP_OK
      | APP_COMMAND_TYPE_DISCONNECT_MAC \<Rightarrow>
          fst (wifi_gateway_disconnect_client (wifi env) (Some (c_str (req_mac request))) (dev_gateway d)) = ESP_OK
      | APP_COMMAND_TYPE_ALLOW \<Rightarrow>
          fst (client_access_authorize (pdMS_TO_TICKS pf) (now env) (Some (c_str (req_mac request))) (req_session_id request)
            (word_of_int (req_ttl_seconds request)) (dev_clients d)) = ESP_OK
      | APP_COMMAND_TYPE_REVOKE_ACCESS \<Rightarrow>
          fst (client_access_revoke_authorization (Some (c_str (req_mac request))) (req_session_id request) (dev_clients d)) = ESP_OK
      | APP_COMMAND_TYPE_BLOCK_TRAFFIC \<Rightarrow>
          fst (access_filter_block_traffic (lwip pf) (Some (c_str (req_dst_ip request))) (Some (c_str (req_sni request)))
            (dev_rules d)) = ESP_OK
      | APP_COMMAND_TYPE_STAGE_WIFI_CONFIG \<Rightarrow>
          c_str (req_device_code request) = DEVICE_CODE (secrets pf) \<and>
          fst (app_storage_stage_candidate_wifi_config (nvs_lib pf) (Some (staged_config request)) (storage d)) \<in>
            {(ESP_OK, APP_STORAGE_WIFI_STAGE_STORED), (ESP_OK, APP_STORAGE_WIFI_STAGE_IDEMPOTENT)}
      | APP_COMMAND_TYPE_UNKNOWN \<Rightarrow> False)"

definition printable :: "string \<Rightarrow> bool" where
  "printable s \<longleftrightarrow> list_all (\<lambda>c. 32 \<le> char_code c \<and> char_code c < 127 \<and> c \<noteq> CHR 0x22 \<and> c \<noteq> CHR 0x5C) s"

text \<open>A result whose texts fit the arrays of the firmware; \<open>results_print\<close>: cJSON prints each of them into the buffer.\<close>

definition result_fits :: "app_command_result \<Rightarrow> bool" where
  "result_fits r \<longleftrightarrow> length (result_request_id r) < APP_COMMAND_REQUEST_ID_SIZE \<and>
     length (result_message r) < APP_COMMAND_MESSAGE_SIZE \<and> printable (result_message r)"

definition results_print :: "('s, 'j) platform \<Rightarrow> bool" where
  "results_print pf \<longleftrightarrow> (\<forall>r. result_fits r \<longrightarrow> (\<exists>json. print_object (json_out pf) (result_fields pf r) RESULT_JSON_SIZE = Inr json))"

definition connected_services :: "services \<Rightarrow> 's device \<Rightarrow> bool" where
  "connected_services env d \<longleftrightarrow> s_client (dev_mqtt d) \<and> s_connected (dev_mqtt d) \<and> (\<forall>t p. 0 \<le> msg_id env t p)"

lemma publish_connected:
  assumes "connected_services env d" "topic \<noteq> []"
  shows "publish env topic json d = (ESP_OK, d\<lparr>published := (topic, json) # published d\<rparr>)"
  using assms by (simp add: publish_def app_mqtt_publish_def app_mqtt_get_connection_state_def connected_services_def not_less Let_def)

lemma topics_not_empty: "DEVICE_COMMAND_RESULT_TOPIC pf \<noteq> []" "DEVICE_STATUS_TOPIC pf \<noteq> []"
  by (simp_all add: DEVICE_COMMAND_RESULT_TOPIC_def DEVICE_STATUS_TOPIC_def device_topic_def)

lemma fit_message_length: "length (fit_message s) < APP_COMMAND_MESSAGE_SIZE"
  by (simp add: fit_message_def APP_COMMAND_MESSAGE_SIZE_def)

lemma printable_fit: "printable s \<Longrightarrow> printable (fit_message s)"
  by (auto simp: printable_def fit_message_def list_all_iff dest: in_set_takeD)

lemma printable_append [simp]: "printable (s @ t) \<longleftrightarrow> printable s \<and> printable t"
  by (simp add: printable_def)

lemma outcome_fits:
  assumes "printable (esp_err_to_name pf err)" "printable done" "printable failed" "outcome pf done failed err = (ok, message)"
  shows "length message < APP_COMMAND_MESSAGE_SIZE \<and> printable message \<and> ok = (err = ESP_OK)"
  using assms fit_message_length printable_fit by (auto simp: outcome_def split: if_split_asm)

text \<open>A status message that is published goes to the topic of the status.\<close>

lemma status_published:
  "published (snd (publish_device_status pf env d)) = published d \<or>
   (\<exists>json. published (snd (publish_device_status pf env d)) = (DEVICE_STATUS_TOPIC pf, json) # published d)"
  by (auto simp: publish_device_status_def publish_def Let_def split: prod.split sum.split)

text \<open>What an operation reports: a message that fits, and success exactly when it succeeded; only GET\_STATUS publishes.\<close>

definition operation_reports ::
  "('s, 'j) platform \<Rightarrow> services \<Rightarrow> app_command_request \<Rightarrow> 's device \<Rightarrow> bool \<times> string \<Rightarrow> 's device \<Rightarrow> bool" where
  "operation_reports pf env request d r d' \<longleftrightarrow>
     length (snd r) < APP_COMMAND_MESSAGE_SIZE \<and> printable (snd r) \<and> fst r = operation_ok pf env request d \<and>
     dev_mqtt d' = dev_mqtt d \<and> restarting d' = restarting d \<and>
     (\<exists>status. length status \<le> 1 \<and> fst ` set status \<subseteq> {DEVICE_STATUS_TOPIC pf} \<and> published d' = status @ published d \<and>
        (status \<noteq> [] \<longrightarrow> req_type request = APP_COMMAND_TYPE_GET_STATUS))"

lemma message_texts:
  "printable ''pong''" "printable ''device status published''" "printable ''status publish failed: ''"
  "printable ''client disconnect requested''" "printable ''disconnect client failed: ''"
  "printable ''client access state authorized''" "printable ''authorize client failed: ''"
  "printable ''client authorization revoked''" "printable ''revoke client authorization failed: ''"
  "printable ''IPv4 and hostname traffic block installed''" "printable ''IPv4 traffic block installed''"
  "printable ''block destination failed: ''" "printable ''device code mismatch''"
  "printable ''WiFi configuration storage failed''" "printable ''stale WiFi configuration version''"
  "printable ''WiFi configuration version conflict''" "printable ''candidate WiFi credentials stored''"
  "printable ''command parse failed: ''" "printable ''device restarting''"
  by (simp_all add: printable_def char_code_def)

lemma stage_outcome_texts:
  "length (snd (stage_outcome e r)) < APP_COMMAND_MESSAGE_SIZE \<and> printable (snd (stage_outcome e r)) \<and>
   fst (stage_outcome e r) = ((e, r) \<in> {(ESP_OK, APP_STORAGE_WIFI_STAGE_STORED), (ESP_OK, APP_STORAGE_WIFI_STAGE_IDEMPOTENT)})"
  by (cases r) (simp_all add: stage_outcome_def message_texts APP_COMMAND_MESSAGE_SIZE_def)

lemma execute_reports:
  assumes "\<And>e. printable (esp_err_to_name pf e)" "req_type request \<notin> {APP_COMMAND_TYPE_UNKNOWN, APP_COMMAND_TYPE_KICK}"
  obtains r d' where "execute_command pf env (req_type request) request d = Some (r, d')" "operation_reports pf env request d r d'"
proof -
  note reports = that
  have plain: thesis
    if "execute_command pf env (req_type request) request d = Some (outcome pf good bad err, d')" "printable good" "printable bad"
      "operation_ok pf env request d = (err = ESP_OK)" "dev_mqtt d' = dev_mqtt d" "restarting d' = restarting d"
      "published d' = status @ published d" "length status \<le> 1" "fst ` set status \<subseteq> {DEVICE_STATUS_TOPIC pf}"
      "status \<noteq> [] \<longrightarrow> req_type request = APP_COMMAND_TYPE_GET_STATUS" for good bad err d' status
  proof -
    obtain ok message where o: "outcome pf good bad err = (ok, message)" by fastforce
    have "operation_reports pf env request d (ok, message) d'"
      unfolding operation_reports_def using that outcome_fits [OF assms(1) that(2,3) o] by auto
    with that(1) show thesis unfolding o by (rule reports)
  qed
  show ?thesis
  proof (cases "req_type request")
    case APP_COMMAND_TYPE_PING
    then show ?thesis
      by (intro reports [of "(True, ''pong'')" d])
        (simp_all add: operation_reports_def operation_ok_def message_texts APP_COMMAND_MESSAGE_SIZE_def)
  next
    case APP_COMMAND_TYPE_GET_STATUS
    obtain err d1 where p: "publish_device_status pf env d = (err, d1)" by fastforce
    obtain status where "published d1 = status @ published d" "length status \<le> 1" "fst ` set status \<subseteq> {DEVICE_STATUS_TOPIC pf}"
      using status_published [of pf env d]
      by (elim disjE exE) (auto simp: p intro: that [of "[]"] that [of "[(a, b)]" for a b])
    then show ?thesis
      using p APP_COMMAND_TYPE_GET_STATUS status_frame [of pf env d]
      by (auto simp: operation_ok_def message_texts intro: plain [where status = status])
  next
    case APP_COMMAND_TYPE_DISCONNECT_MAC
    then show ?thesis
      by (cases "wifi_gateway_disconnect_client (wifi env) (Some (c_str (req_mac request))) (dev_gateway d)")
        (auto simp: operation_ok_def message_texts intro: plain [where status = "[]"])
  next
    case APP_COMMAND_TYPE_ALLOW
    then show ?thesis
      by (cases "client_access_authorize (pdMS_TO_TICKS pf) (now env) (Some (c_str (req_mac request))) (req_session_id request)
          (word_of_int (req_ttl_seconds request)) (dev_clients d)")
        (auto simp: operation_ok_def message_texts intro: plain [where status = "[]"])
  next
    case APP_COMMAND_TYPE_REVOKE_ACCESS
    then show ?thesis
      by (cases "client_access_revoke_authorization (Some (c_str (req_mac request))) (req_session_id request) (dev_clients d)")
        (auto simp: operation_ok_def message_texts intro: plain [where status = "[]"])
  next
    case APP_COMMAND_TYPE_BLOCK_TRAFFIC
    then show ?thesis
      by (cases "access_filter_block_traffic (lwip pf) (Some (c_str (req_dst_ip request))) (Some (c_str (req_sni request))) (dev_rules d)";
          cases "c_str (req_sni request) = []")
        (auto simp: operation_ok_def message_texts intro: plain [where status = "[]"])
  next
    case APP_COMMAND_TYPE_STAGE_WIFI_CONFIG
    show ?thesis
    proof (cases "c_str (req_device_code request) = DEVICE_CODE (secrets pf)")
      case True
      obtain e r st where p: "app_storage_stage_candidate_wifi_config (nvs_lib pf) (Some (staged_config request)) (storage d) = ((e, r), st)"
        by (metis prod.exhaust)
      show ?thesis
        using p APP_COMMAND_TYPE_STAGE_WIFI_CONFIG True stage_outcome_texts [of e r]
        by (intro reports [of "stage_outcome e r" "d\<lparr>storage := st\<rparr>"]) (auto simp: operation_reports_def operation_ok_def)
    next
      case False
      then show ?thesis
        using APP_COMMAND_TYPE_STAGE_WIFI_CONFIG
        by (intro reports [of "(False, ''device code mismatch'')" d]) (auto simp: operation_reports_def operation_ok_def message_texts APP_COMMAND_MESSAGE_SIZE_def)
    qed
  qed (use assms(2) in simp_all)
qed

section \<open>Properties\<close>

text \<open>
  C6: every command is answered. Whatever arrives on the topic of the commands while MQTT is connected, parsed or not, exactly
  one result is published, after at most one status message, with the request id and the type that were read from it, and it reports success
  exactly when the command was parsed and its operation succeeded. The device restarts exactly for a KICK, after the result was accepted.
\<close>

theorem every_command_answered:
  assumes "connected_services env d" "results_print pf" "\<And>e. printable (esp_err_to_name pf e)"
    and "app_command_parse (cjson pf) (Some topic) (Some payload) empty_request = (err, request)"
    and "d' = handle_mqtt_command pf env topic payload d"
  shows "\<exists>result json status. print_object (json_out pf) (result_fields pf result) RESULT_JSON_SIZE = Inr json \<and>
    published d' = (DEVICE_COMMAND_RESULT_TOPIC pf, json) # status @ published d \<and>
    length status \<le> 1 \<and> fst ` set status \<subseteq> {DEVICE_STATUS_TOPIC pf} \<and>
    result_request_id result = take 63 (c_str (req_request_id request)) \<and> result_type result = req_type request \<and>
    (result_success result \<longleftrightarrow> err = ESP_OK \<and> operation_ok pf env request d) \<and>
    (restarting d' \<longleftrightarrow> restarting d \<or> err = ESP_OK \<and> req_type request = APP_COMMAND_TYPE_KICK)"
proof -
  let ?id = "take (APP_COMMAND_REQUEST_ID_SIZE - 1) (c_str (req_request_id request))"
  let ?result = "\<lambda>ok message. \<lparr>result_request_id = ?id, result_type = req_type request, result_success = ok, result_message = message\<rparr>"
  have answer: "\<exists>json. print_object (json_out pf) (result_fields pf (?result ok message)) RESULT_JSON_SIZE = Inr json \<and>
      snd (publish_command_result pf env (?result ok message) d1) =
        d1\<lparr>published := (DEVICE_COMMAND_RESULT_TOPIC pf, json) # published d1\<rparr>"
    if "dev_mqtt d1 = dev_mqtt d" "length message < APP_COMMAND_MESSAGE_SIZE" "printable message" for ok message d1
  proof -
    have "result_fits (?result ok message)" using that(2,3) by (simp add: result_fits_def APP_COMMAND_REQUEST_ID_SIZE_def)
    moreover have "connected_services env d1" using assms(1) that(1) by (simp add: connected_services_def)
    moreover obtain json where "print_object (json_out pf) (result_fields pf (?result ok message)) RESULT_JSON_SIZE = Inr json"
      using assms(2) calculation(1) unfolding results_print_def by blast
    ultimately show ?thesis by (simp add: publish_command_result_def publish_connected topics_not_empty)
  qed
  show ?thesis
  proof (cases "err = ESP_OK \<and> req_type request \<noteq> APP_COMMAND_TYPE_KICK")
    case True
    then have "request_bounds request" using parsed_request_bounds assms(4) by blast
    then have "req_type request \<notin> {APP_COMMAND_TYPE_UNKNOWN, APP_COMMAND_TYPE_KICK}" using True by (auto simp: request_bounds_def)
    from execute_reports [OF assms(3) this, of env d] obtain ok message d1 where
      x: "execute_command pf env (req_type request) request d = Some ((ok, message), d1)" "operation_reports pf env request d (ok, message) d1"
      by (metis prod.collapse)
    then obtain json where j: "print_object (json_out pf) (result_fields pf (?result ok message)) RESULT_JSON_SIZE = Inr json"
      "snd (publish_command_result pf env (?result ok message) d1) = d1\<lparr>published := (DEVICE_COMMAND_RESULT_TOPIC pf, json) # published d1\<rparr>"
      using answer [of d1 message ok] by (auto simp: operation_reports_def)
    have "d' = d1\<lparr>published := (DEVICE_COMMAND_RESULT_TOPIC pf, json) # published d1\<rparr>"
      using True x(1) j(2) by (simp add: assms(5) handle_mqtt_command_def assms(4) Let_def)
    then show ?thesis
      using True x(2) j(1) by (intro exI [of _ "?result ok message"] exI [of _ json]) (auto simp: operation_reports_def APP_COMMAND_REQUEST_ID_SIZE_def)
  next
    case False
    define message where "message = (if err \<noteq> ESP_OK then fit_message (''command parse failed: '' @ esp_err_to_name pf err) else ''device restarting'')"
    have "printable (''command parse failed: '' @ esp_err_to_name pf err)"
      unfolding printable_append using assms(3) message_texts by blast
    then have m: "length message < APP_COMMAND_MESSAGE_SIZE" "printable message"
      using fit_message_length message_texts(19) unfolding message_def by (auto simp: APP_COMMAND_MESSAGE_SIZE_def intro: printable_fit)
    obtain json where j: "print_object (json_out pf) (result_fields pf (?result (err = ESP_OK) message)) RESULT_JSON_SIZE = Inr json"
      "snd (publish_command_result pf env (?result (err = ESP_OK) message) d) = d\<lparr>published := (DEVICE_COMMAND_RESULT_TOPIC pf, json) # published d\<rparr>"
      using answer [of d message "err = ESP_OK"] m by auto
    have "d' = d\<lparr>published := (DEVICE_COMMAND_RESULT_TOPIC pf, json) # published d, restarting := restarting d \<or> err = ESP_OK\<rparr>"
      using False j(2) by (auto simp: assms(5) handle_mqtt_command_def assms(4) Let_def message_def)
    then show ?thesis
      using False j(1) by (intro exI [of _ "?result (err = ESP_OK) message"] exI [of _ json] exI [of _ "[]"])
        (auto simp: operation_ok_def APP_COMMAND_REQUEST_ID_SIZE_def)
  qed
qed

lemma result_storage: "storage (snd (publish_command_result pf env r d)) = storage d"
  by (simp add: publish_command_result_def frame split: sum.split)

text \<open>The configuration of a staging command, as its fields are.\<close>

definition requested_config :: "app_command_request \<Rightarrow> wifi_config" where
  "requested_config request =
     \<lparr>credentials = \<lparr>ssid = req_wifi_ssid request, password = req_wifi_password request\<rparr>,
      request_id = req_request_id request, config_version = req_wifi_config_version request\<rparr>"

lemma staged_exactly:
  assumes "request_sizes request" "request_bounds request" "req_type request = APP_COMMAND_TYPE_STAGE_WIFI_CONFIG"
  shows "staged_config request = requested_config request" "validate_wifi_config (Some (requested_config request)) = ESP_OK"
    "c_str (req_request_id request) = req_request_id request" "c_str (req_wifi_ssid request) = req_wifi_ssid request"
    "c_str (req_wifi_password request) = req_wifi_password request"
    "credentials_valid (req_wifi_ssid request) (req_wifi_password request)"
proof -
  have r: "req_request_id request \<noteq> []" "req_wifi_config_version request \<noteq> 0" "length (req_request_id request) < 64"
      "length (req_wifi_ssid request) < 33" "length (req_wifi_password request) < 64" "1 \<le> length (req_wifi_ssid request)"
      "req_wifi_password request = [] \<or> 8 \<le> length (req_wifi_password request)"
    and c: "c_str (req_request_id request) = req_request_id request" "c_str (req_wifi_ssid request) = req_wifi_ssid request"
      "c_str (req_wifi_password request) = req_wifi_password request"
    using assms by (auto simp: request_sizes_def request_bounds_def)
  have n: "c_strnlen (req_request_id request) 64 = length (req_request_id request)"
      "c_strnlen (req_wifi_ssid request) 33 = length (req_wifi_ssid request)"
      "c_strnlen (req_wifi_password request) 64 = length (req_wifi_password request)"
    using r(3-5) c by (simp_all add: c_strnlen_def c_str_def [symmetric])
  show "staged_config request = requested_config request"
    using r(3-5) c by (simp add: staged_config_def requested_config_def APP_STORAGE_WIFI_SSID_SIZE_def
        APP_STORAGE_WIFI_PASSWORD_SIZE_def APP_STORAGE_WIFI_REQUEST_ID_SIZE_def)
  show "validate_wifi_config (Some (requested_config request)) = ESP_OK"
    using r n by (auto simp: validate_wifi_config_def validate_wifi_credentials_def requested_config_def Let_def
        APP_STORAGE_WIFI_SSID_SIZE_def APP_STORAGE_WIFI_PASSWORD_SIZE_def APP_STORAGE_WIFI_REQUEST_ID_SIZE_def)
  show "credentials_valid (req_wifi_ssid request) (req_wifi_password request)"
    using r n by (auto simp: credentials_valid_def Let_def)
qed (use assms in \<open>auto simp: request_bounds_def\<close>)

text \<open>
  C5: the configuration that the controller stages is the one the device tries. If a staging command for this device is
  parsed and stored, then whenever NVS still holds that configuration and the current network is lost, the next round of the main loop reads
  exactly the fields of the command, asks the driver to connect with its name and password, and records the attempt with its request id and version.
\<close>

theorem staged_command_is_tried:
  assumes "nvs_contract view (nvs_lib pf)"
    and "app_command_parse (cjson pf) (Some topic) (Some payload) empty_request = (ESP_OK, request)"
      "req_type request = APP_COMMAND_TYPE_STAGE_WIFI_CONFIG" "c_str (req_device_code request) = DEVICE_CODE (secrets pf)"
    and "fst (app_storage_stage_candidate_wifi_config (nvs_lib pf) (Some (staged_config request)) (storage d)) =
      (ESP_OK, APP_STORAGE_WIFI_STAGE_STORED)"
    and "view (nvs (storage d2)) = view (nvs (storage (handle_mqtt_command pf env topic payload d)))"
      "lock_wifi_config (nvs_lib pf) (storage d2) = ESP_OK" "fst (nvs_open (nvs_lib pf) False (nvs (storage d2))) = ESP_OK"
    and "s_upstream_wifi_slot d2 = UPSTREAM_WIFI_SLOT_CURRENT"
      "s_status (dev_gateway d2) \<in> {WIFI_GATEWAY_STATUS_STA_RECOVERY_REQUIRED, WIFI_GATEWAY_STATUS_STA_UNREACHABLE}"
      "esp_wifi_set_sta_config (wifi env2) = ESP_OK" "esp_wifi_disconnect (wifi env2) = ESP_OK"
  shows "attempt (main_round pf env2 d2) = (UPSTREAM_WIFI_SLOT_CANDIDATE, requested_config request, generation d2) \<and>
    asks_for (requested_config request) d2 (main_round pf env2 d2)"
proof -
  have "request_sizes request \<and> request_bounds request" by (rule parsed_request_bounds [OF assms(2)])
  note q = staged_exactly [OF conjunct1 [OF this] conjunct2 [OF this] assms(3)]
  obtain st where st: "app_storage_stage_candidate_wifi_config (nvs_lib pf) (Some (staged_config request)) (storage d) =
      ((ESP_OK, APP_STORAGE_WIFI_STAGE_STORED), st)" using assms(5) by (metis prod.collapse)
  have "storage (handle_mqtt_command pf env topic payload d) = st"
    using assms(3,4) st by (simp add: handle_mqtt_command_def assms(2) Let_def stage_outcome_def result_storage)
  moreover have "holds_candidate (view (nvs st)) (requested_config request)"
    using assms(1) st
  proof (cases rule: stage_cases)
    case (stored cfg)
    then show ?thesis using q
      by (simp add: holds_candidate_def candidate_updates_def storage_keys requested_config_def)
  qed simp
  ultimately have h: "holds_candidate (view (nvs (storage d2))) (requested_config request)" using assms(6) by simp
  obtain s where o: "nvs_open (nvs_lib pf) False (nvs (storage d2)) = (ESP_OK, s)" using assms(8) by (metis prod.collapse)
  have "load_candidate_from_handle (nvs_lib pf) s = Inr (requested_config request)"
    using h open_view [OF assms(1) o] q by (intro load_candidate_stored [OF assms(1)]) (simp_all add: requested_config_def)
  then have l: "fst (app_storage_load_candidate_wifi_config (nvs_lib pf) (storage d2)) = Inr (requested_config request)"
    using assms(7) o by (simp add: app_storage_load_candidate_wifi_config_def Let_def)
  have "\<exists>gw. wifi_gateway_connect_sta (wifi env2) (during_disconnect env2) (Some (req_wifi_ssid request)) (Some (req_wifi_password request))
      (dev_gateway d2) = (ESP_OK, gw)"
    using valid_credentials_set [of "req_wifi_ssid request" "req_wifi_password request" "wifi env2" "dev_gateway d2"] q(6) assms(11,12)
    by (simp add: validate_credentials wifi_gateway_connect_sta_def Let_def)
  then have k: "fst (start_candidate_wifi_attempt pf env2 d2) = ESP_OK"
    using l by (auto simp: start_candidate_wifi_attempt_def requested_config_def Let_def split: prod.split)
  from assms(1) show ?thesis
  proof (cases rule: start_attempt_cases [of view pf env2 d2])
    case (started c d')
    then have "main_round pf env2 d2 = d'"
      using assms(9,10) by (auto simp: main_round_def wifi_gateway_get_status_def handle_upstream_wifi_recovery_def
          handle_upstream_wifi_unreachable_def)
    then show ?thesis using started l by simp
  qed (use k in simp)
qed

section \<open>What the recovery and a failed staging leave behind\<close>

text \<open>
  The retained recovery activates the form for the credentials but asks the driver for nothing: the access point keeps the name and the
  password of the normal mode, although main.c describes provisioning with a protected access point.
\<close>

lemma retained_recovery_keeps_access_point:
  "provisioning_mode (s_config (dev_portal (enter_retained_wifi_recovery pf d)))"
  "driver_calls (dev_gateway (enter_retained_wifi_recovery pf d)) = driver_calls (dev_gateway d)"
  by (simp_all add: enter_retained_wifi_recovery_def captive_portal_set_provisioning_mode_def wifi_gateway_set_status_def Let_def)

text \<open>
  A candidate is overwritten key by key. If staging fails after the credentials were written, the stored candidate has the new
  credentials with the old request id and version, and the promotion of the old attempt installs credentials that were never tried.
\<close>

definition newer_config :: wifi_config where
  "newer_config = \<lparr>credentials = \<lparr>ssid = ''lab'', password = ''other-password''\<rparr>, request_id = ''r2'', config_version = 4\<rparr>"

definition torn_nvs :: nvs_view where
  "torn_nvs = (nvs (staged_store 3))(CANDIDATE_SSID_KEY \<mapsto> Nvs_Str ''lab'', CANDIDATE_PASSWORD_KEY \<mapsto> Nvs_Str ''other-password'')"

lemma newer_c_str: "c_str ''lab'' = ''lab''" "c_str ''other-password'' = ''other-password''" "c_str ''r2'' = ''r2''"
  by (simp_all add: c_str_def NUL_char)

lemma failed_staging_tears:
  "app_storage_stage_candidate_wifi_config (map_nvs [CANDIDATE_REQUEST_ID_KEY]) (Some newer_config) (staged_store 3) =
    ((ESP_FAIL, APP_STORAGE_WIFI_STAGE_STORED), (staged_store 3)\<lparr>nvs := torn_nvs\<rparr>)"
proof -
  have m: "s_wifi_config_mutex (staged_store 3)" by (simp add: staged_store_def)
  have v: "validate_wifi_config (Some newer_config) = ESP_OK"
    by (simp add: validate_wifi_config_def validate_wifi_credentials_def newer_config_def c_strnlen_def NUL_char Let_def
        APP_STORAGE_WIFI_SSID_SIZE_def APP_STORAGE_WIFI_PASSWORD_SIZE_def APP_STORAGE_WIFI_REQUEST_ID_SIZE_def)
  have l: "load_candidate_from_handle (map_nvs [CANDIDATE_REQUEST_ID_KEY]) (nvs (staged_store 3)) = Inr (sample_config ''r1'' 3)"
    by (rule load_candidate_stored [OF map_nvs_contract _ sample_valid])
      (simp_all add: sample_config_def sample_c_str holds_candidate_def candidate_updates_def map_view_def staged_store_def
        stored_value_def storage_keys)
  have a: "load_metadata_pair (map_nvs [CANDIDATE_REQUEST_ID_KEY]) ACTIVE_REQUEST_ID_KEY ACTIVE_VERSION_KEY
      APP_STORAGE_WIFI_REQUEST_ID_SIZE (nvs (staged_store 3)) = Inr None"
    by (simp add: load_metadata_pair_def map_nvs_def map_view_def staged_store_def storage_keys APP_STORAGE_WIFI_REQUEST_ID_SIZE_def)
  have d: "stage_decision (Some (sample_config ''r1'' 3)) None newer_config = APP_STORAGE_WIFI_STAGE_STORED"
    by (simp add: stage_decision_def sample_config_def newer_config_def)
  have w: "candidate_writes (map_nvs [CANDIDATE_REQUEST_ID_KEY]) newer_config (nvs (staged_store 3)) = (ESP_FAIL, torn_nvs)"
    by (simp add: candidate_writes_def if_ok_def newer_config_def newer_c_str torn_nvs_def storage_keys)
  show ?thesis
    unfolding app_storage_stage_candidate_wifi_config_def Let_def v by (simp add: lock_map_nvs [OF m] l a d w)
qed

lemma torn_candidate_promoted:
  "\<exists>st. app_storage_promote_candidate_wifi_config (map_nvs []) (Some ''r1'') 3 ((staged_store 3)\<lparr>nvs := torn_nvs\<rparr>) = (ESP_OK, st) \<and>
    map_view (nvs st) SSID_KEY = Some (Nvs_Str ''lab'')"
proof -
  let ?c = "newer_config\<lparr>request_id := ''r1'', config_version := 3\<rparr>"
  let ?st = "(staged_store 3)\<lparr>nvs := torn_nvs\<rparr>"
  have m: "s_wifi_config_mutex ?st" by (simp add: staged_store_def)
  have v: "validate_wifi_config (Some ?c) = ESP_OK"
    by (simp add: validate_wifi_config_def validate_wifi_credentials_def newer_config_def c_strnlen_def NUL_char Let_def
        APP_STORAGE_WIFI_SSID_SIZE_def APP_STORAGE_WIFI_PASSWORD_SIZE_def APP_STORAGE_WIFI_REQUEST_ID_SIZE_def)
  have l: "load_candidate_from_handle (map_nvs []) torn_nvs = Inr ?c"
    by (rule load_candidate_stored [OF map_nvs_contract _ v])
      (simp_all add: newer_config_def newer_c_str sample_c_str holds_candidate_def candidate_updates_def map_view_def torn_nvs_def
        staged_store_def stored_value_def storage_keys)
  obtain s where w: "promote_writes (map_nvs []) ?c torn_nvs = (ESP_OK, s)" using sample_promote_writes by blast
  have c: "config_version ?c = 3" "c_str (request_id ?c) = ''r1''" by (simp_all add: sample_c_str)
  have "\<exists>st. app_storage_promote_candidate_wifi_config (map_nvs []) (Some ''r1'') 3 ?st = (ESP_OK, st)"
    unfolding app_storage_promote_candidate_wifi_config_def Let_def
    by (simp add: lock_map_nvs [OF m] l w c sample_c_str del: wifi_config.update_convs)
  then obtain st where p: "app_storage_promote_candidate_wifi_config (map_nvs []) (Some ''r1'') 3 ?st = (ESP_OK, st)" ..
  from map_nvs_contract p show ?thesis
  proof (cases rule: promote_cases)
    case (promoted c)
    then have "c_str (ssid (credentials c)) = ''lab''"
      by (simp add: holds_candidate_def candidate_updates_def map_view_def torn_nvs_def stored_value_def newer_c_str storage_keys)
    then show ?thesis using p promoted(6) by (simp add: update_defs storage_keys)
  qed simp
qed

section \<open>Witnesses\<close>

definition connected_device :: "nvs_view device" where
  "connected_device = rejected_device\<lparr>dev_mqtt := mqtt_boot\<lparr>s_client := True, s_connected := True\<rparr>\<rparr>"

lemma every_command_answered_witness:
  "\<exists>json status. published (handle_mqtt_command sample_platform sample_services ''cmd/ping'' (render_object [(''type'', JStr ''PING'')])
      connected_device) = (DEVICE_COMMAND_RESULT_TOPIC sample_platform, json) # status @ published connected_device"
proof -
  have s: "connected_services sample_services connected_device"
    by (simp add: connected_services_def connected_device_def sample_services_def)
  have r: "results_print sample_platform"
    by (simp add: results_print_def print_object_def sample_platform_def sample_writer_def RESULT_JSON_SIZE_def list_all_iff)
  have e: "printable (esp_err_to_name sample_platform e)" for e
    by (simp add: sample_platform_def printable_def char_code_def)
  have p: "app_command_parse (cjson sample_platform) (Some ''cmd/ping'') (Some (render_object [(''type'', JStr ''PING'')])) empty_request =
      (ESP_OK, empty_request\<lparr>req_type := APP_COMMAND_TYPE_PING\<rparr>)"
    using sample_ping by (simp add: sample_platform_def)
  show ?thesis using every_command_answered [OF s r e p refl] by blast
qed

definition staging_platform :: "(nvs_view, string) platform" where
  "staging_platform = \<lparr>secrets = sample_secrets, nvs_lib = map_nvs [], lwip = sample_lwip, cjson = staging_cjson,
     json_out = sample_writer, esp_err_to_name = (\<lambda>_. ''ESP_FAIL''), pdMS_TO_TICKS = (\<lambda>ms. ms)\<rparr>"

definition staging_request :: app_command_request where
  "staging_request = empty_request\<lparr>req_request_id := ''r1'', req_type := APP_COMMAND_TYPE_STAGE_WIFI_CONFIG, req_device_code := ''gw-1'',
     req_wifi_ssid := ''office'', req_wifi_password := ''secret-password'', req_wifi_config_version := 3\<rparr>"

lemma staging_parse:
  "app_command_parse staging_cjson (Some ''cmd/stage-wifi-config'') (Some ''{}'') empty_request = (ESP_OK, staging_request)"
proof -
  have t: "read_command_type_from_topic (Some ''cmd/stage-wifi-config'') = Inr APP_COMMAND_TYPE_STAGE_WIFI_CONFIG"
    by (simp add: read_command_type_from_topic_def after_last_def command_of_name_def c_str_def NUL_char COMMAND_TOPIC_BUFFER_SIZE_def)
  have c: "c_str ''gw-1'' = ''gw-1''" by (simp add: c_str_def NUL_char)
  show ?thesis
    by (simp add: app_command_parse_def t COMMAND_PAYLOAD_BUFFER_SIZE_def parse_stage_wifi_config_payload_def staging_cjson_def
        copy_required_json_string_def copy_field_def parse_version_def check_def stage_lengths_ok_def if_ok_def Let_def command_sizes
        sample_c_str c staging_request_def empty_request_def)
qed

lemma staged_command_is_tried_witness:
  "attempt (main_round staging_platform sample_services rejected_device) =
    (UPSTREAM_WIFI_SLOT_CANDIDATE, sample_config ''r1'' 3, generation rejected_device)"
proof -
  let ?d = "rejected_device\<lparr>storage := empty_store\<rparr>"
  have p: "app_command_parse (cjson staging_platform) (Some ''cmd/stage-wifi-config'') (Some ''{}'') empty_request = (ESP_OK, staging_request)"
    using staging_parse by (simp add: staging_platform_def)
  have code: "c_str (req_device_code staging_request) = DEVICE_CODE (secrets staging_platform)"
    by (simp add: staging_request_def staging_platform_def sample_secrets_def c_str_def NUL_char)
  have cfg: "requested_config staging_request = sample_config ''r1'' 3" "staged_config staging_request = sample_config ''r1'' 3"
    by (simp_all add: requested_config_def staged_config_def staging_request_def sample_config_def sample_c_str
        APP_STORAGE_WIFI_SSID_SIZE_def APP_STORAGE_WIFI_PASSWORD_SIZE_def APP_STORAGE_WIFI_REQUEST_ID_SIZE_def)
  have n: "nvs_lib staging_platform = map_nvs []" by (simp add: staging_platform_def)
  have st: "app_storage_stage_candidate_wifi_config (map_nvs []) (Some (sample_config ''r1'' 3)) empty_store =
      ((ESP_OK, APP_STORAGE_WIFI_STAGE_STORED), staged_store 3)" using sample_stage [of 3] by simp
  have ty: "req_type staging_request = APP_COMMAND_TYPE_STAGE_WIFI_CONFIG" by (simp add: staging_request_def)
  have rs: "storage rejected_device = staged_store 3" by (simp add: rejected_device_def)
  have "storage (handle_mqtt_command staging_platform sample_services ''cmd/stage-wifi-config'' ''{}'' ?d) = storage rejected_device"
    using code by (simp add: handle_mqtt_command_def p Let_def cfg st n stage_outcome_def result_storage ty rs)
  then show ?thesis
    using staged_command_is_tried [where view = map_view and pf = staging_platform and topic = "''cmd/stage-wifi-config''"
        and payload = "''{}''" and request = staging_request and env = sample_services and d = ?d and ?d2.0 = rejected_device
        and ?env2.0 = sample_services, OF _ p _ code] map_nvs_contract st
    by (simp add: n cfg ty) (simp add: rejected_device_def device_boot_def lock_map_nvs staged_store_def sample_driver_def)
qed

end
