(* ===== verification/Access_Runs.thy ===== *)
theory Access_Runs
  imports App_Runs Dns_Runs Portal_Runs
begin

text \<open>
  Access to the network over the life of the device: what each step does to the table of the clients, and why a packet of a
  client may pass.
\<close>

section \<open>What a step does to the table of the clients\<close>

named_theorems clients_frame \<open>operations that leave the table of the clients alone\<close>

lemma publish_clients [clients_frame]:
  "dev_clients (snd (publish env topic json d)) = dev_clients d"
  "dev_clients (snd (publish_device_status pf env d)) = dev_clients d"
  "dev_clients (snd (publish_command_result pf env r d)) = dev_clients d"
  "dev_clients (snd (publish_client_signals pf env d)) = dev_clients d"
proof -
  show p: "dev_clients (snd (publish env topic json d)) = dev_clients d" for topic json and d :: "'a device"
    by (simp add: publish_def Let_def)
  show "dev_clients (snd (publish_device_status pf env d)) = dev_clients d"
    by (simp add: publish_device_status_def p split: prod.split sum.split)
  show "dev_clients (snd (publish_command_result pf env r d)) = dev_clients d"
    by (simp add: publish_command_result_def p split: sum.split)
  show "dev_clients (snd (publish_client_signals pf env d)) = dev_clients d"
    by (simp add: publish_client_signals_def p split: prod.split sum.split)
qed

lemma attempt_clients [clients_frame]:
  "dev_clients (snd (start_candidate_wifi_attempt pf env d)) = dev_clients d"
  "dev_clients (enter_retained_wifi_recovery pf d) = dev_clients d"
  "dev_clients (start_mqtt pf env d) = dev_clients d"
  "dev_clients (snd (start_client_disconnect_publish_task env d)) = dev_clients d"
  by (simp_all add: start_candidate_wifi_attempt_def enter_retained_wifi_recovery_def start_mqtt_def
      start_client_disconnect_publish_task_def Let_def split: prod.split sum.split)

lemma attempt_clients': "start_candidate_wifi_attempt pf env d = (err, d') \<Longrightarrow> dev_clients d' = dev_clients d"
  using attempt_clients(1) [of pf env d] by simp

lemma recovery_clients [clients_frame]:
  "dev_clients (handle_upstream_wifi_recovery pf env d) = dev_clients d"
  "dev_clients (handle_upstream_wifi_unreachable pf env d) = dev_clients d"
  "dev_clients (promote_verified_candidate_if_ready pf env d) = dev_clients d"
  by (auto simp: handle_upstream_wifi_recovery_def handle_upstream_wifi_unreachable_def promote_verified_candidate_if_ready_def
      Let_def clients_frame split: prod.split dest!: attempt_clients')

lemma report_clients:
  "dev_clients (report pf env d) = run_access ticks [Expire_Check (now env), Update_Rssi (softap_list env)] (dev_clients d)"
  by (simp add: report_def Let_def run_access_def clients_frame split: prod.split)

lemma round_clients:
  "dev_clients (main_round pf env d) \<in>
    {dev_clients d, run_access ticks [Expire_Check (now env), Update_Rssi (softap_list env)] (dev_clients d)}"
  by (simp add: main_round_def Let_def report_clients [of _ _ _ ticks] clients_frame)

text \<open>The commands that an event delivers, and what a command does to the table.\<close>

fun parsed_commands :: "('s, 'j) platform \<Rightarrow> mqtt_effect \<Rightarrow> app_command_request list" where
  "parsed_commands pf (Command topic payload) =
     (case app_command_parse (cjson pf) (Some topic) (Some payload) empty_request of
        (err, request) \<Rightarrow> if err = ESP_OK then [request] else [])"
| "parsed_commands pf (Subscribe topic) = []"

definition delivered_commands :: "('s, 'j) platform \<Rightarrow> 's device_event \<Rightarrow> 's device \<Rightarrow> app_command_request list" where
  "delivered_commands pf ev d =
     (case ev of
        Mqtt_event env mev \<Rightarrow>
          (case mqtt_event_handler mev (dev_mqtt d) of None \<Rightarrow> [] | Some (effects, m) \<Rightarrow> concat (map (parsed_commands pf) effects))
      | _ \<Rightarrow> [])"

definition command_ops :: "services \<Rightarrow> app_command_request \<Rightarrow> access_op list" where
  "command_ops env request =
     (case req_type request of
        APP_COMMAND_TYPE_ALLOW \<Rightarrow>
          [Authorize (c_str (req_mac request)) (req_session_id request) (word_of_int (req_ttl_seconds request)) (now env)]
      | APP_COMMAND_TYPE_REVOKE_ACCESS \<Rightarrow> [access_op.Revoke (c_str (req_mac request)) (req_session_id request)]
      | _ \<Rightarrow> [])"

lemma command_ops_cases:
  "op \<in> set (command_ops env request) \<Longrightarrow>
    req_type request = APP_COMMAND_TYPE_ALLOW \<and>
      op = Authorize (c_str (req_mac request)) (req_session_id request) (word_of_int (req_ttl_seconds request)) (now env) \<or>
    req_type request = APP_COMMAND_TYPE_REVOKE_ACCESS \<and> op = access_op.Revoke (c_str (req_mac request)) (req_session_id request)"
  by (auto simp: command_ops_def split: app_command_type.splits)

lemma revoke_op:
  "req_type request = APP_COMMAND_TYPE_REVOKE_ACCESS \<Longrightarrow>
    access_op.Revoke (c_str (req_mac request)) (req_session_id request) \<in> set (command_ops env request)"
  by (simp add: command_ops_def)

lemma execute_clients:
  "execute_command pf env (req_type request) request d = Some (r, d') \<Longrightarrow>
    dev_clients d' = run_access (pdMS_TO_TICKS pf) (command_ops env request) (dev_clients d)"
  using publish_clients(2) [of pf env d]
  by (cases "req_type request") (auto simp: command_ops_def run_access_def split: prod.splits if_split_asm)

lemma command_clients:
  "dev_clients (handle_mqtt_command pf env topic payload d) =
    run_access (pdMS_TO_TICKS pf) (concat (map (command_ops env) (parsed_commands pf (Command topic payload)))) (dev_clients d)"
proof -
  obtain err request where p: "app_command_parse (cjson pf) (Some topic) (Some payload) empty_request = (err, request)" by fastforce
  have none: "command_ops env request = []" if "execute_command pf env (req_type request) request d = None"
    using that by (cases "req_type request") (auto simp: command_ops_def split: prod.splits if_split_asm)
  have kick: "command_ops env request = []" if "req_type request = APP_COMMAND_TYPE_KICK" using that by (simp add: command_ops_def)
  show ?thesis
    using execute_clients [of pf env request d] none kick
    by (auto simp: handle_mqtt_command_def p Let_def clients_frame run_access_def split: option.split)
qed

lemma run_access_append: "run_access ticks (ops @ ops') st = run_access ticks ops' (run_access ticks ops st)"
  by (simp add: run_access_def)

lemma effects_clients:
  "dev_clients (fold (run_effect pf env) effects d) =
    run_access (pdMS_TO_TICKS pf) (concat (map (command_ops env) (concat (map (parsed_commands pf) effects)))) (dev_clients d)"
proof (induction effects arbitrary: d)
  case (Cons fx effects)
  have "dev_clients (run_effect pf env fx d) =
      run_access (pdMS_TO_TICKS pf) (concat (map (command_ops env) (parsed_commands pf fx))) (dev_clients d)"
    by (cases fx) (simp_all add: run_effect_def command_clients run_access_def del: parsed_commands.simps(1))
  then show ?case by (simp add: Cons run_access_append)
qed (simp add: run_access_def)

text \<open>Operations that neither grant access nor set a state.\<close>

definition harmless :: "access_op \<Rightarrow> bool" where
  "harmless op \<longleftrightarrow> (\<forall>t sid ttl t'. op \<noteq> Authorize t sid ttl t') \<and> (\<forall>mac s. op \<noteq> Set_State mac s)"

text \<open>The packet filter, the page of the portal and the publishing task.\<close>

lemma hook_clients:
  assumes "access_filter_lwip_ip4_input lw hdrs t ms rules packet nif fs = Some (discard, fs')"
  shows "\<exists>ops. filter_clients fs' = run_access ticks ops (filter_clients fs) \<and> list_all harmless ops"
proof -
  have same: "\<exists>ops. filter_clients fs = run_access ticks ops (filter_clients fs) \<and> list_all harmless ops"
    by (intro exI [of _ "[]"]) (simp add: run_access_def)
  have asked: "\<exists>ops. snd (client_access_can_forward_ipv4 t ip (filter_clients fs)) = run_access ticks ops (filter_clients fs) \<and>
      list_all harmless ops" for ip
    by (intro exI [of _ "[Can_Forward ip t]"]) (simp add: run_access_def harmless_def)
  have "filter_clients fs' = filter_clients fs \<or>
      (\<exists>ip. filter_clients fs' = snd (client_access_can_forward_ipv4 t ip (filter_clients fs)))"
    using assms unfolding access_filter_lwip_ip4_input_def Let_def
    by (auto split: option.splits if_split_asm prod.splits) (metis snd_conv)+
  then show ?thesis using same asked by metis
qed

lemma portal_page_clients:
  "\<exists>ops. snd (portal_page_handler http arp (\<lambda>cs. cs) config request cs) = run_access ticks ops cs \<and> list_all harmless ops"
proof -
  have same: "\<exists>ops. cs = run_access ticks ops cs \<and> list_all harmless ops"
    by (intro exI [of _ "[]"]) (simp add: run_access_def)
  have learnt: "\<exists>ops. snd (track_client_ip (Some mac) (Some ip) cs) = run_access ticks ops cs \<and> list_all harmless ops" for mac ip
    by (intro exI [of _ "[Recover_Ip mac ip]"]) (simp add: run_access_def harmless_def)
  have "snd (portal_page_handler http arp (\<lambda>cs. cs) config request cs) = cs \<or>
      (\<exists>mac ip. snd (portal_page_handler http arp (\<lambda>cs. cs) config request cs) = snd (track_client_ip (Some mac) (Some ip) cs))"
    unfolding portal_page_handler_def request_snapshot_def client_access_get_snapshot_by_ipv4_def Let_def
    by (auto split: option.splits if_split_asm prod.splits sum.splits) (metis snd_conv)+
  then show ?thesis using same learnt by metis
qed

lemma publish_task_clients:
  "\<exists>ops. dev_clients (client_disconnect_publish_task pf env d) = run_access ticks ops (dev_clients d) \<and> list_all harmless ops"
proof -
  have sent: "dev_clients (snd (publish_client_disconnect pf env ev d)) = dev_clients d" for ev
    by (simp add: publish_client_disconnect_def Let_def clients_frame)
  then have sent': "publish_client_disconnect pf env ev d = (err, d') \<Longrightarrow> dev_clients d' = dev_clients d" for ev err d'
    by (metis snd_conv)
  have "dev_clients (client_disconnect_publish_task pf env d) = dev_clients d \<or>
      dev_clients (client_disconnect_publish_task pf env d) = snd (client_access_wait_disconnect_event (dev_clients d))"
    using sent' by (auto simp: client_disconnect_publish_task_def split: option.split prod.split sum.split)
  then show ?thesis
    by (elim disjE) (auto intro: exI [of _ "[]"] exI [of _ "[Wait_Disconnect]"] simp: run_access_def harmless_def)
qed

lemma event_ops:
  assumes "device_step pf ev d d'" "\<not> is_reboot ev"
  obtains (commands) env mev where "ev = Mqtt_event env mev"
      "dev_clients d' = run_access (pdMS_TO_TICKS pf) (concat (map (command_ops env) (delivered_commands pf ev d))) (dev_clients d)"
  | (other) ops where "\<forall>env mev. ev \<noteq> Mqtt_event env mev" "dev_clients d' = run_access (pdMS_TO_TICKS pf) ops (dev_clients d)"
      "list_all harmless ops" "\<And>sev. ev = Softap_event sev \<Longrightarrow> Wifi_Event sev \<in> set ops"
  using assms(1)
proof cases
  case (round_step env)
  consider "dev_clients d' = dev_clients d"
    | "dev_clients d' = run_access (pdMS_TO_TICKS pf) [Expire_Check (now env), Update_Rssi (softap_list env)] (dev_clients d)"
    using round_clients [of pf env d "pdMS_TO_TICKS pf"] round_step by blast
  then show ?thesis
  proof cases
    case 1
    then show ?thesis using round_step by (intro other [of "[]"]) (simp_all add: run_access_def)
  next
    case 2
    then show ?thesis using round_step by (intro other [OF _ 2]) (simp_all add: harmless_def)
  qed
next
  case (wifi_step err e)
  then show ?thesis by (intro other [of "[]"]) (simp_all add: run_access_def)
next
  case (softap_step sev)
  then show ?thesis
    by (intro other [of "[Wifi_Event sev, Ip_Event sev]"]) (simp_all add: run_access_def on_softap_def harmless_def)
next
  case (mqtt_step mev effects m env)
  then show ?thesis
    using effects_clients [of pf env effects "d\<lparr>dev_mqtt := m\<rparr>"] by (intro commands) (simp_all add: delivered_commands_def)
next
  case (packet_step hdrs t ms packet nif discard fs)
  obtain ops where "filter_clients fs = run_access (pdMS_TO_TICKS pf) ops (dev_clients d)" "list_all harmless ops"
    using hook_clients [OF packet_step(4)] by auto
  then show ?thesis using packet_step by (intro other [of ops]) simp_all
next
  case (get_step http arp request)
  obtain ops where "snd (portal_page_handler http arp (\<lambda>cs. cs) (s_config (dev_portal d)) request (dev_clients d)) =
      run_access (pdMS_TO_TICKS pf) ops (dev_clients d)" "list_all harmless ops"
    using portal_page_clients by blast
  then show ?thesis using get_step by (intro other [of ops]) simp_all
next
  case (dns_step getaddrinfo t source datagram)
  obtain b cs where f: "client_access_can_forward_ipv4 t source (dev_clients d) = (b, cs)" by fastforce
  then show ?thesis
    using dns_step by (intro other [of "[Can_Forward source t]"])
      (simp_all add: answer_query_def run_access_def harmless_def split: option.split)
next
  case (post_step http request r st)
  then show ?thesis by (intro other [of "[]"]) (simp_all add: run_access_def)
next
  case (publish_step env)
  obtain ops where "dev_clients d' = run_access (pdMS_TO_TICKS pf) ops (dev_clients d)" "list_all harmless ops"
    using publish_task_clients publish_step by blast
  then show ?thesis using publish_step by (intro other [of ops]) simp_all
qed (use assms(2) in simp)

section \<open>Why a client is authorized\<close>

text \<open>Since a state of the table: the grant was there and nothing has ended it, or it is new.\<close>

definition granted_since ::
  "(u32 \<Rightarrow> u32) \<Rightarrow> bytes \<Rightarrow> client_access \<Rightarrow> access_op list \<Rightarrow> client_access_entry \<Rightarrow> bool" where
  "granted_since ticks mac st ops e \<longleftrightarrow>
     0 < e_session_id e \<and>
     (granted_by ticks ops mac e \<or>
      (\<exists>e0. client_map st mac = Some e0 \<and> authorized e0 \<and> e_session_id e = e_session_id e0 \<and>
         authorized_at_ticks e = authorized_at_ticks e0 \<and> ttl_ticks e = ttl_ticks e0 \<and>
         (\<forall>op \<in> set ops. \<not> ends_grant mac (e_session_id e) (authorized_at_ticks e) (ttl_ticks e) op)))"

interpretation since: provenance ticks mac "granted_since ticks mac st" for ticks mac st
proof
  show "granted_since ticks mac st (ops @ [op]) e'"
    if "granted_since ticks mac st ops e" "e_session_id e' = e_session_id e" "authorized_at_ticks e' = authorized_at_ticks e"
      "ttl_ticks e' = ttl_ticks e" "\<not> ends_grant mac (e_session_id e) (authorized_at_ticks e) (ttl_ticks e) op" for ops e e' op
    using that granted_by_snoc [of ticks ops mac e e' op] by (auto simp: granted_since_def)
  show "granted_since ticks mac st (ops @ [Authorize t sid ttl now]) (grant sid now (ticks (ttl * 1000)) e)"
    if "0 < sid" "parse_mac_address (Some t) = Inr mac" for sid t ops ttl now e
    using that granted_by_now [OF that, of ticks ops ttl now e] by (simp add: granted_since_def grant_def)
  show "0 < e_session_id e" if "granted_since ticks mac st ops e" for ops e using that by (simp add: granted_since_def)
qed

text \<open>The table at a start: well-formed, nobody authorized, every recorded session positive.\<close>

definition nobody_authorized :: "client_access \<Rightarrow> bool" where
  "nobody_authorized st \<longleftrightarrow> clients_ok st \<and> (\<forall>mac e. client_map st mac = Some e \<longrightarrow> \<not> authorized e)"

lemma harmless_keeps:
  assumes "nobody_authorized st" "list_all harmless ops"
  shows "nobody_authorized (run_access ticks ops st)"
proof -
  have "\<not> authorized e" if "client_map (run_access ticks ops st) mac = Some e" for mac e
  proof
    assume "authorized e"
    then have "granted_by ticks ops mac e"
      using that assms by (intro since_boot.run [of st mac ticks ops]) (auto simp: nobody_authorized_def harmless_def list_all_iff)
    then show False using assms(2) by (auto simp: granted_by_def harmless_def list_all_iff)
  qed
  then show ?thesis using run_access_ok assms(1) by (auto simp: nobody_authorized_def)
qed

lemma track_pairs_ops: "\<exists>ops. snd (track_pairs ps st) = run_access ticks ops st \<and> list_all harmless ops"
proof (induction ps st rule: track_pairs.induct)
  case (2 mac ip ps st)
  obtain err st1 where c: "track_connected_client (Some mac) st = (err, st1)" by fastforce
  obtain err' st2 where i: "track_client_ip (Some mac) (Some ip) st1 = (err', st2)" by fastforce
  have 1: "st1 = run_access ticks [Wifi_Event (softap_event.WIFI_EVENT_AP_STACONNECTED mac)] st"
    by (simp add: run_access_def client_access_event_handler_def c)
  have 2: "st2 = run_access ticks [Wifi_Event (softap_event.WIFI_EVENT_AP_STACONNECTED mac), Recover_Ip mac ip] st"
    by (simp add: run_access_def client_access_event_handler_def c i)
  have h: "list_all harmless [Wifi_Event (softap_event.WIFI_EVENT_AP_STACONNECTED mac), Recover_Ip mac ip]" by (simp add: harmless_def)
  consider "err \<noteq> ESP_OK" | "err = ESP_OK" "ip = 0" | "err = ESP_OK" "ip \<noteq> 0" "err' \<noteq> ESP_OK" | "err = ESP_OK" "ip \<noteq> 0" "err' = ESP_OK" by blast
  then show ?case
  proof cases
    case 1
    then show ?thesis using \<open>st1 = _\<close> h by (intro exI [of _ "[Wifi_Event (softap_event.WIFI_EVENT_AP_STACONNECTED mac)]"]) (simp add: c)
  next
    case 2
    obtain ops where "snd (track_pairs ps st1) = run_access ticks ops st1" "list_all harmless ops"
      using "2.IH"(2) [OF c [symmetric]] 2 by auto
    then show ?thesis using 2 \<open>st1 = _\<close> h
      by (intro exI [of _ "Wifi_Event (softap_event.WIFI_EVENT_AP_STACONNECTED mac) # ops"]) (simp add: c run_access_def)
  next
    case 3
    then show ?thesis using \<open>st2 = _\<close> h by (intro exI conjI, rule_tac [2] h) (simp_all add: c i)
  next
    case 4
    obtain ops where "snd (track_pairs ps st2) = run_access ticks ops st2" "list_all harmless ops"
      using "2.IH"(1) [OF c [symmetric] _ _ i [symmetric]] 4 by auto
    then show ?thesis using 4 \<open>st2 = _\<close> h
      by (intro exI [of _ "Wifi_Event (softap_event.WIFI_EVENT_AP_STACONNECTED mac) # Recover_Ip mac ip # ops"]) (simp add: c i run_access_def)
  qed
qed (intro exI [of _ "[]"], simp add: run_access_def)

lemma start_nobody:
  assumes "nobody_authorized st"
  shows "nobody_authorized (snd (client_access_start env st))"
proof -
  have q: "nobody_authorized (st\<lparr>s_disconnect_queue := Some []\<rparr>)" if "nobody_authorized st" for st
    using that by (simp add: nobody_authorized_def clients_ok_def client_map_def)
  have h: "nobody_authorized (register_handler h st) = nobody_authorized st" "nobody_authorized (unregister_handler h st) = nobody_authorized st"
      "nobody_authorized (st\<lparr>s_started := b\<rparr>) = nobody_authorized st" for h st b
    by (simp_all add: nobody_authorized_def clients_ok_def client_map_def register_handler_def unregister_handler_def split: option.split)
  have t: "nobody_authorized (snd (track_existing_softap_clients stations nif leases st))" if "nobody_authorized st" for stations nif leases st
    using that harmless_keeps track_pairs_ops [of _ st "\<lambda>x. x"]
    by (auto simp: track_existing_softap_clients_def split: sum.split) (metis harmless_keeps track_pairs_ops)
  then have t': "nobody_authorized st \<Longrightarrow> track_existing_softap_clients stations nif leases st = (err, st') \<Longrightarrow> nobody_authorized st'"
    for stations nif leases st err st' by (metis snd_conv)
  show ?thesis
    using assms q
    by (auto simp: client_access_start_def Let_def h split: prod.split dest: t' [rotated])
qed

text \<open>What ends the access of a client for a session: a restart, a new connection, leaving, a revocation.\<close>

definition ends_access :: "('s, 'j) platform \<Rightarrow> bytes \<Rightarrow> int \<Rightarrow> 's device_event \<Rightarrow> 's device \<Rightarrow> bool" where
  "ends_access pf mac sid ev d \<longleftrightarrow>
     is_reboot ev \<or>
     ev = Softap_event (softap_event.WIFI_EVENT_AP_STACONNECTED mac) \<or>
     ev = Softap_event (softap_event.WIFI_EVENT_AP_STADISCONNECTED mac) \<or>
     (\<exists>request \<in> set (delivered_commands pf ev d). req_type request = APP_COMMAND_TYPE_REVOKE_ACCESS \<and>
        req_session_id request = sid \<and> parse_mac_address (Some (c_str (req_mac request))) = Inr mac)"

text \<open>
  The entry of a client was authorized by a command of the run, and nothing in the rest of the run ended that access.
\<close>

definition allowed_by_command ::
  "('s, 'j) platform \<Rightarrow> 's device \<Rightarrow> 's device_event list \<Rightarrow> bytes \<Rightarrow> client_access_entry \<Rightarrow> bool" where
  "allowed_by_command pf d0 evs mac e \<longleftrightarrow>
     0 < e_session_id e \<and>
     (\<exists>before env mev later d1 request.
        evs = before @ Mqtt_event env mev # later \<and> device_run pf before d0 d1 \<and>
        request \<in> set (delivered_commands pf (Mqtt_event env mev) d1) \<and> req_type request = APP_COMMAND_TYPE_ALLOW \<and>
        parse_mac_address (Some (c_str (req_mac request))) = Inr mac \<and> req_session_id request = e_session_id e \<and>
        authorized_at_ticks e = uint (now env) \<and>
        ttl_ticks e = uint (pdMS_TO_TICKS pf (word_of_int (req_ttl_seconds request) * 1000)) \<and>
        (\<forall>l1 x l2 dx. later = l1 @ x # l2 \<longrightarrow> device_run pf (before @ Mqtt_event env mev # l1) d0 dx \<longrightarrow>
           \<not> ends_access pf mac (e_session_id e) x dx))"

lemma device_step_det: "device_step pf ev d d' \<Longrightarrow> device_step pf ev d d'' \<Longrightarrow> d' = d''"
  by (cases rule: device_step.cases) (auto elim!: device_stepE)

lemma device_run_det: "device_run pf evs d d' \<Longrightarrow> device_run pf evs d d'' \<Longrightarrow> d' = d''"
proof (induction arbitrary: d'' rule: device_run.induct)
  case (run_none d)
  then show ?case by cases simp_all
next
  case (run_snoc evs d d1 ev d2)
  from run_snoc.prems obtain dx where "device_run pf evs d dx" "device_step pf ev dx d''" by cases simp_all
  then show ?case using run_snoc.IH run_snoc.hyps(2) device_step_det by metis
qed

lemma kept_access:
  assumes "allowed_by_command pf d0 evs mac e" "device_run pf evs d0 d" "\<not> ends_access pf mac (e_session_id e) ev d"
    and "e_session_id e' = e_session_id e" "authorized_at_ticks e' = authorized_at_ticks e" "ttl_ticks e' = ttl_ticks e"
  shows "allowed_by_command pf d0 (evs @ [ev]) mac e'"
proof -
  from assms(1) obtain before env mev later d1 request where a:
    "0 < e_session_id e" "evs = before @ Mqtt_event env mev # later" "device_run pf before d0 d1"
    "request \<in> set (delivered_commands pf (Mqtt_event env mev) d1)" "req_type request = APP_COMMAND_TYPE_ALLOW"
    "parse_mac_address (Some (c_str (req_mac request))) = Inr mac" "req_session_id request = e_session_id e"
    "authorized_at_ticks e = uint (now env)"
    "ttl_ticks e = uint (pdMS_TO_TICKS pf (word_of_int (req_ttl_seconds request) * 1000))"
    and l: "\<And>l1 x l2 dx. later = l1 @ x # l2 \<Longrightarrow> device_run pf (before @ Mqtt_event env mev # l1) d0 dx \<Longrightarrow>
      \<not> ends_access pf mac (e_session_id e) x dx"
    unfolding allowed_by_command_def by blast
  have "\<not> ends_access pf mac (e_session_id e) x dx"
    if "later @ [ev] = l1 @ x # l2" "device_run pf (before @ Mqtt_event env mev # l1) d0 dx" for l1 x l2 dx
  proof (cases l2 rule: rev_cases)
    case Nil
    then have "l1 = later" "x = ev" using that(1) by simp_all
    then have "dx = d" using that(2) assms(2) a(2) device_run_det by auto
    then show ?thesis using assms(3) \<open>x = ev\<close> by simp
  next
    case (snoc l y)
    then have "later = l1 @ x # l" using that(1) by (simp flip: append_Cons append_assoc)
    then show ?thesis using that(2) l by blast
  qed
  then show ?thesis
    unfolding allowed_by_command_def assms(4-6) using a
    by (intro conjI exI [of _ before] exI [of _ env] exI [of _ mev] exI [of _ "later @ [ev]"] exI [of _ d1] exI [of _ request]) auto
qed

text \<open>One step: a new grant comes from a command, and a grant that is kept was not ended.\<close>

lemma step_access:
  assumes "clients_ok (dev_clients d)" "device_step pf ev d d'" "device_run pf evs d0 d"
    and prev: "\<And>e. client_map (dev_clients d) mac = Some e \<Longrightarrow> authorized e \<Longrightarrow> allowed_by_command pf d0 evs mac e"
    and reboot: "is_reboot ev \<Longrightarrow> nobody_authorized (dev_clients d')"
    and e: "client_map (dev_clients d') mac = Some e" "authorized e"
  shows "allowed_by_command pf d0 (evs @ [ev]) mac e"
proof -
  let ?ticks = "pdMS_TO_TICKS pf"
  have run: "is_reboot ev \<or> (\<exists>ops. dev_clients d' = run_access ?ticks ops (dev_clients d) \<and>
      (\<forall>x. Set_State x CLIENT_ACCESS_STATE_AUTHORIZED \<notin> set ops) \<and>
      (\<forall>sid t0 ttl. (\<forall>op \<in> set ops. \<not> ends_grant mac sid t0 ttl op) \<longrightarrow> \<not> ends_access pf mac sid ev d) \<and>
      (\<forall>t sid ttl t'. Authorize t sid ttl t' \<in> set ops \<longrightarrow> (\<exists>env mev request. ev = Mqtt_event env mev \<and> t' = now env \<and>
         request \<in> set (delivered_commands pf ev d) \<and> req_type request = APP_COMMAND_TYPE_ALLOW \<and> t = c_str (req_mac request) \<and>
         sid = req_session_id request \<and> ttl = word_of_int (req_ttl_seconds request))))"
  proof (cases "is_reboot ev")
    case False
    from assms(2) False show ?thesis
    proof (cases rule: event_ops)
      case (commands env mev)
      let ?ops = "concat (map (command_ops env) (delivered_commands pf ev d))"
      have "Set_State x CLIENT_ACCESS_STATE_AUTHORIZED \<notin> set ?ops" for x
        by (auto dest: command_ops_cases)
      moreover have "\<not> ends_access pf mac sid ev d" if "\<forall>op \<in> set ?ops. \<not> ends_grant mac sid t0 ttl op" for sid t0 ttl
        using that revoke_op [of _ env] commands(1) False unfolding ends_access_def by (force simp: ends_grant.simps)
      moreover have "\<exists>env mev request. ev = Mqtt_event env mev \<and> t' = now env \<and>
          request \<in> set (delivered_commands pf ev d) \<and> req_type request = APP_COMMAND_TYPE_ALLOW \<and> t = c_str (req_mac request) \<and>
          sid = req_session_id request \<and> ttl = word_of_int (req_ttl_seconds request)"
        if "Authorize t sid ttl t' \<in> set ?ops" for t sid ttl t'
        using that commands(1) by (auto dest!: command_ops_cases)
      ultimately show ?thesis using commands(2) by (intro disjI2 exI [of _ ?ops]) blast
    next
      case (other ops)
      have d: "delivered_commands pf ev d = []" using other(1) by (cases ev) (auto simp: delivered_commands_def)
      have "\<not> ends_access pf mac sid ev d" if "\<forall>op \<in> set ops. \<not> ends_grant mac sid t0 ttl op" for sid t0 ttl
        using other(4) that False by (fastforce simp: ends_access_def d)
      then show ?thesis using other(2,3) by (intro disjI2 exI [of _ ops]) (auto simp: list_all_iff harmless_def)
    qed
  qed simp
  show ?thesis
  proof (cases "is_reboot ev")
    case True
    then show ?thesis using reboot e by (auto simp: nobody_authorized_def)
  next
    case False
    with run obtain ops where o: "dev_clients d' = run_access ?ticks ops (dev_clients d)"
      "\<forall>x. Set_State x CLIENT_ACCESS_STATE_AUTHORIZED \<notin> set ops"
      and ends: "\<And>sid t0 ttl. \<forall>op \<in> set ops. \<not> ends_grant mac sid t0 ttl op \<Longrightarrow> \<not> ends_access pf mac sid ev d"
      and auth: "\<And>t sid ttl t'. Authorize t sid ttl t' \<in> set ops \<Longrightarrow> \<exists>env mev request. ev = Mqtt_event env mev \<and> t' = now env \<and>
         request \<in> set (delivered_commands pf ev d) \<and> req_type request = APP_COMMAND_TYPE_ALLOW \<and> t = c_str (req_mac request) \<and>
         sid = req_session_id request \<and> ttl = word_of_int (req_ttl_seconds request)" by blast
    have "granted_since ?ticks mac (dev_clients d) ops e"
    proof (rule since.run [OF assms(1) _ _ e(2) o(2)])
      show "granted_since ?ticks mac (dev_clients d) [] e0" if "client_map (dev_clients d) mac = Some e0" "authorized e0" for e0
        using prev [OF that] that by (auto simp: granted_since_def allowed_by_command_def)
    qed (use e o in simp)
    then consider "granted_by ?ticks ops mac e"
      | e0 where "client_map (dev_clients d) mac = Some e0" "authorized e0" "e_session_id e = e_session_id e0"
        "authorized_at_ticks e = authorized_at_ticks e0" "ttl_ticks e = ttl_ticks e0"
        "\<forall>op \<in> set ops. \<not> ends_grant mac (e_session_id e) (authorized_at_ticks e) (ttl_ticks e) op"
      unfolding granted_since_def by blast
    then show ?thesis
    proof cases
      case 1
      then obtain pre t ttl t' post where h: "ops = pre @ Authorize t (e_session_id e) ttl t' # post" "0 < e_session_id e"
        "parse_mac_address (Some t) = Inr mac" "authorized_at_ticks e = uint t'" "ttl_ticks e = uint (?ticks (ttl * 1000))"
        unfolding granted_by_def by blast
      have g: "Authorize t (e_session_id e) ttl t' \<in> set ops" using h(1) by simp
      from auth [OF g] obtain env mev request where r: "ev = Mqtt_event env mev" "t' = now env"
        "request \<in> set (delivered_commands pf ev d)" "req_type request = APP_COMMAND_TYPE_ALLOW" "t = c_str (req_mac request)"
        "e_session_id e = req_session_id request" "ttl = word_of_int (req_ttl_seconds request)" by blast
      show ?thesis
        unfolding allowed_by_command_def using h(2-) r assms(3)
        by (intro conjI exI [of _ evs] exI [of _ env] exI [of _ mev] exI [of _ "[]"] exI [of _ d] exI [of _ request]) simp_all
    next
      case (2 e0)
      then show ?thesis
        using ends [OF 2(6)] by (intro kept_access [OF prev [OF 2(1,2)] assms(3)]) simp_all
    qed
  qed
qed

lemma boot_nobody:
  assumes "app_main_start pf boot s = (err, d)"
  shows "nobody_authorized (dev_clients d)"
proof -
  let ?P = "\<lambda>d. nobody_authorized (dev_clients d)"
  have on: "?P (snd (on_storage f d))" "?P (snd (on_gateway g d))" "?P (snd (on_rules k d))" "?P (snd (on_portal l d))"
      "?P (snd (on_clients (client_access_start env) d))" if "?P d" for f g k l env and d :: "'a device"
    using that start_nobody [of "dev_clients d" env]
    by (simp_all add: on_storage_def on_gateway_def on_clients_def on_rules_def on_portal_def split: prod.split) auto
  have "?P (snd (prepare_wifi_gateway_config pf d))" if "?P d" for d
    using that by (simp add: prepare_wifi_gateway_config_def use_credentials_def select_normal_gateway_mode_def
        select_provisioning_mode_def Let_def split: prod.split sum.split)
  moreover have "?P (device_boot pf (client_slots boot) s)"
    by (simp add: device_boot_def nobody_authorized_def clients_ok_boot client_map_boot)
  ultimately have "?P (snd (app_main_start pf boot s))"
    unfolding app_main_start_def by (intro fold_if_ok_keeps [where P = ?P]) (auto simp: on)
  then show ?thesis by (simp add: assms)
qed

lemma reboot_nobody:
  assumes "device_step pf ev d d'" "is_reboot ev"
  shows "nobody_authorized (dev_clients d')"
proof -
  obtain boot err d1 where "app_main_start pf boot (nvs (storage d)) = (err, d1)" "d' \<in> {d1, d1\<lparr>restarting := True\<rparr>}"
    using assms by (cases ev) (auto elim: device_stepE)
  then show ?thesis using boot_nobody by fastforce
qed

lemma step_clients_ok:
  assumes "device_step pf ev d d'" "clients_ok (dev_clients d)"
  shows "clients_ok (dev_clients d')"
proof (cases "is_reboot ev")
  case True
  then show ?thesis using reboot_nobody [OF assms(1)] by (simp add: nobody_authorized_def)
next
  case False
  from assms(1) False show ?thesis by (cases rule: event_ops) (use run_access_ok [OF assms(2)] in simp_all)
qed

lemma run_clients_ok: "device_run pf evs d0 d \<Longrightarrow> clients_ok (dev_clients d0) \<Longrightarrow> clients_ok (dev_clients d)"
  by (induction rule: device_run.induct) (auto dest: step_clients_ok)

lemma authorized_by_command:
  assumes "device_run pf evs d0 d" "nobody_authorized (dev_clients d0)" "client_map (dev_clients d) mac = Some e" "authorized e"
  shows "allowed_by_command pf d0 evs mac e"
  using assms
proof (induction arbitrary: e rule: device_run.induct)
  case (run_none d)
  then show ?case by (auto simp: nobody_authorized_def)
next
  case (run_snoc evs d0 d1 ev d2)
  show ?case
  proof (rule step_access [OF _ run_snoc.hyps(2,1) _ _ run_snoc.prems(2,3)])
    show "clients_ok (dev_clients d1)"
      using run_clients_ok [OF run_snoc.hyps(1)] run_snoc.prems(1) by (simp add: nobody_authorized_def)
    show "nobody_authorized (dev_clients d2)" if "is_reboot ev"
      using reboot_nobody [OF run_snoc.hyps(2) that] .
  qed (use run_snoc in auto)
qed

section \<open>Properties\<close>

text \<open>
  C1: a client reaches the network only by a command. In every run from a state in which no client is authorized, as after
  every start, a packet from the SoftAP that the filter has to judge passes only if its destination is not blocked and its source
  address is that of a client whose access an ALLOW command granted: the command came over MQTT in this run and was parsed without an
  error, names the client's MAC address and the session, and its time is not over; since then the device did not restart, the client
  neither left nor connected anew, and no command revoked that session.
\<close>

theorem network_access_only_by_command:
  assumes "nobody_authorized (dev_clients d0)" "device_run pf evs d0 d"
    and "judged (lwip pf) hdrs (dev_rules d) packet nif ip"
    and "access_filter_lwip_ip4_input (lwip pf) hdrs t ms (dev_rules d) (Some packet) (Some nif)
      \<lparr>filter_clients = dev_clients d, tls_flows = dev_flows d\<rparr> = Some (False, fs)"
  shows "ip_dest ip \<notin> set (s_blocked_destination_ipv4 (dev_rules d)) \<and>
    (\<exists>mac e. client_map (dev_clients d) mac = Some e \<and> e_ip e = ip_src ip \<and> allowed_by_command pf d0 evs mac e \<and>
      \<not> grant_expired t (authorized_at_ticks e) (ttl_ticks e))"
proof -
  let ?fs = "\<lparr>filter_clients = dev_clients d, tls_flows = dev_flows d\<rparr>"
  have ok: "clients_ok (dev_clients d)" using run_clients_ok [OF assms(2)] assms(1) by (simp add: nobody_authorized_def)
  show ?thesis
    using filter_default_deny [OF _ assms(3,4)] ok authorized_by_command [OF assms(2,1)] by auto
qed

section \<open>A client that is let through\<close>

definition grant_payload :: string where
  "grant_payload = command_payload (Some ''r-1'') (Allow ''02:00:00:00:00:0a'' 7 60)"

definition grant_request :: app_command_request where
  "grant_request = command_request (Some ''r-1'') (Allow ''02:00:00:00:00:0a'' 7 60)"

definition grant_event :: mqtt_event where
  "grant_event = MQTT_EVENT_DATA (Some \<lparr>ev_topic = Some ''cmd/allow'', ev_topic_len = 9, ev_data = Some grant_payload,
     ev_data_len = int (length grant_payload), ev_total_data_len = int (length grant_payload), ev_current_data_offset = 0\<rparr>)"

lemma grant_command_ok: "command_ok (Allow ''02:00:00:00:00:0a'' 7 60)" "\<not> is_stage (Allow ''02:00:00:00:00:0a'' 7 60)"
    "pred_option plain (Some ''r-1'')"
  by (simp_all add: text_ok_def plain_def NUL_char)

lemma grant_payload_fits: "0 < length grant_payload" "length grant_payload < 2048"
  by (simp_all add: grant_payload_def command_payload_def message_fields_def optional_field_def render_object_def render_field_def dec_int_def dec_nat.simps)

lemma grant_parse:
  "app_command_parse sample_cjson (Some ''cmd/allow'') (Some grant_payload) empty_request = (ESP_OK, grant_request)"
proof -
  note o = command_object_ok [OF grant_command_ok]
  have p: "c_str grant_payload = grant_payload" "grant_payload \<noteq> []"
    using object_plain [OF o] by (simp_all add: grant_payload_def command_payload_def render_object_def)
  have r: "read_json_string_field grant_payload ''requestId'' APP_COMMAND_REQUEST_ID_SIZE = Inr ''r-1''"
    using read_string_field [OF o, of "''requestId''" 64] keys_ok
    by (simp add: grant_payload_def command_payload_def message_fields_def optional_field_def command_sizes plain_def NUL_char)
  have t: "read_command_type_from_topic (Some ''cmd/allow'') = Inr APP_COMMAND_TYPE_ALLOW"
    by (simp add: read_command_type_from_topic_def after_last_def command_of_name_def c_str_def NUL_char COMMAND_TOPIC_BUFFER_SIZE_def)
  show ?thesis
    using command_fields_roundtrip [OF grant_command_ok] grant_payload_fits
    by (simp add: app_command_parse_def t p r optional_def fill_string_def Let_def COMMAND_PAYLOAD_BUFFER_SIZE_def
        some_string_def flip: grant_payload_def grant_request_def) (simp add: grant_request_def some_string_def)
qed

lemma grant_delivered:
  assumes "s_command_handler m" "length (s_incoming_payload m) = 2048"
  shows "\<exists>m'. mqtt_event_handler grant_event m = Some ([Command ''cmd/allow'' grant_payload], m')"
  using assms grant_payload_fits
  by (simp add: mqtt_event_handler_def grant_event_def handle_mqtt_data_def start_message_def append_fragment_def mqtt_sizes
      read_all read_bytes_def reset_incoming_command_def Let_def write_at_def c_str_def NUL_char)

definition grant_services :: services where
  "grant_services = sample_services\<lparr>now := 5\<rparr>"

definition grant_device :: "nvs_view device" where
  "grant_device = (device_boot sample_platform 2 Map.empty)
     \<lparr>dev_mqtt := mqtt_boot\<lparr>s_client := True, s_connected := True, s_command_handler := True\<rparr>, dev_rules := sample_rules\<rparr>"

definition grant_events :: "nvs_view device_event list" where
  "grant_events = [Softap_event (softap_event.WIFI_EVENT_AP_STACONNECTED sample_mac),
     Softap_event (IP_EVENT_ASSIGNED_IP_TO_CLIENT sample_mac 33), Mqtt_event grant_services grant_event]"

lemma grant_run:
  "\<exists>d. device_run sample_platform grant_events grant_device d \<and> dev_clients d = sample_clients \<and> dev_rules d = sample_rules \<and>
    dev_flows d = boot_flows"
proof -
  let ?d1 = "grant_device\<lparr>dev_clients := on_softap (softap_event.WIFI_EVENT_AP_STACONNECTED sample_mac) (dev_clients grant_device)\<rparr>"
  let ?d2 = "?d1\<lparr>dev_clients := on_softap (IP_EVENT_ASSIGNED_IP_TO_CLIENT sample_mac 33) (dev_clients ?d1)\<rparr>"
  obtain m' where m: "mqtt_event_handler grant_event (dev_mqtt ?d2) = Some ([Command ''cmd/allow'' grant_payload], m')"
    using grant_delivered [of "dev_mqtt ?d2"] by (auto simp: grant_device_def mqtt_boot_def mqtt_sizes)
  let ?d3 = "fold (run_effect sample_platform grant_services) [Command ''cmd/allow'' grant_payload] (?d2\<lparr>dev_mqtt := m'\<rparr>)"
  have r: "\<not> restarting ?d1" "\<not> restarting ?d2" "\<not> restarting grant_device" by (simp_all add: grant_device_def device_boot_def)
  have "device_run sample_platform (([] @ [Softap_event (softap_event.WIFI_EVENT_AP_STACONNECTED sample_mac)]) @
      [Softap_event (IP_EVENT_ASSIGNED_IP_TO_CLIENT sample_mac 33)]) grant_device ?d2"
    by (rule run_snoc [OF run_snoc [OF run_none softap_step [OF r(3)]] softap_step [OF r(1)]])
  moreover have "device_step sample_platform (Mqtt_event grant_services grant_event) ?d2 ?d3"
    using r(2) m by (rule mqtt_step)
  ultimately have run: "device_run sample_platform grant_events grant_device ?d3"
    unfolding grant_events_def append_Nil append_Cons by (drule_tac run_snoc) simp_all
  have c: "parsed_commands sample_platform (Command ''cmd/allow'' grant_payload) = [grant_request]"
    using grant_parse by (simp add: sample_platform_def)
  have "dev_clients ?d3 = run_access (\<lambda>ms. ms) (command_ops grant_services grant_request) (dev_clients ?d2)"
    unfolding effects_clients using c by (simp add: sample_platform_def)
  also have "... = sample_clients"
    by (simp add: command_ops_def grant_request_def grant_services_def grant_device_def device_boot_def sample_clients_def sample_ops_def
        run_access_def on_softap_def client_access_event_handler_def client_access_ip_event_handler_def c_str_def NUL_char)
  finally have "dev_clients ?d3 = sample_clients" .
  moreover have "dev_rules ?d3 = sample_rules \<and> dev_flows ?d3 = boot_flows"
    using grant_parse
    by (simp add: run_effect_def handle_mqtt_command_def sample_platform_def Let_def grant_request_def publish_command_result_def publish_def
        grant_device_def device_boot_def split: prod.split sum.split)
  ultimately show ?thesis using run by blast
qed

lemma network_access_only_by_command_witness:
  "\<exists>d mac e. device_run sample_platform grant_events grant_device d \<and> client_map (dev_clients d) mac = Some e \<and> e_ip e = 33 \<and>
    allowed_by_command sample_platform grant_device grant_events mac e"
proof -
  obtain d where d: "device_run sample_platform grant_events grant_device d" "dev_clients d = sample_clients"
      "dev_rules d = sample_rules" "dev_flows d = boot_flows" using grant_run by blast
  have n: "nobody_authorized (dev_clients grant_device)"
    by (simp add: grant_device_def device_boot_def nobody_authorized_def clients_ok_boot client_map_boot)
  have l: "lwip sample_platform = sample_lwip" by (simp add: sample_platform_def)
  obtain mac e where "client_map (dev_clients d) mac = Some e" "e_ip e = 33"
      "allowed_by_command sample_platform grant_device grant_events mac e"
    using network_access_only_by_command [OF n d(1), unfolded l d(2-4), OF sample_judged sample_passes [unfolded sample_filter_def]] d(2)
    by (auto simp: sample_ip_def)
  then show ?thesis using d(1) by blast
qed

end
