(* ===== verification/Spec2Isabelle.thy ===== *)
theory Spec2Isabelle
  imports Packet_Filter Config_Runs Command_Parsing Mqtt_Runs Gateway_Runs Dns_Runs Portal_Runs App_Runs Boot_Runs Command_Runs Access_Runs
begin

text \<open>
  \<^bold>\<open>The program.\<close> The firmware of an ESP32 that shares the network of an upstream router with clients of its own access
  point (SoftAP). A client gets no access until a controller, over MQTT, allows it for a session and a limited time; until then a
  captive portal and a DNS service lead it to the page where it can log in. The controller can also end a session, install blocking
  rules for addresses and host names, restart the device, and stage new credentials for the upstream network, which the device
  tries only when the current ones fail and makes permanent only when they have worked. Without credentials the device opens a
  protected access point with a form for them. The code is C on ESP-IDF: nine components under src/components and the
  application in src/src/main.c.

  \<^bold>\<open>How the parts interact.\<close> The Wi-Fi driver delivers events to wifi\_gateway.c (the state of the station, counters of failures)
  and to client\_access.c (clients that come, get an address, leave). lwIP gives every packet from the SoftAP to the hook of
  access\_filter.c, which asks client\_access.c whether the sender is authorized, compares the destination with the
  blocking rules, and follows TLS connections with tls\_sni\_parser.c until their server name is known. portal\_dns.c and captive\_portal.c ask
  client\_access.c who is asking. app\_mqtt.c reassembles messages and hands commands to main.c, which parses them
  with app\_command.c, calls the component that executes them and publishes the result. app\_storage.c keeps the credentials
  in flash (NVS). The main loop of main.c looks at the state of the station every ten seconds: it recovers the upstream network, starts MQTT, makes a
  verified candidate permanent, reports the status and expires sessions.

  \<^bold>\<open>Conventions.\<close> Integers of the code with a width are words (\<open>u8\<close>, \<open>u16\<close>, \<open>u32\<close>), \<open>int64_t\<close> and \<open>int\<close> are \<open>int\<close> where the code's own
  checks bound them, sizes and indices are \<open>nat\<close>; the number of clients of wifi\_gateway.c, an \<open>int\<close> that nothing bounds, is a 32-bit word read
  by \<open>sint\<close> (C37 names the room it needs). A C string is the list of its characters before the terminating NUL; \<open>c_str\<close> cuts an array
  at its first NUL. A fixed array is a list of constant length; reads and writes outside of a buffer that the proofs must exclude are the value
  \<open>None\<close> (\<open>byte_at\<close>, \<open>copy_packet_bytes\<close>, \<open>write_at\<close> with its guard, \<open>read_bytes\<close>). A function that returns an
  \<open>esp_err_t\<close> and an output is \<open>esp_err + 'a\<close> or a pair; a function that changes the static state of its file takes and returns that state,
  one record per component, with the names of the C variables. What the code does in one critical section is one function.
  Prelude holds the words, the error codes, the character functions of the C library, buffer operations, \<open>if_ok\<close> (a sequence of calls
  that stops at the first error) and the shared simplification sets; Text\_Format the formats of \<open>snprintf\<close>.

  \<^bold>\<open>Theories and sources.\<close>
  \<^item> TLS parser (tls\_sni\_parser.c). Tls\_Sni\_Parser: \<open>tls_sni_parser_feed\<close> with its loops; every read is guarded. Tls\_Stream: the
    invariant \<open>tls_wf\<close>, memory safety, feeding in pieces; Tls\_Hello: a ClientHello as data, how it is written and what it means; Tls\_Records: the record layer, and
    the properties C7, C18 and C28. Stream\_Machine is the locale of an incremental consumer: the parser is an instance in Tls\_Stream (\<open>tls\<close>), its view from
    the flow table in Tls\_Flows (\<open>sni\<close>).
  \<^item> Clients (client\_access.c). Client\_Access: the table and all its operations; Client\_Table: the table as a finite map, by the locale of
    Slot\_Table (\<open>clients\<close>); Client\_Runs: refinement of the map by every operation, runs of operations,
    and the locale \<open>provenance\<close>, which says once why a client can be authorized: C3, C9, C24 to C27. Mac\_Text: MAC addresses as text, both ways.
  \<^item> Filter (access\_filter.c). Access\_Rules: host names and blocking rules (C21 to C23); Tls\_Flows: the table of tracked connections and
    the inspection of a segment; Flow\_Table: its invariant and runs, again by Slot\_Table (\<open>flows\<close>; C2, C19); Packet\_Filter:
    the hook for a packet (C8, C20).
  \<^item> Storage (app\_storage.c). App\_Storage: every function, on an abstract NVS (\<open>nvs_api\<close>); Config\_Store: what the NVS
    library documents (\<open>nvs_contract\<close>) and a store that satisfies it (\<open>map_nvs\<close>); Config\_Runs: what is staged, promoted, saved and erased (C29 to C33).
  \<^item> Commands (app\_command.c). App\_Command: topic, field search, numbers, the command that uses cJSON; Command\_Fields: what the
    search finds in a JSON object without blanks; Command\_Parsing: the six commands of the protocol as data and the
    parser's answer (C34, bounds of accepted requests).
  \<^item> MQTT (app\_mqtt.c). App\_Mqtt: connection, reassembly, start, publishing; Mqtt\_Runs: C35, C36.
  \<^item> Wi-Fi (wifi\_gateway.c). Wifi\_Gateway: events, counters, credentials, start, with the calls of the driver recorded in order; Gateway\_Runs: C37 to C40.
  \<^item> Portal. Portal\_Dns (portal\_dns.c): parsing and answering queries, the task, DHCP settings; Dns\_Runs: C14, C15, C17.
    Captive\_Portal (captive\_portal.c): page, redirect, form, start; Portal\_Runs: C13, C16.
  \<^item> Device\_Status (device\_status.c): the status message.
  \<^item> Application (main.c). App\_Main: the state \<open>device\<close> of all components, the choice of the mode, the upstream recovery, publishing;
    App\_Loop: \<open>handle_mqtt_command\<close>, the start, \<open>main_round\<close> and the step relation \<open>device_step\<close>, one event at a time in any order: a round of the loop, a
    driver event, a SoftAP event, an MQTT event with the commands it delivers, a packet, requests to the portal, a DNS query, the publishing task, a restart. A restart
    follows a command, the recovery, the form or a start that failed, and a loss of power between any two steps; NVS is all that survives it.
    App\_Runs: runs (\<open>device_run\<close>) and the attempt with the candidate (C4); Boot\_Runs: start, recovery, entering credentials (C10 to C12); Command\_Runs: commands from
    the message to the effect (C5, C6); Access\_Runs: why a packet of a client may pass, over the life of the device (C1).

  \<^bold>\<open>Parameters.\<close> Code outside of src/ is an argument: the packet and address functions of lwIP (\<open>packet\<close>, \<open>header_api\<close>, \<open>lwip_api\<close>), NVS
  (\<open>nvs_api\<close>), cJSON (\<open>cjson_api\<close>, \<open>json_writer\<close>; a number is a rational or an infinity), the Wi-Fi driver (\<open>wifi_driver\<close>), the MQTT client, the HTTP
  server (\<open>http_api\<close>), sockets and \<open>getaddrinfo\<close>, the DHCP server, FreeRTOS (ticks, whether a task, a queue or a mutex is created). Most properties hold
  for every value of them. Where one does not, the reliance is a named hypothesis with an instance in its witness: \<open>nvs_contract\<close> (a read returns what is
  stored, a write or an erasure without an error is stored, and one with an error may or may not be), \<open>query_contract\<close> (the HTTP server finds a field of a form),
  \<open>cjson_reads\<close> (cJSON finds in a payload the fields it has), \<open>segment_of\<close> (what lwIP reads from a packet is a piece of a stream), \<open>results_print\<close> and
  \<open>connected_services\<close> (cJSON prints a result, MQTT accepts it). The settings of secrets.h are the record \<open>secrets\<close>.

  \<^bold>\<open>Termination and fuel.\<close> Loops over a buffer are \<open>function\<close>s whose measure is what is left of the buffer, or structural
  recursions over a list. \<open>feed_loop\<close> of the TLS parser is a \<open>partial_function (option)\<close>: \<open>None\<close> is a read outside of the buffer or no return, and
  Tls\_Stream proves that from \<open>tls_wf\<close> it is never \<open>None\<close>. \<open>receive_body\<close> reads the results of the socket from a list and is \<open>None\<close> when the list
  ends: three results for each byte of the announced length are enough (C16), because the third timeout in a row ends the loop and
  every other result adds a byte or ends it. \<open>portal_dns_task\<close> ends where the list of received datagrams ends.

  \<^bold>\<open>What the proofs show, in short.\<close> Safety of memory: no packet, ClientHello, DNS query, MQTT event or request makes the code leave a
  buffer, and the tables stay well-formed (C2, C16, C19, C20, C35, C37). Access: C1 to C3, C8, C13, C15, C24 to C27. Names and rules: C2, C7, C18, C21 to C23. The upstream
  configuration: C4, C5, C10 to C12, C29 to C33, C38 to C40. Messages: C6, C34 to C36. The lemmas \<open>malformed_mac_accepted\<close>, \<open>kick_with_long_reason_refused\<close>,
  \<open>sample_ping\<close>, \<open>failed_start_cannot_be_retried\<close>, \<open>alternating_failures_require_recovery\<close>, \<open>retained_recovery_keeps_access_point\<close> and \<open>torn_candidate_promoted\<close> record
  where the code departs from its comments or documents.

  \<^bold>\<open>Not modelled.\<close> Logging, delays and the closing of sockets that were only partly set up: no state depends on them. The contents of the two HTML pages are constants
  without structure. Interleavings inside one step: a round of the main loop, a handler or a command runs to its end before the next step, which
  the code guarantees only for the parts inside its critical sections; the exception is \<open>portal_page_handler\<close>, whose argument \<open>meanwhile\<close> is any change of the
  client table between its two critical sections (the steps of the device take none). A loss of power inside a step.
  NULL checks of output
  pointers, where the output is a result. Build and configuration files, and the libraries of ESP-IDF.
\<close>

end
